theory Spec2Isabelle
  imports Main "HOL-Library.Word"
begin

unbundle bit_operations_syntax

chapter \<open>Definitions\<close>

section \<open>Undefined behaviour as a value\<close>

text \<open>
  The C sources index arrays and read strings without checks. Where such an access
  leaves the object it was aimed at, the model returns a \<open>fault\<close> instead of a value.
\<close>

datatype fault =
    OutOfBounds     \<comment> \<open>an index or a scan left the array or block\<close>
  | Uninitialised   \<comment> \<open>a byte of a fresh block was read before it was written\<close>
  | NullPointer     \<comment> \<open>arithmetic on, or a read through, a null pointer\<close>

section \<open>Error-code translation (src/libSystem/libc/errno.cpp)\<close>

text \<open>
  \<^verbatim>\<open>static int darwin_to_linux[140]; static int linux_to_darwin[140];\<close>
  The two tables are filled by \<^verbatim>\<open>initErrnoMappingTable\<close> from two included map files
  that are not part of the sources, so the tables are a parameter of the model. A C
  \<^verbatim>\<open>int\<close> is a 32-bit word read as two's complement (\<open>sint\<close>).
\<close>

record errno_tables =
  darwin_to_linux :: "32 word list"
  linux_to_darwin :: "32 word list"

text \<open>The tables as the two \<^verbatim>\<open>memset\<close> calls leave them, before any mapping is entered.\<close>

definition memset_tables :: errno_tables where
  "memset_tables = \<lparr>darwin_to_linux = replicate 140 0, linux_to_darwin = replicate 140 0\<rparr>"

text \<open>
  The condition of the \<^verbatim>\<open>if\<close> in \<^verbatim>\<open>errnoDoMap\<close>:
  \<^verbatim>\<open>err < sizeof(darwin_to_linux)/sizeof(darwin_to_linux[0])-1\<close>.
  The right-hand side has type \<^verbatim>\<open>size_t\<close> (an unsigned 64-bit word with value 139), so
  the usual arithmetic conversions turn \<^verbatim>\<open>err\<close> into a \<^verbatim>\<open>size_t\<close> as well: the
  \<^verbatim>\<open>int\<close> is sign-extended (\<open>scast\<close>) and the comparison is unsigned.
\<close>

definition errnoDoMap_guard :: "32 word \<Rightarrow> bool" where
  "errnoDoMap_guard err = ((scast err :: 64 word) < 140 - 1)"

text \<open>
  \<^verbatim>\<open>map[err]\<close> is indexed by the signed \<^verbatim>\<open>int\<close>; an index outside the table is
  \<open>OutOfBounds\<close>.
\<close>

definition errnoDoMap :: "32 word \<Rightarrow> 32 word list \<Rightarrow> fault + 32 word" where
  "errnoDoMap err m =
     (if errnoDoMap_guard err then
        (if 0 \<le> sint err \<and> nat (sint err) < length m then
           (let e = m ! nat (sint err) in
            Inr (if e = 0 then err else e))
         else Inl OutOfBounds)
      else Inr 0)"

definition errnoDarwinToLinux :: "errno_tables \<Rightarrow> 32 word \<Rightarrow> fault + 32 word" where
  "errnoDarwinToLinux t err = errnoDoMap err (darwin_to_linux t)"

definition errnoLinuxToDarwin :: "errno_tables \<Rightarrow> 32 word \<Rightarrow> fault + 32 word" where
  "errnoLinuxToDarwin t err = errnoDoMap err (linux_to_darwin t)"

section \<open>Hook installer (xtrace: \<^verbatim>\<open>setup_hook\<close>, \<^verbatim>\<open>xtrace_setup_mach\<close>, \<^verbatim>\<open>xtrace_setup_bsd\<close>, \<^verbatim>\<open>setup_hook_with_perms\<close>)\<close>

subsection \<open>The machine the installer runs on\<close>

text \<open>
  The installer patches code bytes and calls \<^verbatim>\<open>mprotect\<close>. The machine state holds the
  byte memory, the protection of every page (keyed by the page's base address), the
  answers the kernel is going to give to the coming \<^verbatim>\<open>mprotect\<close> calls (\<open>True\<close>: the call
  succeeds; \<open>False\<close>: it fails and returns -1; an exhausted list: it succeeds), and the
  log of the calls made so far. Addresses are \<^verbatim>\<open>uintptr_t\<close>, a 64-bit word (the
  \<^verbatim>\<open>__x86_64__\<close> branch of the source).
\<close>

datatype prot_flag = PROT_READ | PROT_WRITE | PROT_EXEC

record machine =
  mem :: "64 word \<Rightarrow> 8 word"
  page_prot :: "64 word \<Rightarrow> prot_flag set"
  mprotect_results :: "bool list"
  mprotect_calls :: "(64 word \<times> 64 word \<times> prot_flag set) list"

text \<open>
  How a piece of start-up code ends: it returns, it aborts the process
  (\<^verbatim>\<open>xtrace_abort\<close>), or a store hits a page without write permission and the process
  takes a fault.
\<close>

datatype outcome = Returned machine | Aborted string machine | Faulted machine

fun machine_of :: "outcome \<Rightarrow> machine" where
  "machine_of (Returned m) = m"
| "machine_of (Aborted msg m) = m"
| "machine_of (Faulted m) = m"

fun is_Aborted :: "outcome \<Rightarrow> bool" where
  "is_Aborted (Aborted msg m) = True"
| "is_Aborted (Returned m) = False"
| "is_Aborted (Faulted m) = False"

fun is_Returned :: "outcome \<Rightarrow> bool" where
  "is_Returned (Returned m) = True"
| "is_Returned (Aborted msg m) = False"
| "is_Returned (Faulted m) = False"

fun is_Faulted :: "outcome \<Rightarrow> bool" where
  "is_Faulted (Faulted m) = True"
| "is_Faulted (Returned m) = False"
| "is_Faulted (Aborted msg m) = False"

text \<open>\<^verbatim>\<open>xtrace_abort(message)\<close>: \<^verbatim>\<open>_abort_with_payload_for_xtrace\<close>, which does not return.\<close>

definition xtrace_abort :: "string \<Rightarrow> machine \<Rightarrow> outcome" where
  "xtrace_abort message m = Aborted message m"

text \<open>The base address of the 4096-byte page an address lies in.\<close>

definition page_of :: "64 word \<Rightarrow> 64 word" where
  "page_of a = a AND NOT (4096 - 1)"

text \<open>The address range \<open>[addr, addr + len)\<close> of an \<^verbatim>\<open>mprotect\<close> call, without wrap-around.\<close>

definition in_range :: "64 word \<Rightarrow> 64 word \<Rightarrow> 64 word \<Rightarrow> bool" where
  "in_range addr len a = (unat addr \<le> unat a \<and> unat a < unat addr + unat len)"

text \<open>
  The system call \<^verbatim>\<open>mprotect(addr, len, prot)\<close>: the call is logged; when the kernel
  refuses it, -1 is returned and no protection changes; otherwise every page whose base
  lies in the range gets the new protection and 0 is returned.
\<close>

definition mprotect :: "64 word \<Rightarrow> 64 word \<Rightarrow> prot_flag set \<Rightarrow> machine \<Rightarrow> int \<times> machine" where
  "mprotect addr len prot m =
     (let m1 = m\<lparr>mprotect_calls := mprotect_calls m @ [(addr, len, prot)]\<rparr> in
      case mprotect_results m of
        False # rest \<Rightarrow> (- 1, m1\<lparr>mprotect_results := rest\<rparr>)
      | _ \<Rightarrow> (0, m1\<lparr>page_prot := (\<lambda>pg. if in_range addr len pg then prot else page_prot m pg),
                     mprotect_results := tl (mprotect_results m)\<rparr>))"

text \<open>A one-byte store: it needs write permission on the byte's page.\<close>

definition store_byte :: "64 word \<Rightarrow> 8 word \<Rightarrow> machine \<Rightarrow> outcome" where
  "store_byte a v m =
     (if PROT_WRITE \<in> page_prot m (page_of a) then Returned (m\<lparr>mem := (mem m)(a := v)\<rparr>)
      else Faulted m)"

fun store_bytes :: "64 word \<Rightarrow> 8 word list \<Rightarrow> machine \<Rightarrow> outcome" where
  "store_bytes a [] m = Returned m"
| "store_bytes a (v # vs) m =
     (case store_byte a v m of Returned m' \<Rightarrow> store_bytes (a + 1) vs m' | other \<Rightarrow> other)"

text \<open>The eight bytes of a \<^verbatim>\<open>uint64_t\<close> in memory order (little endian).\<close>

definition le_bytes64 :: "64 word \<Rightarrow> 8 word list" where
  "le_bytes64 w =
     [ucast w, ucast (drop_bit 8 w), ucast (drop_bit 16 w), ucast (drop_bit 24 w),
      ucast (drop_bit 32 w), ucast (drop_bit 40 w), ucast (drop_bit 48 w), ucast (drop_bit 56 w)]"

subsection \<open>The hook and its installation\<close>

text \<open>
  \<^verbatim>\<open>struct hook { uint8_t movabs[2]; uint64_t addr; uint8_t call[3]; } __attribute__((packed));\<close>
  \<^verbatim>\<open>movabs\<close> is at offset 0, \<^verbatim>\<open>addr\<close> at offset 2, \<^verbatim>\<open>call\<close> at offset 10, and
  \<^verbatim>\<open>sizeof(struct hook)\<close> is 13.
\<close>

definition sizeof_hook :: "64 word" where
  "sizeof_hook = 13"

text \<open>
  \<^verbatim>\<open>setup_hook(hook, fnptr, jump)\<close>, in the order of the source's assignments:
  \<^verbatim>\<open>movabs[0] = 0x49; movabs[1] = 0xba; call[0] = 0x41; call[1] = 0xff;\<close>
  \<^verbatim>\<open>call[2] = jump ? 0xe2 : 0xd2; addr = (uintptr_t)fnptr;\<close>
\<close>

definition setup_hook :: "64 word \<Rightarrow> 64 word \<Rightarrow> bool \<Rightarrow> machine \<Rightarrow> outcome" where
  "setup_hook hook fnptr jump m =
     (case store_bytes hook [0x49, 0xba] m of
        Returned m1 \<Rightarrow>
          (case store_bytes (hook + 10) [0x41, 0xff, if jump then 0xe2 else 0xd2] m1 of
             Returned m2 \<Rightarrow> store_bytes (hook + 2) (le_bytes64 fnptr) m2
           | other \<Rightarrow> other)
      | other \<Rightarrow> other)"

text \<open>
  The addresses the installer gets from outside: the hook regions in the system-call stubs
  (\<^verbatim>\<open>_darling_mach_syscall_entry\<close>, ... declared \<^verbatim>\<open>extern\<close>), the trampolines written
  in assembly, the three miscellaneous hook slots (\<^verbatim>\<open>&_xtrace_thread_exit\<close>, ...) and the
  addresses of the three hook functions.
\<close>

record symbols =
  darling_mach_syscall_entry :: "64 word"
  darling_mach_syscall_exit :: "64 word"
  darling_bsd_syscall_entry :: "64 word"
  darling_bsd_syscall_exit :: "64 word"
  darling_mach_syscall_entry_trampoline :: "64 word"
  darling_mach_syscall_exit_trampoline :: "64 word"
  darling_bsd_syscall_entry_trampoline :: "64 word"
  darling_bsd_syscall_exit_trampoline :: "64 word"
  xtrace_thread_exit_slot :: "64 word"
  xtrace_execve_inject_slot :: "64 word"
  xtrace_postfork_child_slot :: "64 word"
  xtrace_thread_exit_hook_fn :: "64 word"
  xtrace_execve_inject_hook_fn :: "64 word"
  xtrace_postfork_child_hook_fn :: "64 word"

text \<open>
  \<^verbatim>\<open>xtrace_setup_mach\<close>. The value \<^verbatim>\<open>mprotect\<close> returns is dropped by the source, so the
  model keeps only the machine (\<open>snd\<close>).
\<close>

definition xtrace_setup_mach :: "symbols \<Rightarrow> machine \<Rightarrow> outcome" where
  "xtrace_setup_mach sy m =
     (let area = darling_mach_syscall_entry sy;
          areaEnd = darling_mach_syscall_exit sy + sizeof_hook;
          area = area AND NOT (4096 - 1);
          areaEnd = areaEnd AND NOT (4096 - 1);
          bytes = 4096 + (areaEnd - area);
          m1 = snd (mprotect area bytes {PROT_READ, PROT_WRITE, PROT_EXEC} m)
      in case setup_hook (darling_mach_syscall_entry sy)
                (darling_mach_syscall_entry_trampoline sy) False m1 of
           Returned m2 \<Rightarrow>
             (case setup_hook (darling_mach_syscall_exit sy)
                     (darling_mach_syscall_exit_trampoline sy) False m2 of
                Returned m3 \<Rightarrow> Returned (snd (mprotect area bytes {PROT_READ, PROT_EXEC} m3))
              | other \<Rightarrow> other)
         | other \<Rightarrow> other)"

text \<open>\<^verbatim>\<open>xtrace_setup_bsd\<close>: the same code on the BSD pair of hooks.\<close>

definition xtrace_setup_bsd :: "symbols \<Rightarrow> machine \<Rightarrow> outcome" where
  "xtrace_setup_bsd sy m =
     (let area = darling_bsd_syscall_entry sy;
          areaEnd = darling_bsd_syscall_exit sy + sizeof_hook;
          area = area AND NOT (4096 - 1);
          areaEnd = areaEnd AND NOT (4096 - 1);
          bytes = 4096 + (areaEnd - area);
          m1 = snd (mprotect area bytes {PROT_READ, PROT_WRITE, PROT_EXEC} m)
      in case setup_hook (darling_bsd_syscall_entry sy)
                (darling_bsd_syscall_entry_trampoline sy) False m1 of
           Returned m2 \<Rightarrow>
             (case setup_hook (darling_bsd_syscall_exit sy)
                     (darling_bsd_syscall_exit_trampoline sy) False m2 of
                Returned m3 \<Rightarrow> Returned (snd (mprotect area bytes {PROT_READ, PROT_EXEC} m3))
              | other \<Rightarrow> other)
         | other \<Rightarrow> other)"

text \<open>\<^verbatim>\<open>setup_hook_with_perms\<close>: one hook, made writable and restored around the patch.\<close>

definition setup_hook_with_perms :: "64 word \<Rightarrow> 64 word \<Rightarrow> bool \<Rightarrow> machine \<Rightarrow> outcome" where
  "setup_hook_with_perms hook fnptr jump m =
     (let area = hook;
          areaEnd = hook + sizeof_hook;
          area = area AND NOT (4096 - 1);
          areaEnd = areaEnd AND NOT (4096 - 1);
          bytes = 4096 + (areaEnd - area);
          m1 = snd (mprotect area bytes {PROT_READ, PROT_WRITE, PROT_EXEC} m)
      in case setup_hook hook fnptr jump m1 of
           Returned m2 \<Rightarrow> Returned (snd (mprotect area bytes {PROT_READ, PROT_EXEC} m2))
         | other \<Rightarrow> other)"

definition xtrace_setup_misc_hooks :: "symbols \<Rightarrow> machine \<Rightarrow> outcome" where
  "xtrace_setup_misc_hooks sy m =
     (case setup_hook_with_perms (xtrace_thread_exit_slot sy) (xtrace_thread_exit_hook_fn sy) True m of
        Returned m1 \<Rightarrow>
          (case setup_hook_with_perms (xtrace_execve_inject_slot sy)
                  (xtrace_execve_inject_hook_fn sy) True m1 of
             Returned m2 \<Rightarrow>
               setup_hook_with_perms (xtrace_postfork_child_slot sy)
                 (xtrace_postfork_child_hook_fn sy) True m2
           | other \<Rightarrow> other)
      | other \<Rightarrow> other)"

text \<open>The bytes of the hook region that starts at \<open>hook\<close>.\<close>

definition hook_byte :: "64 word \<Rightarrow> 64 word \<Rightarrow> bool" where
  "hook_byte hook a = (unat hook \<le> unat a \<and> unat a < unat hook + unat sizeof_hook)"

text \<open>
  The 13 bytes of a \<^verbatim>\<open>struct hook\<close> in memory order once \<^verbatim>\<open>setup_hook\<close> has filled
  its three fields (\<^verbatim>\<open>movabs\<close>, \<^verbatim>\<open>addr\<close>, \<^verbatim>\<open>call\<close>), and the bytes found in memory
  from an address on.
\<close>

definition hook_bytes :: "64 word \<Rightarrow> bool \<Rightarrow> 8 word list" where
  "hook_bytes fnptr jump =
     [0x49, 0xba] @ le_bytes64 fnptr @ [0x41, 0xff, if jump then 0xe2 else 0xd2]"

fun read_bytes :: "(64 word \<Rightarrow> 8 word) \<Rightarrow> 64 word \<Rightarrow> nat \<Rightarrow> 8 word list" where
  "read_bytes f a 0 = []"
| "read_bytes f a (Suc n) = f a # read_bytes f (a + 1) n"

text \<open>
  The spec's words for the end of the range, "rounding the end up to page size": the
  least multiple of 4096 that is not below the address. It is stated here to be compared
  with what the source computes; the source does not use it.
\<close>

definition spec_page_round_up :: "nat \<Rightarrow> nat" where
  "spec_page_round_up n = ((n + 4095) div 4096) * 4096"

subsection \<open>Concrete machines and symbol tables\<close>

text \<open>
  A machine whose code pages hold \<^verbatim>\<open>nop\<close> (0x90) and are mapped read+execute, and a
  symbol table with the entry hook before the exit hook, as the stubs lay them out
  (\<^verbatim>\<open>Lentry_hook: .space 13, 0x90 ... Lexit_hook: .space 13, 0x90\<close>). In
  \<open>aligned_symbols\<close> the Mach exit hook ends exactly at the page boundary 0x3000
  (0x2FF3 + 13 = 0x3000).
\<close>

definition nop_machine :: machine where
  "nop_machine = \<lparr>mem = (\<lambda>a. 0x90), page_prot = (\<lambda>pg. {PROT_READ, PROT_EXEC}),
     mprotect_results = [], mprotect_calls = []\<rparr>"

definition example_symbols :: symbols where
  "example_symbols = \<lparr>darling_mach_syscall_entry = 0x2100, darling_mach_syscall_exit = 0x2200,
     darling_bsd_syscall_entry = 0x5FF8, darling_bsd_syscall_exit = 0x6100,
     darling_mach_syscall_entry_trampoline = 0x7000, darling_mach_syscall_exit_trampoline = 0x7100,
     darling_bsd_syscall_entry_trampoline = 0x7200, darling_bsd_syscall_exit_trampoline = 0x7300,
     xtrace_thread_exit_slot = 0x8000, xtrace_execve_inject_slot = 0x8100,
     xtrace_postfork_child_slot = 0x8FFC, xtrace_thread_exit_hook_fn = 0x9000,
     xtrace_execve_inject_hook_fn = 0x9100, xtrace_postfork_child_hook_fn = 0x9200\<rparr>"

definition aligned_symbols :: symbols where
  "aligned_symbols = example_symbols\<lparr>darling_mach_syscall_exit := 0x2FF3\<rparr>"

section \<open>Nested-call tracker (xtrace: \<^verbatim>\<open>handle_generic_entry\<close>, \<^verbatim>\<open>handle_generic_exit\<close>)\<close>

subsection \<open>Configuration and collaborators\<close>

text \<open>
  The file-level flags (\<^verbatim>\<open>static int xtrace_ignore = 1;\<close> ...), read as truth values, and
  the log-file base path. \<^verbatim>\<open>xtrace_setup\<close> clears \<^verbatim>\<open>xtrace_ignore\<close> as its last step.
\<close>

record config =
  xtrace_ignore :: bool
  xtrace_split_entry_and_exit :: bool
  xtrace_no_color :: bool
  xtrace_kprintf :: bool
  xtrace_use_logfile :: bool
  xtrace_use_per_thread_logfile :: bool
  xtrace_logfile_base :: string

text \<open>
  Modelled from the spec: \<^verbatim>\<open>struct calldef\<close> is declared in a header that is not part of
  the sources. The spec describes it as a table entry keyed by call number that holds an
  optional human-readable name, an argument-printing function and a return-value-printing
  function; the handlers pass each printer the line buffer, and the model takes the text
  the printer appends to it. A null \<^verbatim>\<open>name\<close> or printer is \<open>None\<close>.
\<close>

record calldef =
  name :: "string option"
  print_args :: "(int \<Rightarrow> 64 word list \<Rightarrow> string) option"
  print_retval :: "(int \<Rightarrow> 64 word \<Rightarrow> string) option"

text \<open>
  What the handlers get from the runtime: the kernel thread id (\<^verbatim>\<open>sys_thread_selfid()\<close>)
  and the renderings that \<^verbatim>\<open>append_format\<close> gives for \<^verbatim>\<open>%d\<close> and \<^verbatim>\<open>%lx\<close>
  (\<^verbatim>\<open>xtrace::String\<close> is not part of the sources).
\<close>

record runtime =
  sys_thread_selfid :: int
  format_d :: "int \<Rightarrow> string"
  format_lx :: "64 word \<Rightarrow> string"

subsection \<open>Per-thread state\<close>

text \<open>
  \<^verbatim>\<open>struct nested_call_struct { int current_level; int previous_level; int nrs[64]; };\<close>
  The array is a function on indices; every access checks the index against the capacity
  64 and is a fault outside it. Levels are mathematical integers: a level only changes by
  one next to such an access, so it stays within \<open>-1 .. 64\<close> in every run that starts at
  0 and \<^verbatim>\<open>int\<close> arithmetic never wraps.
\<close>

record nested_call_struct =
  current_level :: int
  previous_level :: int
  nrs :: "nat \<Rightarrow> int"

text \<open>
  The state of one thread: its \<^verbatim>\<open>nested_call\<close> variable, the line buffer the trampolines
  hand to the handlers (\<^verbatim>\<open>xtrace::String* log\<close>), and the lines handed to \<^verbatim>\<open>xtrace_log\<close>
  so far, oldest first.
\<close>

record thread_state =
  nested_call :: nested_call_struct
  log :: string
  emitted :: "string list"

text \<open>
  The thread-local initialiser \<^verbatim>\<open>(struct nested_call_struct) {0}\<close>, with an empty line
  buffer and nothing emitted.
\<close>

definition initial_thread_state :: thread_state where
  "initial_thread_state =
     \<lparr>nested_call = \<lparr>current_level = 0, previous_level = 0, nrs = (\<lambda>i. 0)\<rparr>,
      log = [], emitted = []\<rparr>"

text \<open>
  A handler call either completes, or it indexes \<^verbatim>\<open>nrs\<close> outside \<open>0 .. 63\<close>; the second
  outcome carries the state in which the access happens.
\<close>

datatype step_result = Done thread_state | Undefined fault thread_state

fun state_of :: "step_result \<Rightarrow> thread_state" where
  "state_of (Done s) = s"
| "state_of (Undefined f s) = s"

fun is_Done :: "step_result \<Rightarrow> bool" where
  "is_Done (Done s) = True"
| "is_Done (Undefined f s) = False"

subsection \<open>Formatting\<close>

definition xtrace_set_gray_color :: "config \<Rightarrow> string \<Rightarrow> string" where
  "xtrace_set_gray_color cfg l = (if xtrace_no_color cfg then l else l @ CHR 0x1B # ''[37m'')"

definition xtrace_reset_color :: "config \<Rightarrow> string \<Rightarrow> string" where
  "xtrace_reset_color cfg l = (if xtrace_no_color cfg then l else l @ CHR 0x1B # ''[0m'')"

text \<open>
  \<^verbatim>\<open>xtrace_start_line(log, indent)\<close>: the loop \<^verbatim>\<open>for (i = 0; i < indent + 1; i++)\<close>
  appends \<open>indent + 1\<close> blanks, none when that is not positive.
\<close>

definition xtrace_start_line :: "config \<Rightarrow> runtime \<Rightarrow> string \<Rightarrow> int \<Rightarrow> string" where
  "xtrace_start_line cfg rt l indent =
     xtrace_reset_color cfg
       (xtrace_set_gray_color cfg l @ ''['' @ format_d rt (sys_thread_selfid rt) @ '']''
          @ replicate (nat (indent + 1)) CHR '' '')"

definition print_call ::
  "config \<Rightarrow> runtime \<Rightarrow> string \<Rightarrow> (int \<Rightarrow> calldef) \<Rightarrow> string \<Rightarrow> int \<Rightarrow> int \<Rightarrow> bool \<Rightarrow> string" where
  "print_call cfg rt l defs type nr indent gray_name =
     (let l1 = xtrace_start_line cfg rt l indent;
          l2 = (if gray_name then xtrace_set_gray_color cfg l1 else l1)
      in case name (defs nr) of
           Some n \<Rightarrow> l2 @ n
         | None \<Rightarrow> l2 @ type @ '' '' @ format_d rt nr)"

text \<open>
  \<^verbatim>\<open>xtrace_log("%s\n", log->c_str())\<close>: the call is recorded in the thread's state with
  the text it formats, the line with its newline. \<^verbatim>\<open>xtrace_log\<close> itself only forwards its
  arguments to \<^verbatim>\<open>xtrace_log_v\<close>; what that does with the text, sink by sink, is modelled
  below on the state of the sinks, and \<open>traced_transition\<close> puts the two together.
\<close>

definition xtrace_log :: "string \<Rightarrow> thread_state \<Rightarrow> thread_state" where
  "xtrace_log text s = s\<lparr>emitted := emitted s @ [text @ [CHR 0x0A]]\<rparr>"

subsection \<open>The two handlers\<close>

definition handle_generic_entry ::
  "config \<Rightarrow> runtime \<Rightarrow> (int \<Rightarrow> calldef) \<Rightarrow> string \<Rightarrow> int \<Rightarrow> 64 word list \<Rightarrow>
   thread_state \<Rightarrow> step_result" where
  "handle_generic_entry cfg rt defs type nr args s =
     (if xtrace_ignore cfg then Done s
      else
        let s1 = (if previous_level (nested_call s) < current_level (nested_call s)
                     \<and> \<not> xtrace_split_entry_and_exit cfg
                  then (xtrace_log (log s) s)\<lparr>log := []\<rparr>
                  else s);
            level = current_level (nested_call s1);
            indent = 4 * level
        in if level < 0 \<or> 64 \<le> level then Undefined OutOfBounds s1
           else
             let s2 = s1\<lparr>nested_call := (nested_call s1)
                         \<lparr>nrs := (nrs (nested_call s1))(nat level := nr)\<rparr>\<rparr>;
                 s3 = s2\<lparr>log := print_call cfg rt (log s2) defs type nr indent False\<rparr>;
                 s4 = s3\<lparr>log := log s3 @
                         (case (name (defs nr), print_args (defs nr)) of
                            (Some n, Some pa) \<Rightarrow> ''('' @ pa nr args @ '')''
                          | _ \<Rightarrow> ''(...)'')\<rparr>;
                 s5 = (if xtrace_split_entry_and_exit cfg
                       then (xtrace_log (log s4) s4)\<lparr>log := []\<rparr>
                       else s4)
             in Done (s5\<lparr>nested_call := (nested_call s5)
                         \<lparr>previous_level := current_level (nested_call s5),
                          current_level := current_level (nested_call s5) + 1\<rparr>\<rparr>))"

definition handle_generic_exit ::
  "config \<Rightarrow> runtime \<Rightarrow> (int \<Rightarrow> calldef) \<Rightarrow> string \<Rightarrow> 64 word \<Rightarrow> bool \<Rightarrow>
   thread_state \<Rightarrow> step_result" where
  "handle_generic_exit cfg rt defs type retval force_split s =
     (if xtrace_ignore cfg then Done s
      else
        let force_split1 =
              (if previous_level (nested_call s) > current_level (nested_call s)
               then True else force_split);
            s1 = s\<lparr>nested_call := (nested_call s)
                    \<lparr>previous_level := current_level (nested_call s),
                     current_level := current_level (nested_call s) - 1\<rparr>\<rparr>;
            level = current_level (nested_call s1)
        in if level < 0 \<or> 64 \<le> level then Undefined OutOfBounds s1
           else
             let nr = nrs (nested_call s1) (nat level);
                 s2 = (if xtrace_split_entry_and_exit cfg \<or> force_split1
                       then s1\<lparr>log := print_call cfg rt (log s1) defs type nr (4 * level) True
                                        @ ''()''\<rparr>
                       else s1);
                 s3 = s2\<lparr>log := xtrace_reset_color cfg
                                   (xtrace_set_gray_color cfg (log s2) @ '' -> '')\<rparr>;
                 s4 = s3\<lparr>log := log s3 @
                         (case (name (defs nr), print_retval (defs nr)) of
                            (Some n, Some pr) \<Rightarrow> pr nr retval
                          | _ \<Rightarrow> ''0x'' @ format_lx rt retval)\<rparr>
             in Done ((xtrace_log (log s4) s4)\<lparr>log := []\<rparr>))"

subsection \<open>Sequences of transitions\<close>

text \<open>
  A transition is one call of a handler with its arguments; a run applies the calls in
  order to the thread's state and stops at the first undefined access.
\<close>

datatype event =
    Entry "int \<Rightarrow> calldef" string int "64 word list"
  | Exit "int \<Rightarrow> calldef" string "64 word" bool

fun transition :: "config \<Rightarrow> runtime \<Rightarrow> event \<Rightarrow> thread_state \<Rightarrow> step_result" where
  "transition cfg rt (Entry defs type nr args) s = handle_generic_entry cfg rt defs type nr args s"
| "transition cfg rt (Exit defs type retval force_split) s =
     handle_generic_exit cfg rt defs type retval force_split s"

fun run :: "config \<Rightarrow> runtime \<Rightarrow> event list \<Rightarrow> thread_state \<Rightarrow> step_result" where
  "run cfg rt [] s = Done s"
| "run cfg rt (e # es) s =
     (case transition cfg rt e s of
        Done s' \<Rightarrow> run cfg rt es s'
      | Undefined f s' \<Rightarrow> Undefined f s')"

fun is_Entry :: "event \<Rightarrow> bool" where
  "is_Entry (Entry defs type nr args) = True"
| "is_Entry (Exit defs type retval force_split) = False"

definition entries :: "event list \<Rightarrow> int" where
  "entries es = int (length (filter is_Entry es))"

definition exits :: "event list \<Rightarrow> int" where
  "exits es = int (length (filter (\<lambda>e. \<not> is_Entry e) es))"

subsection \<open>Concrete configuration\<close>

text \<open>
  Tracing enabled, entry and exit merged, colours off; a runtime with thread id 7 whose
  renderings are left empty; a call table that knows call 4 as \<^verbatim>\<open>write\<close> and nothing else.
\<close>

definition tracing_config :: config where
  "tracing_config =
     \<lparr>xtrace_ignore = False, xtrace_split_entry_and_exit = False, xtrace_no_color = True,
      xtrace_kprintf = False, xtrace_use_logfile = False, xtrace_use_per_thread_logfile = False,
      xtrace_logfile_base = []\<rparr>"

definition example_runtime :: runtime where
  "example_runtime = \<lparr>sys_thread_selfid = 7, format_d = (\<lambda>n. ''7''), format_lx = (\<lambda>w. ''0'')\<rparr>"

definition example_defs :: "int \<Rightarrow> calldef" where
  "example_defs nr =
     (if nr = 4
      then \<lparr>name = Some ''write'', print_args = Some (\<lambda>nr args. ''1, buf, 3''),
            print_retval = Some (\<lambda>nr retval. ''3'')\<rparr>
      else \<lparr>name = None, print_args = None, print_retval = None\<rparr>)"

text \<open>Two nested calls: \<^verbatim>\<open>write\<close> is entered, call 5 is entered and left inside it, then \<^verbatim>\<open>write\<close> is left.\<close>

definition nested_calls :: "event list" where
  "nested_calls =
     [Entry example_defs ''bsd'' 4 [], Entry example_defs ''mach'' 5 [],
      Exit example_defs ''mach'' 0 False, Exit example_defs ''bsd'' 3 False]"

subsection \<open>The sinks (\<^verbatim>\<open>xtrace_log_v\<close>, \<^verbatim>\<open>ensure_logfile\<close>)\<close>

















section \<open>Environment block (xtrace: \<^verbatim>\<open>envp_find\<close>, \<^verbatim>\<open>envp_make_entry\<close>, \<^verbatim>\<open>envp_set\<close>, \<^verbatim>\<open>envp_get\<close>, \<^verbatim>\<open>xtrace_execve_inject_hook\<close>)\<close>

subsection \<open>Characters in memory\<close>

text \<open>
  A \<^verbatim>\<open>char\<close> array in memory is a list of cells: \<open>Some c\<close> is an initialised byte,
  \<open>None\<close> a byte of a fresh block that has not been written. A \<^verbatim>\<open>const char*\<close>
  argument that the source only reads with \<^verbatim>\<open>strlen\<close> and \<^verbatim>\<open>memcpy\<close> is a HOL
  \<open>string\<close>: the characters before its terminating NUL.
\<close>

type_synonym cbuf = "char option list"

definition NUL :: char where
  "NUL = CHR 0x00"

text \<open>A string as it lies in memory, with its terminator.\<close>

definition c_string :: "string \<Rightarrow> cbuf" where
  "c_string s = map Some s @ [Some NUL]"

text \<open>
  Reading a C string: the characters up to the first NUL. Running into an unwritten byte
  or off the end of the array is a fault.
\<close>

fun c_str :: "cbuf \<Rightarrow> fault + string" where
  "c_str [] = Inl OutOfBounds"
| "c_str (None # rest) = Inl Uninitialised"
| "c_str (Some c # rest) =
     (if c = NUL then Inr []
      else case c_str rest of Inl f \<Rightarrow> Inl f | Inr s \<Rightarrow> Inr (c # s))"

definition strlen :: "cbuf \<Rightarrow> fault + nat" where
  "strlen b = (case c_str b of Inl f \<Rightarrow> Inl f | Inr s \<Rightarrow> Inr (length s))"

text \<open>
  \<^verbatim>\<open>strchr(s, c)\<close> for a character other than NUL: the offset of the first \<open>c\<close> before
  the terminator, or \<open>None\<close> (a null pointer) when the terminator comes first.
\<close>

fun strchr :: "cbuf \<Rightarrow> char \<Rightarrow> fault + nat option" where
  "strchr [] c = Inl OutOfBounds"
| "strchr (None # rest) c = Inl Uninitialised"
| "strchr (Some x # rest) c =
     (if x = c then Inr (Some 0)
      else if x = NUL then Inr None
      else case strchr rest c of
             Inr (Some i) \<Rightarrow> Inr (Some (Suc i))
           | other \<Rightarrow> other)"

text \<open>
  \<^verbatim>\<open>strncmp(key, entry, n) == 0\<close>: at most \<open>n\<close> characters are compared, and the
  comparison stops at a terminator. The end of the HOL string \<open>key\<close> is its terminator.
\<close>

fun strncmp_eq :: "string \<Rightarrow> cbuf \<Rightarrow> nat \<Rightarrow> fault + bool" where
  "strncmp_eq s b 0 = Inr True"
| "strncmp_eq s [] (Suc n) = Inl OutOfBounds"
| "strncmp_eq s (None # b) (Suc n) = Inl Uninitialised"
| "strncmp_eq [] (Some c # b) (Suc n) = Inr (c = NUL)"
| "strncmp_eq (k # s) (Some c # b) (Suc n) =
     (if k = c then (if k = NUL then Inr True else strncmp_eq s b n) else Inr False)"

subsection \<open>Blocks from \<^verbatim>\<open>xtrace_malloc\<close>\<close>

text \<open>
  A block under construction: its cells, and the writes that were aimed at the block but
  fell outside it (offset and byte, in order). \<^verbatim>\<open>xtrace_malloc(n)\<close> returns \<open>n\<close>
  unwritten bytes (the allocator is not part of the sources).
\<close>

record block =
  cells :: cbuf
  overrun :: "(nat \<times> char option) list"

definition xtrace_malloc :: "nat \<Rightarrow> block" where
  "xtrace_malloc n = \<lparr>cells = replicate n None, overrun = []\<rparr>"

text \<open>The assignment \<^verbatim>\<open>b[i] = c\<close>.\<close>

definition poke :: "nat \<Rightarrow> char option \<Rightarrow> block \<Rightarrow> block" where
  "poke i c b =
     (if i < length (cells b) then b\<lparr>cells := (cells b)[i := c]\<rparr>
      else b\<lparr>overrun := overrun b @ [(i, c)]\<rparr>)"

text \<open>\<^verbatim>\<open>memcpy(&b[off], src, n)\<close> for a source that holds at least \<open>n\<close> bytes.\<close>

fun memcpy_from :: "block \<Rightarrow> nat \<Rightarrow> cbuf \<Rightarrow> block" where
  "memcpy_from b off [] = b"
| "memcpy_from b off (c # cs) = memcpy_from (poke off c b) (Suc off) cs"

definition memcpy :: "block \<Rightarrow> nat \<Rightarrow> cbuf \<Rightarrow> nat \<Rightarrow> block" where
  "memcpy b off src n = memcpy_from b off (take n src)"

subsection \<open>Entries\<close>

text \<open>
  \<^verbatim>\<open>envp_make_entry(key, value)\<close>, statement by statement. The block has
  \<open>key_length + value_length + 2\<close> bytes; the last assignment of the source is
  \<^verbatim>\<open>entry[key_length + value_length + 2] = '\0';\<close>.
\<close>

definition envp_make_entry :: "string \<Rightarrow> string \<Rightarrow> block" where
  "envp_make_entry key v =
     (let key_length = length key;
          value_length = length v;
          entry = xtrace_malloc (key_length + value_length + 2);
          entry = memcpy entry 0 (map Some key) key_length;
          entry = poke key_length (Some CHR ''='') entry;
          entry = memcpy entry (key_length + 1) (map Some v) value_length;
          entry = poke (key_length + value_length + 2) (Some NUL) entry
      in entry)"

subsection \<open>The pointer array\<close>

text \<open>
  \<^verbatim>\<open>const char** envp\<close>: an array of pointers to entries, ended by a null pointer. A slot
  is \<open>Some\<close> entry or \<open>None\<close> (null). At this level an entry is kept by value, as the
  bytes it holds when its pointer is stored: the level describes the arrays, and records
  the bytes written outside a block without saying where they land. That is the subject of
  the section on memory.
\<close>

type_synonym envp_array = "cbuf option list"

text \<open>
  \<^verbatim>\<open>envp_count\<close>: the number of slots before the first null pointer. An array without a
  null pointer is read past its end.
\<close>

fun envp_count :: "envp_array \<Rightarrow> fault + nat" where
  "envp_count [] = Inl OutOfBounds"
| "envp_count (None # rest) = Inr 0"
| "envp_count (Some entry # rest) =
     (case envp_count rest of Inl f \<Rightarrow> Inl f | Inr n \<Rightarrow> Inr (Suc n))"

text \<open>
  \<^verbatim>\<open>envp_find\<close>: the index of the first slot whose entry has the key, or \<open>None\<close> (a null
  pointer). For an entry without \<^verbatim>\<open>'='\<close>, \<^verbatim>\<open>strchr\<close> returns a null pointer and the
  source subtracts the entry's address from it; the model reports that as \<open>NullPointer\<close>.
\<close>

fun envp_find :: "envp_array \<Rightarrow> string \<Rightarrow> fault + nat option" where
  "envp_find [] key = Inl OutOfBounds"
| "envp_find (None # rest) key = Inr None"
| "envp_find (Some entry_key # rest) key =
     (case strchr entry_key CHR ''='' of
        Inl f \<Rightarrow> Inl f
      | Inr None \<Rightarrow> Inl NullPointer
      | Inr (Some entry_key_length) \<Rightarrow>
          (case (if entry_key_length \<noteq> length key then Inr False
                 else strncmp_eq key entry_key (length key)) of
             Inl f \<Rightarrow> Inl f
           | Inr True \<Rightarrow> Inr (Some 0)
           | Inr False \<Rightarrow>
               (case envp_find rest key of
                  Inr (Some i) \<Rightarrow> Inr (Some (Suc i))
                | other \<Rightarrow> other)))"

text \<open>
  \<^verbatim>\<open>envp_get\<close>: a pointer to the value of the first entry with the key, that is the
  entry from the byte after its \<^verbatim>\<open>'='\<close> on.
\<close>

definition envp_get :: "envp_array \<Rightarrow> string \<Rightarrow> fault + cbuf option" where
  "envp_get envp key =
     (case envp_find envp key of
        Inl f \<Rightarrow> Inl f
      | Inr None \<Rightarrow> Inr None
      | Inr (Some i) \<Rightarrow>
          (case envp ! i of
             None \<Rightarrow> Inl NullPointer
           | Some entry \<Rightarrow>
               (case strchr entry CHR ''='' of
                  Inl f \<Rightarrow> Inl f
                | Inr None \<Rightarrow> Inl NullPointer
                | Inr (Some k) \<Rightarrow> Inr (Some (drop (Suc k) entry)))))"

subsection \<open>The block being rewritten\<close>

text \<open>
  The state \<^verbatim>\<open>envp_set\<close> works on: the pointer arrays by address (\<open>None\<close>: no array at
  that address), the address the next array from \<^verbatim>\<open>xtrace_malloc\<close> gets, the caller's
  \<^verbatim>\<open>*envp_ptr\<close> (\<open>None\<close>: null), the caller's \<^verbatim>\<open>*allocated\<close>, and the bytes that
  \<^verbatim>\<open>envp_make_entry\<close> wrote outside its blocks.
\<close>

record exec_state =
  arrays :: "nat \<Rightarrow> envp_array option"
  next_array :: nat
  envp :: "nat option"
  allocated :: bool
  overruns :: "(nat \<times> char option) list"

text \<open>
  \<^verbatim>\<open>envp_set(envp_ptr, key, value, allocated)\<close>. In the growing branch the source
  allocates the new array, copies \<open>count\<close> pointers, frees the old array when it was
  allocated here, and then stores the new entry and the null pointer.
\<close>

definition envp_set :: "string \<Rightarrow> string \<Rightarrow> exec_state \<Rightarrow> fault + exec_state" where
  "envp_set key v st =
     (case envp st of
        None \<Rightarrow>
          (let a = next_array st;
               e = envp_make_entry key v
           in Inr (st\<lparr>arrays := (arrays st)(a \<mapsto> [Some (cells e), None]),
                      next_array := Suc a,
                      envp := Some a,
                      allocated := True,
                      overruns := overruns st @ overrun e\<rparr>))
      | Some a \<Rightarrow>
          (case arrays st a of
             None \<Rightarrow> Inl NullPointer
           | Some arr \<Rightarrow>
               (case envp_find arr key of
                  Inl f \<Rightarrow> Inl f
                | Inr (Some i) \<Rightarrow>
                    (let e = envp_make_entry key v
                     in Inr (st\<lparr>arrays := (arrays st)(a \<mapsto> arr[i := Some (cells e)]),
                                overruns := overruns st @ overrun e\<rparr>))
                | Inr None \<Rightarrow>
                    (case envp_count arr of
                       Inl f \<Rightarrow> Inl f
                     | Inr count \<Rightarrow>
                         (let new_envp = next_array st;
                              copied = take count arr;
                              heap1 = (arrays st)(new_envp \<mapsto> copied);
                              heap2 = (if allocated st then heap1(a := None) else heap1);
                              e = envp_make_entry key v
                          in Inr (st\<lparr>arrays := heap2(new_envp \<mapsto> copied @ [Some (cells e), None]),
                                     next_array := Suc new_envp,
                                     envp := Some new_envp,
                                     allocated := True,
                                     overruns := overruns st @ overrun e\<rparr>))))))"

subsection \<open>The \<^verbatim>\<open>execve\<close> hook\<close>

definition LIBRARY_PATH :: string where
  "LIBRARY_PATH = ''/usr/lib/darling/libxtrace.dylib''"

definition LIBRARY_PATH_LENGTH :: nat where
  "LIBRARY_PATH_LENGTH = length (c_string LIBRARY_PATH) - 1"

definition and_then :: "fault + 'a \<Rightarrow> ('a \<Rightarrow> fault + 'b) \<Rightarrow> fault + 'b" where
  "and_then r f = (case r of Inl e \<Rightarrow> Inl e | Inr x \<Rightarrow> f x)"

text \<open>
  \<^verbatim>\<open>xtrace_execve_inject_hook(envp_ptr)\<close>: \<^verbatim>\<open>allocated\<close> starts as \<^verbatim>\<open>false\<close>, the five
  configuration variables are set, and the library path is appended to the value of
  \<^verbatim>\<open>DYLD_INSERT_LIBRARIES\<close>. The new value is built in a block of its own and handed to
  \<^verbatim>\<open>envp_set\<close> as a C string.
\<close>

definition xtrace_execve_inject_hook :: "config \<Rightarrow> exec_state \<Rightarrow> fault + exec_state" where
  "xtrace_execve_inject_hook cfg st =
     and_then (envp_set ''XTRACE_SPLIT_ENTRY_AND_EXIT''
                 (if xtrace_split_entry_and_exit cfg then ''1'' else ''0'') (st\<lparr>allocated := False\<rparr>))
    (\<lambda>st. and_then (envp_set ''XTRACE_NO_COLOR'' (if xtrace_no_color cfg then ''1'' else ''0'') st)
    (\<lambda>st. and_then (envp_set ''XTRACE_KPRINTF'' (if xtrace_kprintf cfg then ''1'' else ''0'') st)
    (\<lambda>st. and_then (envp_set ''XTRACE_LOG_FILE_PER_THREAD''
                 (if xtrace_use_per_thread_logfile cfg then ''1'' else ''0'') st)
    (\<lambda>st. and_then (envp_set ''XTRACE_LOG_FILE''
                 (if xtrace_use_logfile cfg then xtrace_logfile_base cfg else '''') st)
    (\<lambda>st. and_then (case envp st of
                       None \<Rightarrow> Inl NullPointer
                     | Some a \<Rightarrow> (case arrays st a of
                                    None \<Rightarrow> Inl NullPointer
                                  | Some arr \<Rightarrow> envp_get arr ''DYLD_INSERT_LIBRARIES''))
    (\<lambda>insert_libraries.
           and_then (case insert_libraries of None \<Rightarrow> Inr 0 | Some p \<Rightarrow> strlen p)
    (\<lambda>insert_libraries_length.
       let new_value = xtrace_malloc (insert_libraries_length
                         + (if insert_libraries_length = 0 then 0 else 1)
                         + LIBRARY_PATH_LENGTH + 1);
           offset = 0;
           (new_value, offset) =
             (case insert_libraries of
                Some p \<Rightarrow>
                  if insert_libraries_length > 0
                  then (poke (offset + insert_libraries_length) (Some CHR '':'')
                          (memcpy new_value offset p insert_libraries_length),
                        offset + insert_libraries_length + 1)
                  else (new_value, offset)
              | None \<Rightarrow> (new_value, offset));
           new_value = memcpy new_value offset (map Some LIBRARY_PATH) LIBRARY_PATH_LENGTH;
           offset = offset + LIBRARY_PATH_LENGTH;
           new_value = poke offset (Some NUL) new_value
       in and_then (c_str (cells new_value))
            (\<lambda>v. envp_set ''DYLD_INSERT_LIBRARIES'' v st))))))))"

subsection \<open>What a reader of the block sees\<close>

text \<open>
  The value of a variable as the program that receives the block reads it: the C string
  that starts after the \<^verbatim>\<open>'='\<close> of the first entry with that key.
\<close>

definition envp_value :: "exec_state \<Rightarrow> string \<Rightarrow> fault + string option" where
  "envp_value st key =
     (case envp st of
        None \<Rightarrow> Inr None
      | Some a \<Rightarrow>
          (case arrays st a of
             None \<Rightarrow> Inl NullPointer
           | Some arr \<Rightarrow>
               (case envp_get arr key of
                  Inl f \<Rightarrow> Inl f
                | Inr None \<Rightarrow> Inr None
                | Inr (Some p) \<Rightarrow>
                    (case c_str p of Inl f \<Rightarrow> Inl f | Inr s \<Rightarrow> Inr (Some s)))))"

text \<open>The slots before the null pointer, and whether an entry carries a key.\<close>

definition envp_slots :: "envp_array \<Rightarrow> envp_array" where
  "envp_slots arr = takeWhile (\<lambda>p. p \<noteq> None) arr"

definition entry_has_key :: "string \<Rightarrow> cbuf \<Rightarrow> bool" where
  "entry_has_key key entry =
     (strchr entry CHR ''='' = Inr (Some (length key)) \<and> take (length key) entry = map Some key)"

definition slot_has_key :: "string \<Rightarrow> cbuf option \<Rightarrow> bool" where
  "slot_has_key key p = (case p of None \<Rightarrow> False | Some entry \<Rightarrow> entry_has_key key entry)"

definition key_present :: "string \<Rightarrow> envp_array \<Rightarrow> bool" where
  "key_present key arr = list_ex (slot_has_key key) (envp_slots arr)"

text \<open>
  A well-formed block: the array has its null pointer, and every entry before it contains
  \<^verbatim>\<open>'='\<close> before its terminator.
\<close>

definition slot_has_equals :: "cbuf option \<Rightarrow> bool" where
  "slot_has_equals p =
     (case p of
        None \<Rightarrow> False
      | Some entry \<Rightarrow> (case strchr entry CHR ''='' of Inr (Some k) \<Rightarrow> True | _ \<Rightarrow> False))"

definition well_formed_envp :: "envp_array \<Rightarrow> bool" where
  "well_formed_envp arr = (list_ex (\<lambda>p. p = None) arr \<and> list_all slot_has_equals (envp_slots arr))"

subsection \<open>Concrete blocks\<close>

text \<open>
  A caller's block with one variable, and one that already names a library to insert, each
  at address 0 of an otherwise empty store.
\<close>

definition path_only_array :: envp_array where
  "path_only_array = [Some (c_string ''PATH=/bin''), None]"

definition path_only_block :: exec_state where
  "path_only_block =
     \<lparr>arrays = Map.empty(0 \<mapsto> path_only_array),
      next_array = 1, envp = Some 0, allocated = False, overruns = []\<rparr>"

definition preload_array :: envp_array where
  "preload_array =
     [Some (c_string ''DYLD_INSERT_LIBRARIES=/a.dylib''), Some (c_string ''PATH=/bin''), None]"

definition preload_block :: exec_state where
  "preload_block =
     \<lparr>arrays = Map.empty(0 \<mapsto> preload_array),
      next_array = 1, envp = Some 0, allocated = False, overruns = []\<rparr>"

section \<open>The environment block in memory\<close>

text \<open>
  The definitions above keep every entry by value, so they do not say where the byte lands
  that \<^verbatim>\<open>envp_make_entry\<close> writes past its block. Here the same functions run on
  byte-addressed memory: an address is an index into the list of cells, the pointer arrays
  and the entries lie at addresses, and a write goes to the cell it is aimed at, whatever
  object that cell belongs to. Only a write beyond the end of memory is a fault.
\<close>

subsection \<open>Memory and pointers\<close>

type_synonym memory = cbuf

definition write_at :: "nat \<Rightarrow> cbuf \<Rightarrow> memory \<Rightarrow> fault + memory" where
  "write_at a cs m =
     (if a + length cs \<le> length m then Inr (take a m @ cs @ drop (a + length cs) m)
      else Inl OutOfBounds)"

text \<open>
  A \<^verbatim>\<open>const char*\<close> is eight bytes, least significant first (x86-64); the null pointer
  is the address 0.
\<close>

definition encode_ptr :: "nat \<Rightarrow> char list" where
  "encode_ptr p = map (\<lambda>i. char_of (p div 256 ^ i)) [0, 1, 2, 3, 4, 5, 6, 7]"

definition decode_ptr :: "char list \<Rightarrow> nat" where
  "decode_ptr cs = foldr (\<lambda>c n. of_char c + 256 * n) cs 0"

definition load_ptr :: "memory \<Rightarrow> nat \<Rightarrow> fault + nat" where
  "load_ptr m a =
     (if a + 8 \<le> length m
      then (let cs = take 8 (drop a m)
            in if list_all (\<lambda>c. c \<noteq> None) cs then Inr (decode_ptr (map the cs))
               else Inl Uninitialised)
      else Inl OutOfBounds)"

definition store_ptr :: "nat \<Rightarrow> nat \<Rightarrow> memory \<Rightarrow> fault + memory" where
  "store_ptr a p m = write_at a (map Some (encode_ptr p)) m"

text \<open>
  The array that starts at an address, as the functions on arrays read it: slot after
  slot up to the first null pointer, every slot with the bytes its pointer points to (from
  there to the end of memory, so that a scan which runs past an entry goes on into what
  lies behind it). A slot that cannot be loaded ends the list without a null pointer.
\<close>

fun array_view :: "memory \<Rightarrow> nat \<Rightarrow> nat \<Rightarrow> envp_array" where
  "array_view m a 0 = []"
| "array_view m a (Suc n) =
     (case load_ptr m a of
        Inl f \<Rightarrow> []
      | Inr p \<Rightarrow> if p = 0 then [None] else Some (drop p m) # array_view m (a + 8) n)"

definition array_at :: "memory \<Rightarrow> nat \<Rightarrow> envp_array" where
  "array_at m a = array_view m a (length m)"

subsection \<open>The process\<close>

text \<open>
  The memory; the blocks in use with base address and size (the caller's array and entries,
  and what \<^verbatim>\<open>xtrace_malloc\<close> has handed out); the addresses the coming calls of
  \<^verbatim>\<open>xtrace_malloc\<close> return; and the caller's \<^verbatim>\<open>*envp_ptr\<close> and \<^verbatim>\<open>*allocated\<close>.
  The allocator is not part of the sources: its answers are given from outside, and the
  model does with them what the code does.
\<close>

record process =
  heap_bytes :: memory
  live :: "(nat \<times> nat) list"
  malloc_results :: "nat list"
  envp_pointer :: nat
  allocated_flag :: bool

text \<open>
  \<^verbatim>\<open>xtrace_malloc(n)\<close>: the next answer, as a block of \<open>n\<close> indeterminate bytes. With no
  answer left the allocator returns a null pointer, through which the source goes on to
  write.
\<close>

definition xtrace_malloc_at :: "nat \<Rightarrow> process \<Rightarrow> fault + nat \<times> process" where
  "xtrace_malloc_at n st =
     (case malloc_results st of
        [] \<Rightarrow> Inl NullPointer
      | a # rest \<Rightarrow>
          and_then (write_at a (replicate n None) (heap_bytes st))
            (\<lambda>m. Inr (a, st\<lparr>heap_bytes := m, live := (a, n) # live st, malloc_results := rest\<rparr>)))"

text \<open>\<^verbatim>\<open>xtrace_free(p)\<close>: the block at \<open>p\<close> is given back and its bytes are indeterminate again.\<close>

definition xtrace_free :: "nat \<Rightarrow> process \<Rightarrow> fault + process" where
  "xtrace_free p st =
     (case map_of (live st) p of
        None \<Rightarrow> Inl OutOfBounds
      | Some n \<Rightarrow>
          and_then (write_at p (replicate n None) (heap_bytes st))
            (\<lambda>m. Inr (st\<lparr>heap_bytes := m, live := filter (\<lambda>b. fst b \<noteq> p) (live st)\<rparr>)))"

text \<open>
  \<^verbatim>\<open>envp_make_entry\<close> in memory: the block it fills, put at the address the allocator
  returns. Its bytes go to \<open>entry, ..., entry + n - 1\<close>, and every write recorded as
  falling outside the block goes to \<open>entry\<close> plus its offset.
\<close>

definition place :: "nat \<Rightarrow> block \<Rightarrow> memory \<Rightarrow> fault + memory" where
  "place a b m =
     fold (\<lambda>w r. and_then r (write_at (a + fst w) [snd w])) (overrun b) (write_at a (cells b) m)"

definition envp_make_entry_at :: "string \<Rightarrow> string \<Rightarrow> process \<Rightarrow> fault + nat \<times> process" where
  "envp_make_entry_at key v st =
     and_then (xtrace_malloc_at (length key + length v + 2) st)
       (\<lambda>(entry, st). and_then (place entry (envp_make_entry key v) (heap_bytes st))
          (\<lambda>m. Inr (entry, st\<lparr>heap_bytes := m\<rparr>)))"

text \<open>
  \<^verbatim>\<open>envp_set\<close> in memory, statement by statement; \<^verbatim>\<open>sizeof(const char*)\<close> is 8, and
  \<^verbatim>\<open>envp_find\<close> and \<^verbatim>\<open>envp_count\<close> read the array at \<^verbatim>\<open>envp\<close>.
\<close>

definition envp_set_at :: "string \<Rightarrow> string \<Rightarrow> process \<Rightarrow> fault + process" where
  "envp_set_at key v st =
     (let envp = envp_pointer st in
      if envp = 0 then
        and_then (xtrace_malloc_at (8 * 2) st) (\<lambda>(envp, st).
        and_then (envp_make_entry_at key v (st\<lparr>envp_pointer := envp\<rparr>)) (\<lambda>(entry, st).
        and_then (store_ptr envp entry (heap_bytes st)) (\<lambda>m.
        and_then (store_ptr (envp + 8) 0 m) (\<lambda>m.
        Inr (st\<lparr>heap_bytes := m, allocated_flag := True\<rparr>)))))
      else
        and_then (envp_find (array_at (heap_bytes st) envp) key) (\<lambda>entry_ptr.
          case entry_ptr of
            Some i \<Rightarrow>
              and_then (envp_make_entry_at key v st) (\<lambda>(entry, st).
              and_then (store_ptr (envp + 8 * i) entry (heap_bytes st)) (\<lambda>m.
              Inr (st\<lparr>heap_bytes := m\<rparr>)))
          | None \<Rightarrow>
              and_then (envp_count (array_at (heap_bytes st) envp)) (\<lambda>count.
              and_then (xtrace_malloc_at (8 * (count + 2)) st) (\<lambda>(new_envp, st).
              and_then (write_at new_envp (take (8 * count) (drop envp (heap_bytes st))) (heap_bytes st)) (\<lambda>m.
              and_then (if allocated_flag st then xtrace_free envp (st\<lparr>heap_bytes := m\<rparr>)
                        else Inr (st\<lparr>heap_bytes := m\<rparr>)) (\<lambda>st.
              and_then (envp_make_entry_at key v st) (\<lambda>(entry, st).
              and_then (store_ptr (new_envp + 8 * count) entry (heap_bytes st)) (\<lambda>m.
              and_then (store_ptr (new_envp + 8 * (count + 1)) 0 m) (\<lambda>m.
              Inr (st\<lparr>heap_bytes := m, allocated_flag := True, envp_pointer := new_envp\<rparr>))))))))))"

text \<open>
  The value of a variable as a reader of the block in memory finds it: the C string behind
  the \<^verbatim>\<open>'='\<close> of the first entry with that key.
\<close>

definition envp_value_at :: "process \<Rightarrow> string \<Rightarrow> fault + string option" where
  "envp_value_at st key =
     (if envp_pointer st = 0 then Inr None
      else case envp_get (array_at (heap_bytes st) (envp_pointer st)) key of
             Inl f \<Rightarrow> Inl f
           | Inr None \<Rightarrow> Inr None
           | Inr (Some p) \<Rightarrow> (case c_str p of Inl f \<Rightarrow> Inl f | Inr s \<Rightarrow> Inr (Some s)))"

text \<open>
  No two blocks in use overlap, and all of them lie inside the memory: what an allocator
  guarantees of the blocks it hands out.
\<close>

fun disjoint_blocks :: "nat \<Rightarrow> (nat \<times> nat) list \<Rightarrow> bool" where
  "disjoint_blocks lim [] = True"
| "disjoint_blocks lim (b # bs) =
     (fst b + snd b \<le> lim \<and>
      list_all (\<lambda>c. fst b + snd b \<le> fst c \<or> fst c + snd c \<le> fst b) bs \<and>
      disjoint_blocks lim bs)"

subsection \<open>Concrete processes\<close>

text \<open>
  Eighty bytes of memory with the caller's block \<^verbatim>\<open>{"P=1", NULL}\<close>: the array at address
  8, the entry at address 40. The allocator's next two answers are the free blocks at 48
  and at 36; the second one ends where the entry \<^verbatim>\<open>P=1\<close> begins.
\<close>

definition grow_input :: process where
  "grow_input =
     \<lparr>heap_bytes = replicate 8 None @ map Some (encode_ptr 40) @ map Some (encode_ptr 0) @
        replicate 16 None @ c_string ''P=1'' @ replicate 36 None,
      live = [(8, 16), (40, 4)],
      malloc_results = [48, 36],
      envp_pointer = 8,
      allocated_flag = False\<rparr>"

text \<open>
  The same memory after \<^verbatim>\<open>envp_set\<close> has added \<^verbatim>\<open>K=2\<close>: the new array at 48, the new
  entry at 36, and a NUL at 40, in the first byte of the caller's entry.
\<close>

definition grow_output :: process where
  "grow_output =
     \<lparr>heap_bytes = replicate 8 None @ map Some (encode_ptr 40) @ map Some (encode_ptr 0) @
        replicate 12 None @ [Some CHR ''K'', Some CHR ''='', Some CHR ''2'', None] @
        [Some NUL, Some CHR ''='', Some CHR ''1'', Some NUL] @ replicate 4 None @
        map Some (encode_ptr 40) @ map Some (encode_ptr 36) @ map Some (encode_ptr 0) @
        replicate 8 None,
      live = [(36, 4), (48, 24), (8, 16), (40, 4)],
      malloc_results = [],
      envp_pointer = 48,
      allocated_flag = True\<rparr>"

text \<open>
  Eighty bytes of memory with the caller's block \<^verbatim>\<open>{"K=0", "P=1", NULL}\<close>: the array at
  address 8, the entries at 40 and at 52. The allocator's next answer is the free block at
  48, which ends where the entry \<^verbatim>\<open>P=1\<close> begins.
\<close>

definition overwrite_input :: process where
  "overwrite_input =
     \<lparr>heap_bytes = replicate 8 None @ map Some (encode_ptr 40) @ map Some (encode_ptr 52) @
        map Some (encode_ptr 0) @ replicate 8 None @ c_string ''K=0'' @ replicate 8 None @
        c_string ''P=1'' @ replicate 24 None,
      live = [(8, 24), (40, 4), (52, 4)],
      malloc_results = [48],
      envp_pointer = 8,
      allocated_flag = False\<rparr>"

text \<open>
  The same memory after \<^verbatim>\<open>envp_set\<close> has set \<^verbatim>\<open>K\<close> to \<^verbatim>\<open>2\<close>: slot 0 points to the new
  entry at 48, and a NUL stands at 52, in the first byte of the caller's entry \<^verbatim>\<open>P=1\<close>.
\<close>

definition overwrite_output :: process where
  "overwrite_output =
     \<lparr>heap_bytes = replicate 8 None @ map Some (encode_ptr 48) @ map Some (encode_ptr 52) @
        map Some (encode_ptr 0) @ replicate 8 None @ c_string ''K=0'' @ replicate 4 None @
        [Some CHR ''K'', Some CHR ''='', Some CHR ''2'', None] @
        [Some NUL, Some CHR ''='', Some CHR ''1'', Some NUL] @ replicate 24 None,
      live = [(48, 4), (8, 24), (40, 4), (52, 4)],
      malloc_results = [],
      envp_pointer = 8,
      allocated_flag = False\<rparr>"

text \<open>
  The first memory again, with an allocator that hands out its blocks downwards, each one
  directly below the one before: the new array at 48, then the new entry in the four free
  bytes at 44, which end where the new array begins. Afterwards the lowest byte of slot 0 of
  the new array, the copied pointer to \<^verbatim>\<open>P=1\<close>, is the NUL: the pointer 40 has become 0.
\<close>

definition downward_input :: process where
  "downward_input = grow_input\<lparr>malloc_results := [48, 44]\<rparr>"

definition downward_output :: process where
  "downward_output =
     \<lparr>heap_bytes = replicate 8 None @ map Some (encode_ptr 40) @ map Some (encode_ptr 0) @
        replicate 16 None @ c_string ''P=1'' @
        [Some CHR ''K'', Some CHR ''='', Some CHR ''2'', None] @
        map Some (encode_ptr 0) @ map Some (encode_ptr 44) @ map Some (encode_ptr 0) @
        replicate 8 None,
      live = [(44, 4), (48, 24), (8, 16), (40, 4)],
      malloc_results = [],
      envp_pointer = 48,
      allocated_flag = True\<rparr>"

chapter \<open>Theorems\<close>

section \<open>Error-code translation\<close>

lemma uint_scast_32_64: "uint (scast (err :: 32 word) :: 64 word) = sint err mod 2 ^ 64"
proof -
  have "(scast err :: 64 word) = word_of_int (sint err)" by (rule scast_eq)
  then have "uint (scast err :: 64 word) = take_bit 64 (sint err)"
    by (simp only: uint_word_of_int_eq len_num0 len_bit0 len_num1 len_bit1) simp
  then show ?thesis by (simp only: take_bit_eq_mod)
qed

lemma sint32_range: "- (2 ^ 31) \<le> sint (err :: 32 word) \<and> sint err < 2 ^ 31"
  using sint_ge [of err] sint_lt [of err] by simp

lemma mod_small_iff:
  fixes k :: int
  assumes "- (2 ^ 31) \<le> k" "k < 2 ^ 31"
  shows "(k mod 2 ^ 64 < 139) = (0 \<le> k \<and> k < 139)"
proof (cases "0 \<le> k")
  case True
  then have "k mod 2 ^ 64 = k" using assms by simp
  then show ?thesis using True by simp
next
  case False
  have "(k + 2 ^ 64) mod 2 ^ 64 = k + 2 ^ 64"
    using assms False by (intro mod_pos_pos_trivial) simp_all
  then have "k mod 2 ^ 64 = k + 2 ^ 64" by simp
  then show ?thesis using False assms by simp
qed

text \<open>The unsigned comparison bounds the signed code on both sides.\<close>

lemma errnoDoMap_guard_iff: "errnoDoMap_guard err = (0 \<le> sint err \<and> sint err < 139)"
proof -
  have "((scast err :: 64 word) < 139) = (uint (scast err :: 64 word) < uint (139 :: 64 word))"
    by (rule word_less_alt)
  also have "\<dots> = (sint err mod 2 ^ 64 < 139)"
    by (simp only: uint_scast_32_64) simp
  also have "\<dots> = (0 \<le> sint err \<and> sint err < 139)"
    using sint32_range [of err] by (intro mod_small_iff) simp_all
  finally show ?thesis by (simp add: errnoDoMap_guard_def)
qed

text \<open>
  C1, as stated, fails: a code at or beyond 139 is not passed through. At 139 (and at 200)
  both translations return 0, not the code.
\<close>

theorem C1_out_of_range_counterexample:
  "errnoDarwinToLinux memset_tables 139 = Inr 0 \<and>
   errnoDarwinToLinux memset_tables 139 \<noteq> Inr 139 \<and>
   errnoLinuxToDarwin memset_tables 200 = Inr 0 \<and>
   errnoLinuxToDarwin memset_tables 200 \<noteq> Inr 200"
  by (simp add: errnoDarwinToLinux_def errnoLinuxToDarwin_def errnoDoMap_def
      errnoDoMap_guard_iff memset_tables_def)

text \<open>
  A code inside the guarded range whose table entry is 0 comes back unchanged (the
  source's \<^verbatim>\<open>e = err; // preserve the original value and hope for the best\<close>).
\<close>

lemma errnoDoMap_zero_entry:
  "0 \<le> sint err \<Longrightarrow> sint err < 139 \<Longrightarrow> nat (sint err) < length m \<Longrightarrow>
   m ! nat (sint err) = 0 \<Longrightarrow> errnoDoMap err m = Inr err"
  by (simp add: errnoDoMap_def errnoDoMap_guard_iff)

text \<open>
  C1, amended: for every error code \<open>err \<ge> 139\<close>, whatever the tables hold,
  \<^verbatim>\<open>errnoDarwinToLinux\<close> and \<^verbatim>\<open>errnoLinuxToDarwin\<close> return 0, not \<open>err\<close>: the code
  is rejected, not passed through.
\<close>

theorem C1_out_of_range_returns_zero:
  "139 \<le> sint err \<Longrightarrow>
     errnoDarwinToLinux t err = Inr 0 \<and> errnoLinuxToDarwin t err = Inr 0 \<and>
     errnoDarwinToLinux t err \<noteq> Inr err \<and> errnoLinuxToDarwin t err \<noteq> Inr err"
proof -
  assume big: "139 \<le> sint err"
  then have g: "\<not> errnoDoMap_guard err" by (simp add: errnoDoMap_guard_iff)
  have nz: "err \<noteq> 0" using big by auto
  have d: "errnoDarwinToLinux t err = Inr 0"
    using g by (simp add: errnoDarwinToLinux_def errnoDoMap_def)
  have l: "errnoLinuxToDarwin t err = Inr 0"
    using g by (simp add: errnoLinuxToDarwin_def errnoDoMap_def)
  show ?thesis using d l nz by simp
qed

theorem C1_out_of_range_returns_zero_witness:
  "139 \<le> sint (1000 :: 32 word) \<and>
   errnoDarwinToLinux memset_tables 1000 = Inr 0 \<and>
   errnoLinuxToDarwin memset_tables 1000 = Inr 0 \<and>
   errnoDarwinToLinux memset_tables 1000 \<noteq> Inr 1000 \<and>
   errnoLinuxToDarwin memset_tables 1000 \<noteq> Inr 1000"
  using C1_out_of_range_returns_zero [of 1000 memset_tables] by simp

text \<open>
  C10, as stated, fails: a negative code does not take the mapping branch. For \<open>err = -1\<close>
  the guard is false and the function returns 0 without touching the table.
\<close>

theorem C10_negative_counterexample:
  "\<not> errnoDoMap_guard (- 1) \<and> errnoDoMap (- 1) (replicate 140 0) = Inr 0"
  by (simp add: errnoDoMap_def errnoDoMap_guard_iff)

text \<open>
  C10, amended: the guard compares \<^verbatim>\<open>err\<close> as an unsigned \<^verbatim>\<open>size_t\<close>, so it bounds the
  code on both sides: the mapping branch is taken exactly when \<open>0 \<le> err < 139\<close>. With a
  140-entry table the access \<^verbatim>\<open>map[err]\<close> is then always inside the array, and for every
  negative code the guard fails and 0 is returned.
\<close>

theorem C10_guard_two_sided:
  "length m = 140 \<Longrightarrow>
     errnoDoMap_guard err = (0 \<le> sint err \<and> sint err < 139) \<and>
     errnoDoMap err m \<noteq> Inl OutOfBounds \<and>
     (errnoDoMap_guard err \<longrightarrow> nat (sint err) < length m) \<and>
     (sint err < 0 \<longrightarrow> \<not> errnoDoMap_guard err \<and> errnoDoMap err m = Inr 0)"
  by (auto simp add: errnoDoMap_def errnoDoMap_guard_iff Let_def)

theorem C10_guard_two_sided_witness:
  "length (replicate 140 (0 :: 32 word)) = 140 \<and>
   sint (- 7 :: 32 word) < 0 \<and>
   \<not> errnoDoMap_guard (- 7) \<and>
   errnoDoMap (- 7) (replicate 140 0) = Inr 0 \<and>
   errnoDoMap_guard 138 \<and>
   errnoDoMap 138 (replicate 140 0) \<noteq> Inl OutOfBounds"
  using C10_guard_two_sided [of "replicate 140 0" "- 7"]
    C10_guard_two_sided [of "replicate 140 0" 138]
  by simp

section \<open>Hook installer\<close>

subsection \<open>Page arithmetic\<close>



lemma page_of_push_drop: "page_of a = push_bit 12 (drop_bit 12 a)"
proof -
  have "(4096 - 1 :: 64 word) = mask 12" by (simp add: mask_eq_exp_minus_1)
  then have "page_of a = a AND NOT (mask 12)" by (simp add: page_of_def)
  also have "\<dots> = push_bit 12 (drop_bit 12 a)"
    by (rule bit_eqI) (auto simp add: bit_simps)
  finally show ?thesis .
qed

lemma unat_take_bit_12: "unat (take_bit 12 (a :: 64 word)) = unat a mod 4096"
  by (simp add: take_bit_eq_mod unat_mod)

lemma unat_page_of: "unat (page_of a) = unat a - unat a mod 4096"
proof -
  have "page_of a + take_bit 12 a = a"
    by (simp add: page_of_push_drop bits_ident)
  then have eq: "page_of a = a - take_bit 12 a"
    by (simp add: algebra_simps)
  have le: "take_bit 12 a \<le> a"
    by (simp add: word_le_nat_alt unat_take_bit_12)
  show ?thesis
    unfolding eq using le by (simp add: unat_sub unat_take_bit_12)
qed

lemma store_bytes_not_aborted: "\<not> is_Aborted (store_bytes a vs m)"
  by (induction vs arbitrary: a m) (simp_all add: store_byte_def)

lemma store_bytes_calls: "mprotect_calls (machine_of (store_bytes a vs m)) = mprotect_calls m"
  by (induction vs arbitrary: a m) (simp_all add: store_byte_def)

lemma store_bytes_neq_Aborted: "store_bytes a vs m \<noteq> Aborted msg m'"
  using store_bytes_not_aborted [of a vs m] by (cases "store_bytes a vs m") auto

lemma setup_hook_not_aborted: "\<not> is_Aborted (setup_hook hook fnptr jump m)"
  unfolding setup_hook_def
  by (simp add: store_bytes_neq_Aborted store_bytes_not_aborted split: outcome.splits
      del: store_bytes.simps)

lemma setup_hook_neq_Aborted: "setup_hook hook fnptr jump m \<noteq> Aborted msg m'"
  using setup_hook_not_aborted [of hook fnptr jump m] by (cases "setup_hook hook fnptr jump m") auto

lemma xtrace_setup_mach_not_aborted: "\<not> is_Aborted (xtrace_setup_mach sy m)"
  unfolding xtrace_setup_mach_def Let_def
  by (simp add: setup_hook_neq_Aborted split: outcome.splits)

lemma xtrace_setup_bsd_not_aborted: "\<not> is_Aborted (xtrace_setup_bsd sy m)"
  unfolding xtrace_setup_bsd_def Let_def
  by (simp add: setup_hook_neq_Aborted split: outcome.splits)

lemma setup_hook_with_perms_not_aborted: "\<not> is_Aborted (setup_hook_with_perms hook fnptr jump m)"
  unfolding setup_hook_with_perms_def Let_def
  by (simp add: setup_hook_neq_Aborted split: outcome.splits)

lemma store_bytes_Returned_calls:
  "store_bytes a vs m = Returned m' \<Longrightarrow> mprotect_calls m' = mprotect_calls m"
  using store_bytes_calls [of a vs m] by simp

lemma store_bytes_Faulted_calls:
  "store_bytes a vs m = Faulted m' \<Longrightarrow> mprotect_calls m' = mprotect_calls m"
  using store_bytes_calls [of a vs m] by simp

lemma setup_hook_calls: "mprotect_calls (machine_of (setup_hook hook fnptr jump m)) = mprotect_calls m"
proof (cases "store_bytes hook [0x49, 0xba] m")
  case (Returned m1)
  note r1 = this
  have c1: "mprotect_calls m1 = mprotect_calls m"
    using r1 by (rule store_bytes_Returned_calls)
  show ?thesis
  proof (cases "store_bytes (hook + 10) [0x41, 0xff, if jump then 0xe2 else 0xd2] m1")
    case (Returned m2)
    have "mprotect_calls m2 = mprotect_calls m1"
      using Returned by (rule store_bytes_Returned_calls)
    then show ?thesis
      unfolding setup_hook_def using r1 Returned c1
      by (simp add: store_bytes_calls del: store_bytes.simps)
  next
    case (Aborted msg m2)
    then show ?thesis by (simp add: store_bytes_neq_Aborted del: store_bytes.simps)
  next
    case (Faulted m2)
    have "mprotect_calls m2 = mprotect_calls m1"
      using Faulted by (rule store_bytes_Faulted_calls)
    then show ?thesis
      unfolding setup_hook_def using r1 Faulted c1
      by (simp del: store_bytes.simps)
  qed
next
  case (Aborted msg m1)
  then show ?thesis by (simp add: store_bytes_neq_Aborted del: store_bytes.simps)
next
  case (Faulted m1)
  have "mprotect_calls m1 = mprotect_calls m"
    using Faulted by (rule store_bytes_Faulted_calls)
  then show ?thesis
    unfolding setup_hook_def using Faulted by (simp del: store_bytes.simps)
qed

lemma mprotect_calls_snd:
  "mprotect_calls (snd (mprotect addr len prot m)) = mprotect_calls m @ [(addr, len, prot)]"
  by (simp add: mprotect_def Let_def split: list.splits bool.splits)

lemma setup_hook_Returned_calls:
  "setup_hook hook fnptr jump m = Returned m' \<Longrightarrow> mprotect_calls m' = mprotect_calls m"
  using setup_hook_calls [of hook fnptr jump m] by simp

lemma setup_hook_other_calls:
  "mprotect_calls (machine_of (setup_hook hook fnptr jump m)) = cs \<Longrightarrow> mprotect_calls m = cs"
  by (simp add: setup_hook_calls)

lemma two_hooks_first_call:
  "\<exists>rest. mprotect_calls (machine_of
       (case setup_hook h1 f1 j1 (snd (mprotect area bytes p m)) of
          Returned m2 \<Rightarrow>
            (case setup_hook h2 f2 j2 m2 of
               Returned m3 \<Rightarrow> Returned (snd (mprotect area bytes q m3))
             | other \<Rightarrow> other)
        | other \<Rightarrow> other)) =
     mprotect_calls m @ (area, bytes, p) # rest"
proof -
  let ?m1 = "snd (mprotect area bytes p m)"
  let ?o1 = "setup_hook h1 f1 j1 ?m1"
  have c1: "mprotect_calls ?m1 = mprotect_calls m @ [(area, bytes, p)]"
    by (rule mprotect_calls_snd)
  have c2: "mprotect_calls (machine_of ?o1) = mprotect_calls ?m1"
    by (rule setup_hook_calls)
  show ?thesis
  proof (cases ?o1)
    case (Returned m2)
    note r1 = this
    then have m2: "mprotect_calls m2 = mprotect_calls ?m1" using c2 by simp
    let ?o2 = "setup_hook h2 f2 j2 m2"
    have c3: "mprotect_calls (machine_of ?o2) = mprotect_calls m2"
      by (rule setup_hook_calls)
    show ?thesis
    proof (cases ?o2)
      case (Returned m3)
      then have "mprotect_calls m3 = mprotect_calls m2" using c3 by simp
      then show ?thesis
        using r1 Returned m2 c1 by (simp add: mprotect_calls_snd)
    next
      case (Aborted msg m3)
      then show ?thesis using r1 c3 m2 c1 by simp
    next
      case (Faulted m3)
      then show ?thesis using r1 c3 m2 c1 by simp
    qed
  next
    case (Aborted msg m2)
    then show ?thesis using c2 c1 by simp
  next
    case (Faulted m2)
    then show ?thesis using c2 c1 by simp
  qed
qed

lemma one_hook_first_call:
  "\<exists>rest. mprotect_calls (machine_of
       (case setup_hook h1 f1 j1 (snd (mprotect area bytes p m)) of
          Returned m2 \<Rightarrow> Returned (snd (mprotect area bytes q m2))
        | other \<Rightarrow> other)) =
     mprotect_calls m @ (area, bytes, p) # rest"
proof -
  let ?m1 = "snd (mprotect area bytes p m)"
  let ?o1 = "setup_hook h1 f1 j1 ?m1"
  have c1: "mprotect_calls ?m1 = mprotect_calls m @ [(area, bytes, p)]"
    by (rule mprotect_calls_snd)
  have c2: "mprotect_calls (machine_of ?o1) = mprotect_calls ?m1"
    by (rule setup_hook_calls)
  show ?thesis
  proof (cases ?o1)
    case (Returned m2)
    then have "mprotect_calls m2 = mprotect_calls ?m1" using c2 by simp
    then show ?thesis using Returned c1 by (simp add: mprotect_calls_snd)
  next
    case (Aborted msg m2)
    then show ?thesis using c2 c1 by simp
  next
    case (Faulted m2)
    then show ?thesis using c2 c1 by simp
  qed
qed

lemma xtrace_setup_mach_first_call:
  "\<exists>rest. mprotect_calls (machine_of (xtrace_setup_mach sy m)) =
     mprotect_calls m @
       (darling_mach_syscall_entry sy AND NOT (4096 - 1),
        4096 + (((darling_mach_syscall_exit sy + sizeof_hook) AND NOT (4096 - 1)) -
                (darling_mach_syscall_entry sy AND NOT (4096 - 1))),
        {PROT_READ, PROT_WRITE, PROT_EXEC}) # rest"
  unfolding xtrace_setup_mach_def Let_def by (rule two_hooks_first_call)

lemma xtrace_setup_bsd_first_call:
  "\<exists>rest. mprotect_calls (machine_of (xtrace_setup_bsd sy m)) =
     mprotect_calls m @
       (darling_bsd_syscall_entry sy AND NOT (4096 - 1),
        4096 + (((darling_bsd_syscall_exit sy + sizeof_hook) AND NOT (4096 - 1)) -
                (darling_bsd_syscall_entry sy AND NOT (4096 - 1))),
        {PROT_READ, PROT_WRITE, PROT_EXEC}) # rest"
  unfolding xtrace_setup_bsd_def Let_def by (rule two_hooks_first_call)

lemma setup_hook_with_perms_first_call:
  "\<exists>rest. mprotect_calls (machine_of (setup_hook_with_perms hook fnptr jump m)) =
     mprotect_calls m @
       (hook AND NOT (4096 - 1),
        4096 + (((hook + sizeof_hook) AND NOT (4096 - 1)) - (hook AND NOT (4096 - 1))),
        {PROT_READ, PROT_WRITE, PROT_EXEC}) # rest"
  unfolding setup_hook_with_perms_def Let_def by (rule one_hook_first_call)

lemma floor_page_mono:
  fixes a e :: nat
  assumes "a \<le> e"
  shows "a - a mod 4096 \<le> e - e mod 4096"
proof -
  have "a div 4096 \<le> e div 4096" using assms by (rule div_le_mono)
  then have "4096 * (a div 4096) \<le> 4096 * (e div 4096)" by simp
  moreover have "a - a mod 4096 = 4096 * (a div 4096)" by (simp add: minus_mod_eq_mult_div)
  moreover have "e - e mod 4096 = 4096 * (e div 4096)" by (simp add: minus_mod_eq_mult_div)
  ultimately show ?thesis by simp
qed

lemma hook_area_arith:
  fixes s e :: "64 word"
  assumes se: "s \<le> e" and room: "unat e + 13 + 4096 < 2 ^ 64"
  shows "unat (s AND NOT (4096 - 1)) = unat s - unat s mod 4096"
    and "unat (s AND NOT (4096 - 1)) +
         unat (4096 + (((e + sizeof_hook) AND NOT (4096 - 1)) - (s AND NOT (4096 - 1)))) =
         (unat e + 13) - (unat e + 13) mod 4096 + 4096"
proof -
  let ?area = "s AND NOT (4096 - 1)"
  let ?end = "(e + sizeof_hook) AND NOT (4096 - 1)"
  let ?E = "unat e + 13"
  show a: "unat ?area = unat s - unat s mod 4096"
    using unat_page_of [of s] by (simp add: page_of_def)
  have E: "unat (e + sizeof_hook) = ?E"
    using room by (simp add: sizeof_hook_def unat_word_ariths)
  have f: "unat ?end = ?E - ?E mod 4096"
    using unat_page_of [of "e + sizeof_hook"] E by (simp add: page_of_def)
  have "unat s \<le> ?E" using se by (simp add: word_le_nat_alt)
  then have le_nat: "unat ?area \<le> unat ?end"
    unfolding a f by (rule floor_page_mono)
  then have le: "?area \<le> ?end" by (simp add: word_le_nat_alt)
  have d: "unat (?end - ?area) = unat ?end - unat ?area"
    using le by (rule unat_sub)
  have "unat (4096 + (?end - ?area)) = 4096 + (unat ?end - unat ?area)"
    using room f d by (simp add: unat_word_ariths)
  then show "unat ?area + unat (4096 + (?end - ?area)) = ?E - ?E mod 4096 + 4096"
    using le_nat f by simp
qed


lemma above_floor_page:
  fixes E :: nat
  shows "E < E - E mod 4096 + 4096"
proof -
  define r where "r = E mod 4096"
  have "r < 4096" by (simp add: r_def)
  moreover have "r \<le> E" unfolding r_def by (rule mod_less_eq_dividend)
  ultimately have "E < E - r + 4096" by linarith
  then show ?thesis by (simp only: r_def)
qed

lemma hook_area_covers:
  fixes s e :: "64 word"
  assumes se: "s \<le> e" and room: "unat e + 13 + 4096 < 2 ^ 64"
    and a: "hook_byte s a \<or> hook_byte e a"
  shows "in_range (s AND NOT (4096 - 1))
           (4096 + (((e + sizeof_hook) AND NOT (4096 - 1)) - (s AND NOT (4096 - 1)))) a"
proof -
  let ?area = "s AND NOT (4096 - 1)"
  let ?bytes = "4096 + (((e + sizeof_hook) AND NOT (4096 - 1)) - ?area)"
  have "unat s \<le> unat e" using se by (simp add: word_le_nat_alt)
  then have lo: "unat s \<le> unat a" and hi: "unat a < unat e + 13"
    using a by (auto simp add: hook_byte_def sizeof_hook_def)
  have "unat ?area \<le> unat s"
    by (simp only: hook_area_arith(1) [OF se room] diff_le_self)
  then have 1: "unat ?area \<le> unat a" using lo by (rule le_trans)
  have "unat e + 13 < unat ?area + unat ?bytes"
    by (simp only: hook_area_arith(2) [OF se room] above_floor_page)
  with hi have 2: "unat a < unat ?area + unat ?bytes" by (rule less_trans)
  show ?thesis unfolding in_range_def using 1 2 by (rule conjI)
qed

text \<open>
  The end the source computes, against the end rounded up: they agree unless the end of the
  exit hook is itself a page boundary, where the source's end lies one page further.
\<close>

lemma floor_plus_page:
  "E - E mod 4096 + 4096 =
     (if E mod 4096 = 0 then spec_page_round_up E + 4096 else spec_page_round_up E)"
proof -
  define q where "q = E div 4096"
  define r where "r = E mod 4096"
  have E: "E = 4096 * q + r" by (simp add: q_def r_def)
  have r: "r < 4096" by (simp add: r_def)
  have fl: "E - r = 4096 * q" using E by simp
  show ?thesis
  proof (cases "r = 0")
    case True
    then have "(E + 4095) div 4096 = q" using E by simp
    then have "spec_page_round_up E = 4096 * q" by (simp add: spec_page_round_up_def)
    then show ?thesis using True fl by (simp add: r_def [symmetric])
  next
    case False
    then obtain r' where r': "r = Suc r'" by (cases r) simp_all
    have "E + 4095 = 4096 * (q + 1) + r'" using E r' by simp
    moreover have "r' < 4096" using r r' by simp
    ultimately have "(E + 4095) div 4096 = q + 1" by simp
    then have "spec_page_round_up E = 4096 * q + 4096" by (simp add: spec_page_round_up_def)
    then show ?thesis using False fl by (simp add: r_def [symmetric])
  qed
qed

lemma range_facts:
  fixes s e :: "64 word"
  assumes se: "s \<le> e" and room: "unat e + 13 + 4096 < 2 ^ 64"
    and calls: "cs = pre @ (s AND NOT (4096 - 1),
        4096 + (((e + sizeof_hook) AND NOT (4096 - 1)) - (s AND NOT (4096 - 1))), p) # rest"
  shows "\<exists>area bytes rest.
         cs = pre @ (area, bytes, p) # rest \<and>
         unat area = unat s - unat s mod 4096 \<and>
         unat area + unat bytes = (unat e + 13) - (unat e + 13) mod 4096 + 4096 \<and>
         unat area + unat bytes =
           (if (unat e + 13) mod 4096 = 0 then spec_page_round_up (unat e + 13) + 4096
            else spec_page_round_up (unat e + 13)) \<and>
         (\<forall>a. hook_byte s a \<or> hook_byte e a \<longrightarrow> in_range area bytes a)"
proof (intro exI conjI allI impI)
  show "cs = pre @ (s AND NOT (4096 - 1),
        4096 + (((e + sizeof_hook) AND NOT (4096 - 1)) - (s AND NOT (4096 - 1))), p) # rest"
    by (rule calls)
  show "unat (s AND NOT (4096 - 1)) = unat s - unat s mod 4096"
    by (rule hook_area_arith(1) [OF se room])
  show "unat (s AND NOT (4096 - 1)) +
      unat (4096 + (((e + sizeof_hook) AND NOT (4096 - 1)) - (s AND NOT (4096 - 1)))) =
      (unat e + 13) - (unat e + 13) mod 4096 + 4096"
    by (rule hook_area_arith(2) [OF se room])
  show "unat (s AND NOT (4096 - 1)) +
      unat (4096 + (((e + sizeof_hook) AND NOT (4096 - 1)) - (s AND NOT (4096 - 1)))) =
      (if (unat e + 13) mod 4096 = 0 then spec_page_round_up (unat e + 13) + 4096
       else spec_page_round_up (unat e + 13))"
    by (simp only: hook_area_arith(2) [OF se room] floor_plus_page)
  fix a assume "hook_byte s a \<or> hook_byte e a"
  then show "in_range (s AND NOT (4096 - 1))
      (4096 + (((e + sizeof_hook) AND NOT (4096 - 1)) - (s AND NOT (4096 - 1)))) a"
    by (rule hook_area_covers [OF se room])
qed

lemma store_bytes_writable:
  "\<forall>i<length vs. PROT_WRITE \<in> page_prot m (page_of (a + of_nat i)) \<Longrightarrow>
   \<exists>m'. store_bytes a vs m = Returned m' \<and> page_prot m' = page_prot m \<and>
        mprotect_results m' = mprotect_results m"
proof (induction vs arbitrary: a m)
  case Nil
  then show ?case by simp
next
  case (Cons v vs)
  have w0: "PROT_WRITE \<in> page_prot m (page_of a)"
    using Cons.prems by auto
  let ?m1 = "m\<lparr>mem := (mem m)(a := v)\<rparr>"
  have "\<forall>i<length vs. PROT_WRITE \<in> page_prot ?m1 (page_of (a + 1 + of_nat i))"
  proof (intro allI impI)
    fix i assume "i < length vs"
    then have "Suc i < length (v # vs)" by simp
    then have "PROT_WRITE \<in> page_prot m (page_of (a + of_nat (Suc i)))"
      using Cons.prems by blast
    then show "PROT_WRITE \<in> page_prot ?m1 (page_of (a + 1 + of_nat i))"
      by (simp add: add.assoc)
  qed
  then have "\<exists>m'. store_bytes (a + 1) vs ?m1 = Returned m' \<and> page_prot m' = page_prot ?m1 \<and>
        mprotect_results m' = mprotect_results ?m1"
    by (rule Cons.IH)
  then show ?case using w0 by (simp add: store_byte_def)
qed

lemma hook_byte_offset:
  assumes "unat hook + 13 \<le> 2 ^ 64" "k < 13"
  shows "hook_byte hook (hook + of_nat k)"
proof -
  have "unat (of_nat k :: 64 word) = k"
    using assms(2) by (simp add: unat_of_nat)
  then have "unat (hook + of_nat k) = unat hook + k"
    using assms by (simp add: unat_word_ariths)
  then show ?thesis using assms(2) by (simp add: hook_byte_def sizeof_hook_def)
qed

lemma setup_hook_writable:
  assumes w: "\<And>a. hook_byte hook a \<Longrightarrow> PROT_WRITE \<in> page_prot m (page_of a)"
    and room: "unat hook + 13 \<le> 2 ^ 64"
  shows "\<exists>m'. setup_hook hook fnptr jump m = Returned m' \<and> page_prot m' = page_prot m \<and>
        mprotect_results m' = mprotect_results m"
proof -
  have off: "\<And>k. k < 13 \<Longrightarrow> PROT_WRITE \<in> page_prot m (page_of (hook + of_nat k))"
    using w hook_byte_offset [OF room] by blast
  have "\<forall>i<length [0x49, 0xba :: 8 word].
      PROT_WRITE \<in> page_prot m (page_of (hook + of_nat i))"
    using off by simp
  then have "\<exists>m'. store_bytes hook [0x49, 0xba] m = Returned m' \<and> page_prot m' = page_prot m \<and>
        mprotect_results m' = mprotect_results m"
    by (rule store_bytes_writable)
  then obtain m1 where m1: "store_bytes hook [0x49, 0xba] m = Returned m1"
    "page_prot m1 = page_prot m" "mprotect_results m1 = mprotect_results m"
    by (elim exE conjE)
  let ?tail = "[0x41, 0xff, if jump then 0xe2 else 0xd2 :: 8 word]"
  have "\<forall>i<length ?tail. PROT_WRITE \<in> page_prot m1 (page_of (hook + 10 + of_nat i))"
  proof (intro allI impI)
    fix i assume "i < length ?tail"
    then have "10 + i < 13" by simp
    then have "PROT_WRITE \<in> page_prot m (page_of (hook + of_nat (10 + i)))" by (rule off)
    then show "PROT_WRITE \<in> page_prot m1 (page_of (hook + 10 + of_nat i))"
      by (simp add: m1(2) add.assoc)
  qed
  then have "\<exists>m'. store_bytes (hook + 10) ?tail m1 = Returned m' \<and> page_prot m' = page_prot m1 \<and>
        mprotect_results m' = mprotect_results m1"
    by (rule store_bytes_writable)
  then obtain m2 where m2: "store_bytes (hook + 10) ?tail m1 = Returned m2"
    "page_prot m2 = page_prot m1" "mprotect_results m2 = mprotect_results m1"
    by (elim exE conjE)
  have "\<forall>i<length (le_bytes64 fnptr).
      PROT_WRITE \<in> page_prot m2 (page_of (hook + 2 + of_nat i))"
  proof (intro allI impI)
    fix i assume "i < length (le_bytes64 fnptr)"
    then have "2 + i < 13" by (simp add: le_bytes64_def)
    then have "PROT_WRITE \<in> page_prot m (page_of (hook + of_nat (2 + i)))" by (rule off)
    then show "PROT_WRITE \<in> page_prot m2 (page_of (hook + 2 + of_nat i))"
      by (simp add: m1(2) m2(2) add.assoc)
  qed
  then have "\<exists>m'. store_bytes (hook + 2) (le_bytes64 fnptr) m2 = Returned m' \<and>
        page_prot m' = page_prot m2 \<and> mprotect_results m' = mprotect_results m2"
    by (rule store_bytes_writable)
  then obtain m3 where m3: "store_bytes (hook + 2) (le_bytes64 fnptr) m2 = Returned m3"
    "page_prot m3 = page_prot m2" "mprotect_results m3 = mprotect_results m2"
    by (elim exE conjE)
  show ?thesis
    unfolding setup_hook_def using m1 m2 m3 by (simp del: store_bytes.simps)
qed

lemma page_in_range:
  assumes al: "unat area mod 4096 = 0" and r: "in_range area bytes a"
  shows "in_range area bytes (page_of a)"
proof -
  have "unat area \<le> unat a" and hi: "unat a < unat area + unat bytes"
    using r by (simp_all add: in_range_def)
  then have "unat area - unat area mod 4096 \<le> unat a - unat a mod 4096"
    by (intro floor_page_mono)
  then have lo: "unat area \<le> unat (page_of a)"
    using al by (simp add: unat_page_of)
  have "unat (page_of a) \<le> unat a" by (simp add: unat_page_of)
  then have "unat (page_of a) < unat area + unat bytes" using hi by (rule le_less_trans)
  then show ?thesis using lo by (simp add: in_range_def)
qed

lemma floor_page_aligned: "(n - n mod 4096) mod 4096 = (0 :: nat)"
  by (simp add: minus_mod_eq_mult_div)

lemma mprotect_success:
  "mprotect_results m = True # rest \<Longrightarrow>
   page_prot (snd (mprotect addr len p m)) = (\<lambda>pg. if in_range addr len pg then p else page_prot m pg) \<and>
   mprotect_results (snd (mprotect addr len p m)) = rest"
  by (simp add: mprotect_def Let_def)

lemma mprotect_failure:
  "mprotect_results m = False # rest \<Longrightarrow>
   page_prot (snd (mprotect addr len p m)) = page_prot m \<and>
   mprotect_results (snd (mprotect addr len p m)) = rest \<and>
   fst (mprotect addr len p m) = - 1"
  by (simp add: mprotect_def Let_def)

subsection \<open>What the patch leaves in memory\<close>

lemma mprotect_mem: "mem (snd (mprotect addr len p m)) = mem m"
  by (simp add: mprotect_def Let_def split: list.splits bool.splits)

lemma store_bytes_Returned_mem:
  "store_bytes (a + of_nat n) vs m = Returned m' \<Longrightarrow>
   mem m' = fold (\<lambda>p f. f(a + of_nat (fst p) := snd p)) (enumerate n vs) (mem m)"
proof (induction vs arbitrary: n m)
  case Nil
  then show ?case by simp
next
  case (Cons v vs)
  from Cons.prems have w: "PROT_WRITE \<in> page_prot m (page_of (a + of_nat n))"
    by (simp add: store_byte_def split: if_splits)
  let ?m1 = "m\<lparr>mem := (mem m)(a + of_nat n := v)\<rparr>"
  from Cons.prems w have "store_bytes (a + of_nat n + 1) vs ?m1 = Returned m'"
    by (simp add: store_byte_def)
  then have "store_bytes (a + of_nat (Suc n)) vs ?m1 = Returned m'"
    by (simp add: ac_simps)
  then have "mem m' = fold (\<lambda>p f. f(a + of_nat (fst p) := snd p)) (enumerate (Suc n) vs) (mem ?m1)"
    by (rule Cons.IH)
  moreover have "mem ?m1 = (mem m)(a + of_nat n := v)" by simp
  ultimately show ?case
    by (simp only: enumerate_simps fold.simps comp_apply fst_conv snd_conv)
qed

lemma store_head_mem:
  assumes s1: "store_bytes hook [0x49, 0xba] m = Returned m1"
  shows "mem m1 = (mem m)(hook := 0x49, hook + 1 := 0xba)"
proof -
  have "store_bytes (hook + of_nat 0) [0x49, 0xba] m = Returned m1" using s1 by simp
  from store_bytes_Returned_mem [OF this] show ?thesis
    by (simp only: enumerate_simps fold.simps comp_apply fst_conv snd_conv)
      (simp del: fun_upd_apply)
qed

lemma store_call_mem:
  assumes s2: "store_bytes (hook + 10) [0x41, 0xff, c] m1 = Returned m2"
  shows "mem m2 = (mem m1)(hook + 10 := 0x41, hook + 11 := 0xff, hook + 12 := c)"
proof -
  have "store_bytes (hook + of_nat 10) [0x41, 0xff, c] m1 = Returned m2" using s2 by simp
  from store_bytes_Returned_mem [OF this] show ?thesis
    by (simp only: enumerate_simps fold.simps comp_apply fst_conv snd_conv)
      (simp del: fun_upd_apply)
qed

lemma store_addr_mem:
  assumes s3: "store_bytes (hook + 2) [b0, b1, b2, b3, b4, b5, b6, b7] m2 = Returned m3"
  shows "mem m3 = (mem m2)(hook + 2 := b0, hook + 3 := b1, hook + 4 := b2, hook + 5 := b3,
     hook + 6 := b4, hook + 7 := b5, hook + 8 := b6, hook + 9 := b7)"
proof -
  have "store_bytes (hook + of_nat 2) [b0, b1, b2, b3, b4, b5, b6, b7] m2 = Returned m3"
    using s3 by simp
  from store_bytes_Returned_mem [OF this] show ?thesis
    by (simp only: enumerate_simps fold.simps comp_apply fst_conv snd_conv)
      (simp del: fun_upd_apply)
qed

lemma read_bytes_13:
  "read_bytes f a 13 = [f a, f (a + 1), f (a + 2), f (a + 3), f (a + 4), f (a + 5), f (a + 6),
     f (a + 7), f (a + 8), f (a + 9), f (a + 10), f (a + 11), f (a + 12)]"
  by (simp add: eval_nat_numeral add.assoc)

lemma setup_hook_stores:
  assumes "setup_hook hook fnptr jump m = Returned m'"
  shows "\<exists>m1 m2. store_bytes hook [0x49, 0xba] m = Returned m1 \<and>
     store_bytes (hook + 10) [0x41, 0xff, if jump then 0xe2 else 0xd2] m1 = Returned m2 \<and>
     store_bytes (hook + 2) (le_bytes64 fnptr) m2 = Returned m'"
proof (cases "store_bytes hook [0x49, 0xba] m")
  case (Returned m1)
  note r1 = this
  show ?thesis
  proof (cases "store_bytes (hook + 10) [0x41, 0xff, if jump then 0xe2 else 0xd2] m1")
    case (Returned m2)
    then show ?thesis using assms r1 unfolding setup_hook_def by (simp del: store_bytes.simps)
  next
    case (Aborted msg m2)
    then show ?thesis using assms r1 unfolding setup_hook_def by (simp del: store_bytes.simps)
  next
    case (Faulted m2)
    then show ?thesis using assms r1 unfolding setup_hook_def by (simp del: store_bytes.simps)
  qed
next
  case (Aborted msg m1)
  then show ?thesis using assms unfolding setup_hook_def by (simp del: store_bytes.simps)
next
  case (Faulted m1)
  then show ?thesis using assms unfolding setup_hook_def by (simp del: store_bytes.simps)
qed

lemma setup_hook_mem:
  assumes "setup_hook hook fnptr jump m = Returned m'"
  shows "read_bytes (mem m') hook 13 = hook_bytes fnptr jump"
proof -
  from setup_hook_stores [OF assms] obtain m1 m2 where
    s1: "store_bytes hook [0x49, 0xba] m = Returned m1"
    and s2: "store_bytes (hook + 10) [0x41, 0xff, if jump then 0xe2 else 0xd2] m1 = Returned m2"
    and s3: "store_bytes (hook + 2) (le_bytes64 fnptr) m2 = Returned m'"
    by (elim exE conjE)
  note m1 = store_head_mem [OF s1]
  note m2 = store_call_mem [OF s2]
  note m3 = store_addr_mem [OF s3 [unfolded le_bytes64_def]]
  show ?thesis
    unfolding read_bytes_13 m3 m2 m1
    by (simp add: hook_bytes_def le_bytes64_def)
qed

lemma setup_hook_frame:
  assumes r: "setup_hook hook fnptr jump m = Returned m'"
    and room: "unat hook + 13 \<le> 2 ^ 64"
    and x: "\<not> hook_byte hook x"
  shows "mem m' x = mem m x"
proof -
  from setup_hook_stores [OF r] obtain m1 m2 where
    s1: "store_bytes hook [0x49, 0xba] m = Returned m1"
    and s2: "store_bytes (hook + 10) [0x41, 0xff, if jump then 0xe2 else 0xd2] m1 = Returned m2"
    and s3: "store_bytes (hook + 2) (le_bytes64 fnptr) m2 = Returned m'"
    by (elim exE conjE)
  note m1 = store_head_mem [OF s1]
  note m2 = store_call_mem [OF s2]
  note m3 = store_addr_mem [OF s3 [unfolded le_bytes64_def]]
  have ne: "\<And>k. k < 13 \<Longrightarrow> x \<noteq> hook + of_nat k"
    using hook_byte_offset [OF room] x by blast
  have "x \<noteq> hook" "x \<noteq> hook + 1" "x \<noteq> hook + 2" "x \<noteq> hook + 3" "x \<noteq> hook + 4"
    "x \<noteq> hook + 5" "x \<noteq> hook + 6" "x \<noteq> hook + 7" "x \<noteq> hook + 8" "x \<noteq> hook + 9"
    "x \<noteq> hook + 10" "x \<noteq> hook + 11" "x \<noteq> hook + 12"
    using ne [of 0] ne [of 1] ne [of 2] ne [of 3] ne [of 4] ne [of 5] ne [of 6] ne [of 7]
      ne [of 8] ne [of 9] ne [of 10] ne [of 11] ne [of 12]
    by simp_all
  then show ?thesis unfolding m3 m2 m1 by simp
qed

lemma setup_hook_frame_region:
  assumes r: "setup_hook e fnptr jump m = Returned m'"
    and sep: "unat s + 13 \<le> unat e" and room: "unat e + 13 \<le> 2 ^ 64"
  shows "read_bytes (mem m') s 13 = read_bytes (mem m) s 13"
proof -
  have rs: "unat s + 13 \<le> 2 ^ 64" using sep room by simp
  have eq: "\<And>k. k < 13 \<Longrightarrow> mem m' (s + of_nat k) = mem m (s + of_nat k)"
  proof -
    fix k :: nat assume k: "k < 13"
    have "hook_byte s (s + of_nat k)" using rs k by (rule hook_byte_offset)
    then have "unat (s + of_nat k) < unat s + 13" by (simp add: hook_byte_def sizeof_hook_def)
    then have "\<not> hook_byte e (s + of_nat k)" using sep by (simp add: hook_byte_def)
    with r room show "mem m' (s + of_nat k) = mem m (s + of_nat k)" by (rule setup_hook_frame)
  qed
  show ?thesis
    unfolding read_bytes_13
    using eq [of 0] eq [of 1] eq [of 2] eq [of 3] eq [of 4] eq [of 5] eq [of 6] eq [of 7]
      eq [of 8] eq [of 9] eq [of 10] eq [of 11] eq [of 12]
    by simp
qed

lemma two_hooks_restore_fails:
  fixes s e :: "64 word"
  assumes sep: "unat s + 13 \<le> unat e" and room: "unat e + 13 + 4096 < 2 ^ 64"
    and res: "mprotect_results m = True # False # rest"
  shows "\<exists>m'. (case setup_hook s f1 j1 (snd (mprotect (s AND NOT (4096 - 1))
                 (4096 + (((e + sizeof_hook) AND NOT (4096 - 1)) - (s AND NOT (4096 - 1))))
                 {PROT_READ, PROT_WRITE, PROT_EXEC} m)) of
          Returned m2 \<Rightarrow>
            (case setup_hook e f2 j2 m2 of
               Returned m3 \<Rightarrow> Returned (snd (mprotect (s AND NOT (4096 - 1))
                 (4096 + (((e + sizeof_hook) AND NOT (4096 - 1)) - (s AND NOT (4096 - 1))))
                 {PROT_READ, PROT_EXEC} m3))
             | other \<Rightarrow> other)
        | other \<Rightarrow> other) = Returned m' \<and>
      read_bytes (mem m') s 13 = hook_bytes f1 j1 \<and>
      read_bytes (mem m') e 13 = hook_bytes f2 j2 \<and>
      (\<forall>a. hook_byte s a \<or> hook_byte e a \<longrightarrow> PROT_WRITE \<in> page_prot m' (page_of a))"
proof -
  let ?area = "s AND NOT (4096 - 1)"
  let ?bytes = "4096 + (((e + sizeof_hook) AND NOT (4096 - 1)) - ?area)"
  let ?rwx = "{PROT_READ, PROT_WRITE, PROT_EXEC}"
  let ?m1 = "snd (mprotect ?area ?bytes ?rwx m)"
  have "unat s \<le> unat e" using sep by simp
  then have se: "s \<le> e" by (simp add: word_le_nat_alt)
  have p1: "page_prot ?m1 = (\<lambda>pg. if in_range ?area ?bytes pg then ?rwx else page_prot m pg)"
    and r1: "mprotect_results ?m1 = False # rest"
    using mprotect_success [OF res] by simp_all
  have al: "unat ?area mod 4096 = 0"
    by (simp only: hook_area_arith(1) [OF se room] floor_page_aligned)
  have w1: "\<And>a. hook_byte s a \<or> hook_byte e a \<Longrightarrow> PROT_WRITE \<in> page_prot ?m1 (page_of a)"
  proof -
    fix a assume "hook_byte s a \<or> hook_byte e a"
    then have "in_range ?area ?bytes a" by (rule hook_area_covers [OF se room])
    then have "in_range ?area ?bytes (page_of a)" by (rule page_in_range [OF al])
    then show "PROT_WRITE \<in> page_prot ?m1 (page_of a)" unfolding p1 by simp
  qed
  have rs: "unat s + 13 \<le> 2 ^ 64" and re: "unat e + 13 \<le> 2 ^ 64"
    using sep room by simp_all
  have "\<exists>m'. setup_hook s f1 j1 ?m1 = Returned m' \<and> page_prot m' = page_prot ?m1 \<and>
        mprotect_results m' = mprotect_results ?m1"
    using w1 by (intro setup_hook_writable [OF _ rs]) simp
  then obtain m2 where m2: "setup_hook s f1 j1 ?m1 = Returned m2" "page_prot m2 = page_prot ?m1"
    "mprotect_results m2 = mprotect_results ?m1"
    by (elim exE conjE)
  have "\<exists>m'. setup_hook e f2 j2 m2 = Returned m' \<and> page_prot m' = page_prot m2 \<and>
        mprotect_results m' = mprotect_results m2"
    using w1 m2(2) by (intro setup_hook_writable [OF _ re]) simp
  then obtain m3 where m3: "setup_hook e f2 j2 m2 = Returned m3" "page_prot m3 = page_prot m2"
    "mprotect_results m3 = mprotect_results m2"
    by (elim exE conjE)
  let ?m4 = "snd (mprotect ?area ?bytes {PROT_READ, PROT_EXEC} m3)"
  have r3: "mprotect_results m3 = False # rest" using m3(3) m2(3) r1 by simp
  have p4: "page_prot ?m4 = page_prot ?m1"
    using mprotect_failure [OF r3] m3(2) m2(2) by simp
  have b2: "read_bytes (mem m2) s 13 = hook_bytes f1 j1" using m2(1) by (rule setup_hook_mem)
  have "read_bytes (mem m3) s 13 = read_bytes (mem m2) s 13"
    using m3(1) sep re by (rule setup_hook_frame_region)
  then have bs: "read_bytes (mem ?m4) s 13 = hook_bytes f1 j1"
    using b2 by (simp add: mprotect_mem)
  have "read_bytes (mem m3) e 13 = hook_bytes f2 j2" using m3(1) by (rule setup_hook_mem)
  then have be: "read_bytes (mem ?m4) e 13 = hook_bytes f2 j2" by (simp add: mprotect_mem)
  show ?thesis using m2(1) m3(1) w1 p4 bs be by simp
qed

lemma one_hook_restore_fails:
  fixes s :: "64 word"
  assumes room: "unat s + 13 + 4096 < 2 ^ 64"
    and res: "mprotect_results m = True # False # rest"
  shows "\<exists>m'. (case setup_hook s f1 j1 (snd (mprotect (s AND NOT (4096 - 1))
                 (4096 + (((s + sizeof_hook) AND NOT (4096 - 1)) - (s AND NOT (4096 - 1))))
                 {PROT_READ, PROT_WRITE, PROT_EXEC} m)) of
          Returned m2 \<Rightarrow> Returned (snd (mprotect (s AND NOT (4096 - 1))
                 (4096 + (((s + sizeof_hook) AND NOT (4096 - 1)) - (s AND NOT (4096 - 1))))
                 {PROT_READ, PROT_EXEC} m2))
        | other \<Rightarrow> other) = Returned m' \<and>
      read_bytes (mem m') s 13 = hook_bytes f1 j1 \<and>
      (\<forall>a. hook_byte s a \<longrightarrow> PROT_WRITE \<in> page_prot m' (page_of a))"
proof -
  let ?area = "s AND NOT (4096 - 1)"
  let ?bytes = "4096 + (((s + sizeof_hook) AND NOT (4096 - 1)) - ?area)"
  let ?rwx = "{PROT_READ, PROT_WRITE, PROT_EXEC}"
  let ?m1 = "snd (mprotect ?area ?bytes ?rwx m)"
  have ss: "s \<le> s" by simp
  have p1: "page_prot ?m1 = (\<lambda>pg. if in_range ?area ?bytes pg then ?rwx else page_prot m pg)"
    and r1: "mprotect_results ?m1 = False # rest"
    using mprotect_success [OF res] by simp_all
  have al: "unat ?area mod 4096 = 0"
    by (simp only: hook_area_arith(1) [OF ss room] floor_page_aligned)
  have w1: "\<And>a. hook_byte s a \<Longrightarrow> PROT_WRITE \<in> page_prot ?m1 (page_of a)"
  proof -
    fix a assume "hook_byte s a"
    then have "hook_byte s a \<or> hook_byte s a" by simp
    then have "in_range ?area ?bytes a" by (rule hook_area_covers [OF ss room])
    then have "in_range ?area ?bytes (page_of a)" by (rule page_in_range [OF al])
    then show "PROT_WRITE \<in> page_prot ?m1 (page_of a)" unfolding p1 by simp
  qed
  have rs: "unat s + 13 \<le> 2 ^ 64" using room by simp
  have "\<exists>m'. setup_hook s f1 j1 ?m1 = Returned m' \<and> page_prot m' = page_prot ?m1 \<and>
        mprotect_results m' = mprotect_results ?m1"
    using w1 by (intro setup_hook_writable [OF _ rs]) simp
  then obtain m2 where m2: "setup_hook s f1 j1 ?m1 = Returned m2" "page_prot m2 = page_prot ?m1"
    "mprotect_results m2 = mprotect_results ?m1"
    by (elim exE conjE)
  let ?m3 = "snd (mprotect ?area ?bytes {PROT_READ, PROT_EXEC} m2)"
  have r2: "mprotect_results m2 = False # rest" using m2(3) r1 by simp
  have p3: "page_prot ?m3 = page_prot ?m1"
    using mprotect_failure [OF r2] m2(2) by simp
  have "read_bytes (mem m2) s 13 = hook_bytes f1 j1" using m2(1) by (rule setup_hook_mem)
  then have bs: "read_bytes (mem ?m3) s 13 = hook_bytes f1 j1" by (simp add: mprotect_mem)
  show ?thesis using m2(1) w1 p3 bs by simp
qed

text \<open>When the write-enabling call fails and the hook's page is read-only, the first store faults.\<close>

lemma setup_hook_faults:
  assumes "PROT_WRITE \<notin> page_prot m (page_of hook)"
  shows "setup_hook hook fnptr jump m = Faulted m"
  using assms by (simp add: setup_hook_def store_byte_def)

lemma enable_fails_first_store_faults:
  assumes res: "mprotect_results m = False # rest"
    and ro: "PROT_WRITE \<notin> page_prot m (page_of hook)"
  shows "\<exists>m'. setup_hook hook fnptr jump (snd (mprotect area bytes p m)) = Faulted m' \<and>
           mem m' = mem m \<and> page_prot m' = page_prot m"
proof -
  let ?m1 = "snd (mprotect area bytes p m)"
  have "page_prot ?m1 = page_prot m" using mprotect_failure [OF res] by simp
  then have "PROT_WRITE \<notin> page_prot ?m1 (page_of hook)" using ro by simp
  then have "setup_hook hook fnptr jump ?m1 = Faulted ?m1" by (rule setup_hook_faults)
  moreover have "mem ?m1 = mem m" by (rule mprotect_mem)
  moreover have "page_prot ?m1 = page_prot m" using mprotect_failure [OF res] by simp
  ultimately show ?thesis by blast
qed

subsection \<open>C2: a failed protection change\<close>

text \<open>
  C2, as stated, fails. On a machine where the first \<^verbatim>\<open>mprotect\<close> call (read+write+execute)
  succeeds and the second (back to read+execute) fails, \<^verbatim>\<open>xtrace_setup_mach\<close> returns
  normally: it does not abort, the hook is patched (its first byte is 0x49) and the code
  page at 0x2000 is left writable. Where the first call fails and the page is read-only,
  the first store faults; there is no abort either.
\<close>

theorem C2_restore_failure_counterexample:
  "is_Returned (xtrace_setup_mach example_symbols (nop_machine\<lparr>mprotect_results := [True, False]\<rparr>)) \<and>
   \<not> is_Aborted (xtrace_setup_mach example_symbols (nop_machine\<lparr>mprotect_results := [True, False]\<rparr>)) \<and>
   PROT_WRITE \<in> page_prot (machine_of (xtrace_setup_mach example_symbols
      (nop_machine\<lparr>mprotect_results := [True, False]\<rparr>))) 0x2000 \<and>
   mem (machine_of (xtrace_setup_mach example_symbols
      (nop_machine\<lparr>mprotect_results := [True, False]\<rparr>))) 0x2100 = 0x49 \<and>
   is_Faulted (xtrace_setup_mach example_symbols (nop_machine\<lparr>mprotect_results := [False]\<rparr>)) \<and>
   \<not> is_Aborted (xtrace_setup_mach example_symbols (nop_machine\<lparr>mprotect_results := [False]\<rparr>))"
  by (simp add: xtrace_setup_mach_def example_symbols_def nop_machine_def
      mprotect_def setup_hook_def store_byte_def page_of_def in_range_def sizeof_hook_def
      le_bytes64_def Let_def)

text \<open>
  C2, amended: during hook installation the value returned by \<^verbatim>\<open>mprotect\<close> is never
  examined, so none of \<^verbatim>\<open>xtrace_setup_mach\<close>, \<^verbatim>\<open>xtrace_setup_bsd\<close> and
  \<^verbatim>\<open>setup_hook_with_perms\<close> aborts, whatever the calls return. For hook regions laid out
  as in the stubs (the entry hook wholly below the exit hook, the last hook ending more
  than a page below the top of the address space): when the write-enabling call succeeds
  and the restoring call fails, each of them writes its hooks (the 13 bytes of each region
  are the hook's bytes afterwards) and returns normally, with every page of the hook
  regions still writable. When the write-enabling call fails and the page of the first
  hook is not writable, the first store of the patch faults with memory unchanged: the
  process is stopped by that fault, not by an abort.
\<close>

theorem C2_protection_failure_never_aborts:
  "\<not> is_Aborted (xtrace_setup_mach sy m) \<and>
   \<not> is_Aborted (xtrace_setup_bsd sy m) \<and>
   \<not> is_Aborted (setup_hook_with_perms hook fnptr jump m) \<and>
   (unat (darling_mach_syscall_entry sy) + 13 \<le> unat (darling_mach_syscall_exit sy) \<and>
    unat (darling_mach_syscall_exit sy) + 13 + 4096 < 2 ^ 64 \<and>
    mprotect_results m = True # False # rest \<longrightarrow>
      (\<exists>m'. xtrace_setup_mach sy m = Returned m' \<and>
         read_bytes (mem m') (darling_mach_syscall_entry sy) 13 =
           hook_bytes (darling_mach_syscall_entry_trampoline sy) False \<and>
         read_bytes (mem m') (darling_mach_syscall_exit sy) 13 =
           hook_bytes (darling_mach_syscall_exit_trampoline sy) False \<and>
         (\<forall>a. hook_byte (darling_mach_syscall_entry sy) a \<or> hook_byte (darling_mach_syscall_exit sy) a
            \<longrightarrow> PROT_WRITE \<in> page_prot m' (page_of a)))) \<and>
   (unat (darling_bsd_syscall_entry sy) + 13 \<le> unat (darling_bsd_syscall_exit sy) \<and>
    unat (darling_bsd_syscall_exit sy) + 13 + 4096 < 2 ^ 64 \<and>
    mprotect_results m = True # False # rest \<longrightarrow>
      (\<exists>m'. xtrace_setup_bsd sy m = Returned m' \<and>
         read_bytes (mem m') (darling_bsd_syscall_entry sy) 13 =
           hook_bytes (darling_bsd_syscall_entry_trampoline sy) False \<and>
         read_bytes (mem m') (darling_bsd_syscall_exit sy) 13 =
           hook_bytes (darling_bsd_syscall_exit_trampoline sy) False \<and>
         (\<forall>a. hook_byte (darling_bsd_syscall_entry sy) a \<or> hook_byte (darling_bsd_syscall_exit sy) a
            \<longrightarrow> PROT_WRITE \<in> page_prot m' (page_of a)))) \<and>
   (unat hook + 13 + 4096 < 2 ^ 64 \<and> mprotect_results m = True # False # rest \<longrightarrow>
      (\<exists>m'. setup_hook_with_perms hook fnptr jump m = Returned m' \<and>
         read_bytes (mem m') hook 13 = hook_bytes fnptr jump \<and>
         (\<forall>a. hook_byte hook a \<longrightarrow> PROT_WRITE \<in> page_prot m' (page_of a)))) \<and>
   (mprotect_results m = False # rest \<and>
    PROT_WRITE \<notin> page_prot m (page_of (darling_mach_syscall_entry sy)) \<longrightarrow>
      (\<exists>m'. xtrace_setup_mach sy m = Faulted m' \<and> mem m' = mem m \<and> page_prot m' = page_prot m)) \<and>
   (mprotect_results m = False # rest \<and>
    PROT_WRITE \<notin> page_prot m (page_of (darling_bsd_syscall_entry sy)) \<longrightarrow>
      (\<exists>m'. xtrace_setup_bsd sy m = Faulted m' \<and> mem m' = mem m \<and> page_prot m' = page_prot m)) \<and>
   (mprotect_results m = False # rest \<and> PROT_WRITE \<notin> page_prot m (page_of hook) \<longrightarrow>
      (\<exists>m'. setup_hook_with_perms hook fnptr jump m = Faulted m' \<and> mem m' = mem m \<and>
         page_prot m' = page_prot m))"
proof (intro conjI impI)
  show "\<not> is_Aborted (xtrace_setup_mach sy m)" by (rule xtrace_setup_mach_not_aborted)
  show "\<not> is_Aborted (xtrace_setup_bsd sy m)" by (rule xtrace_setup_bsd_not_aborted)
  show "\<not> is_Aborted (setup_hook_with_perms hook fnptr jump m)"
    by (rule setup_hook_with_perms_not_aborted)
next
  assume "unat (darling_mach_syscall_entry sy) + 13 \<le> unat (darling_mach_syscall_exit sy) \<and>
    unat (darling_mach_syscall_exit sy) + 13 + 4096 < 2 ^ 64 \<and>
    mprotect_results m = True # False # rest"
  then show "\<exists>m'. xtrace_setup_mach sy m = Returned m' \<and>
         read_bytes (mem m') (darling_mach_syscall_entry sy) 13 =
           hook_bytes (darling_mach_syscall_entry_trampoline sy) False \<and>
         read_bytes (mem m') (darling_mach_syscall_exit sy) 13 =
           hook_bytes (darling_mach_syscall_exit_trampoline sy) False \<and>
         (\<forall>a. hook_byte (darling_mach_syscall_entry sy) a \<or> hook_byte (darling_mach_syscall_exit sy) a
            \<longrightarrow> PROT_WRITE \<in> page_prot m' (page_of a))"
    unfolding xtrace_setup_mach_def Let_def
    by (elim conjE) (rule two_hooks_restore_fails)
next
  assume "unat (darling_bsd_syscall_entry sy) + 13 \<le> unat (darling_bsd_syscall_exit sy) \<and>
    unat (darling_bsd_syscall_exit sy) + 13 + 4096 < 2 ^ 64 \<and>
    mprotect_results m = True # False # rest"
  then show "\<exists>m'. xtrace_setup_bsd sy m = Returned m' \<and>
         read_bytes (mem m') (darling_bsd_syscall_entry sy) 13 =
           hook_bytes (darling_bsd_syscall_entry_trampoline sy) False \<and>
         read_bytes (mem m') (darling_bsd_syscall_exit sy) 13 =
           hook_bytes (darling_bsd_syscall_exit_trampoline sy) False \<and>
         (\<forall>a. hook_byte (darling_bsd_syscall_entry sy) a \<or> hook_byte (darling_bsd_syscall_exit sy) a
            \<longrightarrow> PROT_WRITE \<in> page_prot m' (page_of a))"
    unfolding xtrace_setup_bsd_def Let_def
    by (elim conjE) (rule two_hooks_restore_fails)
next
  assume "unat hook + 13 + 4096 < 2 ^ 64 \<and> mprotect_results m = True # False # rest"
  then show "\<exists>m'. setup_hook_with_perms hook fnptr jump m = Returned m' \<and>
         read_bytes (mem m') hook 13 = hook_bytes fnptr jump \<and>
         (\<forall>a. hook_byte hook a \<longrightarrow> PROT_WRITE \<in> page_prot m' (page_of a))"
    unfolding setup_hook_with_perms_def Let_def
    by (elim conjE) (rule one_hook_restore_fails)
next
  assume h: "mprotect_results m = False # rest \<and>
    PROT_WRITE \<notin> page_prot m (page_of (darling_mach_syscall_entry sy))"
  from h have "\<exists>m'. setup_hook (darling_mach_syscall_entry sy)
        (darling_mach_syscall_entry_trampoline sy) False
        (snd (mprotect (darling_mach_syscall_entry sy AND NOT (4096 - 1))
           (4096 + (((darling_mach_syscall_exit sy + sizeof_hook) AND NOT (4096 - 1)) -
                    (darling_mach_syscall_entry sy AND NOT (4096 - 1))))
           {PROT_READ, PROT_WRITE, PROT_EXEC} m)) = Faulted m' \<and>
      mem m' = mem m \<and> page_prot m' = page_prot m"
    by (elim conjE) (rule enable_fails_first_store_faults)
  then show "\<exists>m'. xtrace_setup_mach sy m = Faulted m' \<and> mem m' = mem m \<and> page_prot m' = page_prot m"
    unfolding xtrace_setup_mach_def Let_def by auto
next
  assume h: "mprotect_results m = False # rest \<and>
    PROT_WRITE \<notin> page_prot m (page_of (darling_bsd_syscall_entry sy))"
  from h have "\<exists>m'. setup_hook (darling_bsd_syscall_entry sy)
        (darling_bsd_syscall_entry_trampoline sy) False
        (snd (mprotect (darling_bsd_syscall_entry sy AND NOT (4096 - 1))
           (4096 + (((darling_bsd_syscall_exit sy + sizeof_hook) AND NOT (4096 - 1)) -
                    (darling_bsd_syscall_entry sy AND NOT (4096 - 1))))
           {PROT_READ, PROT_WRITE, PROT_EXEC} m)) = Faulted m' \<and>
      mem m' = mem m \<and> page_prot m' = page_prot m"
    by (elim conjE) (rule enable_fails_first_store_faults)
  then show "\<exists>m'. xtrace_setup_bsd sy m = Faulted m' \<and> mem m' = mem m \<and> page_prot m' = page_prot m"
    unfolding xtrace_setup_bsd_def Let_def by auto
next
  assume h: "mprotect_results m = False # rest \<and> PROT_WRITE \<notin> page_prot m (page_of hook)"
  from h have "\<exists>m'. setup_hook hook fnptr jump
        (snd (mprotect (hook AND NOT (4096 - 1))
           (4096 + (((hook + sizeof_hook) AND NOT (4096 - 1)) - (hook AND NOT (4096 - 1))))
           {PROT_READ, PROT_WRITE, PROT_EXEC} m)) = Faulted m' \<and>
      mem m' = mem m \<and> page_prot m' = page_prot m"
    by (elim conjE) (rule enable_fails_first_store_faults)
  then show "\<exists>m'. setup_hook_with_perms hook fnptr jump m = Faulted m' \<and> mem m' = mem m \<and>
         page_prot m' = page_prot m"
    unfolding setup_hook_with_perms_def Let_def by auto
qed

theorem C2_protection_failure_never_aborts_witness:
  "unat (darling_mach_syscall_entry example_symbols) + 13 \<le> unat (darling_mach_syscall_exit example_symbols) \<and>
   unat (darling_mach_syscall_exit example_symbols) + 13 + 4096 < 2 ^ 64 \<and>
   unat (darling_bsd_syscall_entry example_symbols) + 13 \<le> unat (darling_bsd_syscall_exit example_symbols) \<and>
   unat (darling_bsd_syscall_exit example_symbols) + 13 + 4096 < 2 ^ 64 \<and>
   unat (0x8FFC :: 64 word) + 13 + 4096 < 2 ^ 64 \<and>
   mprotect_results (nop_machine\<lparr>mprotect_results := [True, False]\<rparr>) = True # False # [] \<and>
   hook_byte (darling_mach_syscall_entry example_symbols) 0x2104 \<and>
   \<not> is_Aborted (xtrace_setup_mach example_symbols (nop_machine\<lparr>mprotect_results := [True, False]\<rparr>)) \<and>
   (\<exists>m'. xtrace_setup_mach example_symbols (nop_machine\<lparr>mprotect_results := [True, False]\<rparr>) = Returned m' \<and>
      read_bytes (mem m') 0x2100 13 = [0x49, 0xba, 0x00, 0x70, 0, 0, 0, 0, 0, 0, 0x41, 0xff, 0xd2] \<and>
      read_bytes (mem m') 0x2200 13 = [0x49, 0xba, 0x00, 0x71, 0, 0, 0, 0, 0, 0, 0x41, 0xff, 0xd2] \<and>
      PROT_WRITE \<in> page_prot m' (page_of 0x2104)) \<and>
   hook_byte (darling_bsd_syscall_entry example_symbols) 0x6004 \<and>
   \<not> is_Aborted (xtrace_setup_bsd example_symbols (nop_machine\<lparr>mprotect_results := [True, False]\<rparr>)) \<and>
   (\<exists>m'. xtrace_setup_bsd example_symbols (nop_machine\<lparr>mprotect_results := [True, False]\<rparr>) = Returned m' \<and>
      read_bytes (mem m') 0x5FF8 13 = [0x49, 0xba, 0x00, 0x72, 0, 0, 0, 0, 0, 0, 0x41, 0xff, 0xd2] \<and>
      read_bytes (mem m') 0x6100 13 = [0x49, 0xba, 0x00, 0x73, 0, 0, 0, 0, 0, 0, 0x41, 0xff, 0xd2] \<and>
      PROT_WRITE \<in> page_prot m' (page_of 0x6004)) \<and>
   hook_byte 0x8FFC 0x9003 \<and>
   \<not> is_Aborted (setup_hook_with_perms 0x8FFC 0x9200 True (nop_machine\<lparr>mprotect_results := [True, False]\<rparr>)) \<and>
   (\<exists>m'. setup_hook_with_perms 0x8FFC 0x9200 True (nop_machine\<lparr>mprotect_results := [True, False]\<rparr>) = Returned m' \<and>
      read_bytes (mem m') 0x8FFC 13 = [0x49, 0xba, 0x00, 0x92, 0, 0, 0, 0, 0, 0, 0x41, 0xff, 0xe2] \<and>
      PROT_WRITE \<in> page_prot m' (page_of 0x9003)) \<and>
   mprotect_results (nop_machine\<lparr>mprotect_results := [False]\<rparr>) = False # [] \<and>
   PROT_WRITE \<notin> page_prot (nop_machine\<lparr>mprotect_results := [False]\<rparr>) (page_of (darling_mach_syscall_entry example_symbols)) \<and>
   (\<exists>m'. xtrace_setup_mach example_symbols (nop_machine\<lparr>mprotect_results := [False]\<rparr>) = Faulted m' \<and> mem m' = mem nop_machine) \<and>
   PROT_WRITE \<notin> page_prot (nop_machine\<lparr>mprotect_results := [False]\<rparr>) (page_of (darling_bsd_syscall_entry example_symbols)) \<and>
   (\<exists>m'. xtrace_setup_bsd example_symbols (nop_machine\<lparr>mprotect_results := [False]\<rparr>) = Faulted m' \<and> mem m' = mem nop_machine) \<and>
   PROT_WRITE \<notin> page_prot (nop_machine\<lparr>mprotect_results := [False]\<rparr>) (page_of 0x8FFC) \<and>
   (\<exists>m'. setup_hook_with_perms 0x8FFC 0x9200 True (nop_machine\<lparr>mprotect_results := [False]\<rparr>) = Faulted m' \<and> mem m' = mem nop_machine)"
proof -
  let ?rf = "nop_machine\<lparr>mprotect_results := [True, False]\<rparr>"
  let ?ef = "nop_machine\<lparr>mprotect_results := [False]\<rparr>"
  have h: "unat (darling_mach_syscall_entry example_symbols) + 13 \<le>
        unat (darling_mach_syscall_exit example_symbols)"
    "unat (darling_mach_syscall_exit example_symbols) + 13 + 4096 < 2 ^ 64"
    "unat (darling_bsd_syscall_entry example_symbols) + 13 \<le>
        unat (darling_bsd_syscall_exit example_symbols)"
    "unat (darling_bsd_syscall_exit example_symbols) + 13 + 4096 < 2 ^ 64"
    "unat (0x8FFC :: 64 word) + 13 + 4096 < 2 ^ 64"
    "mprotect_results ?rf = True # False # []"
    by (simp_all add: example_symbols_def nop_machine_def)
  have b: "hook_byte (darling_mach_syscall_entry example_symbols) 0x2104"
    "hook_byte (darling_bsd_syscall_entry example_symbols) 0x6004"
    "hook_byte 0x8FFC 0x9003"
    by (simp_all add: example_symbols_def hook_byte_def sizeof_hook_def)
  have g: "mprotect_results ?ef = False # []"
    "PROT_WRITE \<notin> page_prot ?ef (page_of (darling_mach_syscall_entry example_symbols))"
    "PROT_WRITE \<notin> page_prot ?ef (page_of (darling_bsd_syscall_entry example_symbols))"
    "PROT_WRITE \<notin> page_prot ?ef (page_of 0x8FFC)"
    by (simp_all add: nop_machine_def)
  note inst = C2_protection_failure_never_aborts [of example_symbols ?rf "0x8FFC" "0x9200" True "[]"]
  have n: "\<not> is_Aborted (xtrace_setup_mach example_symbols ?rf)"
    "\<not> is_Aborted (xtrace_setup_bsd example_symbols ?rf)"
    "\<not> is_Aborted (setup_hook_with_perms 0x8FFC 0x9200 True ?rf)"
    using inst by blast+
  have e: "darling_mach_syscall_entry example_symbols = 0x2100"
    "darling_mach_syscall_exit example_symbols = 0x2200"
    "darling_bsd_syscall_entry example_symbols = 0x5FF8"
    "darling_bsd_syscall_exit example_symbols = 0x6100"
    "hook_bytes (darling_mach_syscall_entry_trampoline example_symbols) False = [0x49, 0xba, 0x00, 0x70, 0, 0, 0, 0, 0, 0, 0x41, 0xff, 0xd2]"
    "hook_bytes (darling_mach_syscall_exit_trampoline example_symbols) False = [0x49, 0xba, 0x00, 0x71, 0, 0, 0, 0, 0, 0, 0x41, 0xff, 0xd2]"
    "hook_bytes (darling_bsd_syscall_entry_trampoline example_symbols) False = [0x49, 0xba, 0x00, 0x72, 0, 0, 0, 0, 0, 0, 0x41, 0xff, 0xd2]"
    "hook_bytes (darling_bsd_syscall_exit_trampoline example_symbols) False = [0x49, 0xba, 0x00, 0x73, 0, 0, 0, 0, 0, 0, 0x41, 0xff, 0xd2]"
    "hook_bytes 0x9200 True = [0x49, 0xba, 0x00, 0x92, 0, 0, 0, 0, 0, 0, 0x41, 0xff, 0xe2]"
    by (simp_all add: example_symbols_def hook_bytes_def le_bytes64_def)
  have rm: "\<exists>m'. xtrace_setup_mach example_symbols ?rf = Returned m' \<and>
         read_bytes (mem m') (darling_mach_syscall_entry example_symbols) 13 =
           hook_bytes (darling_mach_syscall_entry_trampoline example_symbols) False \<and>
         read_bytes (mem m') (darling_mach_syscall_exit example_symbols) 13 =
           hook_bytes (darling_mach_syscall_exit_trampoline example_symbols) False \<and>
         (\<forall>a. hook_byte (darling_mach_syscall_entry example_symbols) a \<or>
               hook_byte (darling_mach_syscall_exit example_symbols) a
            \<longrightarrow> PROT_WRITE \<in> page_prot m' (page_of a))"
    using inst h by blast
  have rb: "\<exists>m'. xtrace_setup_bsd example_symbols ?rf = Returned m' \<and>
         read_bytes (mem m') (darling_bsd_syscall_entry example_symbols) 13 =
           hook_bytes (darling_bsd_syscall_entry_trampoline example_symbols) False \<and>
         read_bytes (mem m') (darling_bsd_syscall_exit example_symbols) 13 =
           hook_bytes (darling_bsd_syscall_exit_trampoline example_symbols) False \<and>
         (\<forall>a. hook_byte (darling_bsd_syscall_entry example_symbols) a \<or>
               hook_byte (darling_bsd_syscall_exit example_symbols) a
            \<longrightarrow> PROT_WRITE \<in> page_prot m' (page_of a))"
    using inst h by blast
  have rs: "\<exists>m'. setup_hook_with_perms 0x8FFC 0x9200 True ?rf = Returned m' \<and>
         read_bytes (mem m') 0x8FFC 13 = hook_bytes 0x9200 True \<and>
         (\<forall>a. hook_byte 0x8FFC a \<longrightarrow> PROT_WRITE \<in> page_prot m' (page_of a))"
    using inst h by blast
  from rm b(1) have rm': "\<exists>m'. xtrace_setup_mach example_symbols ?rf = Returned m' \<and>
      read_bytes (mem m') 0x2100 13 = [0x49, 0xba, 0x00, 0x70, 0, 0, 0, 0, 0, 0, 0x41, 0xff, 0xd2] \<and>
      read_bytes (mem m') 0x2200 13 = [0x49, 0xba, 0x00, 0x71, 0, 0, 0, 0, 0, 0, 0x41, 0xff, 0xd2] \<and>
      PROT_WRITE \<in> page_prot m' (page_of 0x2104)"
    unfolding e by blast
  from rb b(2) have rb': "\<exists>m'. xtrace_setup_bsd example_symbols ?rf = Returned m' \<and>
      read_bytes (mem m') 0x5FF8 13 = [0x49, 0xba, 0x00, 0x72, 0, 0, 0, 0, 0, 0, 0x41, 0xff, 0xd2] \<and>
      read_bytes (mem m') 0x6100 13 = [0x49, 0xba, 0x00, 0x73, 0, 0, 0, 0, 0, 0, 0x41, 0xff, 0xd2] \<and>
      PROT_WRITE \<in> page_prot m' (page_of 0x6004)"
    unfolding e by blast
  from rs b(3) have rs': "\<exists>m'. setup_hook_with_perms 0x8FFC 0x9200 True ?rf = Returned m' \<and>
      read_bytes (mem m') 0x8FFC 13 = [0x49, 0xba, 0x00, 0x92, 0, 0, 0, 0, 0, 0, 0x41, 0xff, 0xe2] \<and>
      PROT_WRITE \<in> page_prot m' (page_of 0x9003)"
    unfolding e by blast
  note inst2 = C2_protection_failure_never_aborts [of example_symbols ?ef "0x8FFC" "0x9200" True "[]"]
  have "\<exists>m'. xtrace_setup_mach example_symbols ?ef = Faulted m' \<and> mem m' = mem ?ef \<and>
      page_prot m' = page_prot ?ef"
    using inst2 g by blast
  then have fm: "\<exists>m'. xtrace_setup_mach example_symbols ?ef = Faulted m' \<and>
      mem m' = mem nop_machine"
    by auto
  have "\<exists>m'. xtrace_setup_bsd example_symbols ?ef = Faulted m' \<and> mem m' = mem ?ef \<and>
      page_prot m' = page_prot ?ef"
    using inst2 g by blast
  then have fb: "\<exists>m'. xtrace_setup_bsd example_symbols ?ef = Faulted m' \<and>
      mem m' = mem nop_machine"
    by auto
  have "\<exists>m'. setup_hook_with_perms 0x8FFC 0x9200 True ?ef = Faulted m' \<and> mem m' = mem ?ef \<and>
      page_prot m' = page_prot ?ef"
    using inst2 g by blast
  then have fs: "\<exists>m'. setup_hook_with_perms 0x8FFC 0x9200 True ?ef = Faulted m' \<and>
      mem m' = mem nop_machine"
    by auto
  show ?thesis
    using h b n rm' rb' rs' g fm fb fs unfolding e by (intro conjI) assumption+
qed

subsection \<open>C8: the range made writable\<close>

text \<open>
  C8, as stated, fails in the end of the range. With the entry hook at 0x2100 and the exit
  hook at 0x2FF3 the hook regions end at 0x3000, which is a page boundary already, so the
  end rounded up to a page boundary is 0x3000. The source makes \<open>[0x2000, 0x4000)\<close>
  writable: its end is one page beyond the rounded-up end.
\<close>

theorem C8_aligned_end_counterexample:
  "darling_mach_syscall_entry aligned_symbols \<le> darling_mach_syscall_exit aligned_symbols \<and>
   mprotect_calls (machine_of (xtrace_setup_mach aligned_symbols nop_machine)) =
     [(0x2000, 0x2000, {PROT_READ, PROT_WRITE, PROT_EXEC}),
      (0x2000, 0x2000, {PROT_READ, PROT_EXEC})] \<and>
   unat (darling_mach_syscall_exit aligned_symbols + sizeof_hook) = 0x3000 \<and>
   spec_page_round_up (unat (darling_mach_syscall_exit aligned_symbols + sizeof_hook)) = 0x3000 \<and>
   unat (0x2000 :: 64 word) + unat (0x2000 :: 64 word) = 0x4000 \<and>
   unat (0x2000 :: 64 word) + unat (0x2000 :: 64 word) \<noteq>
     spec_page_round_up (unat (darling_mach_syscall_exit aligned_symbols + sizeof_hook))"
  by (simp add: xtrace_setup_mach_def aligned_symbols_def example_symbols_def nop_machine_def
      mprotect_def setup_hook_def store_byte_def page_of_def in_range_def sizeof_hook_def
      le_bytes64_def hook_byte_def Let_def spec_page_round_up_def)

text \<open>
  C8, amended: for every pair of hook addresses laid out as in the stubs (the entry hook
  not above the exit hook, and the exit hook ending more than a page below the top of the
  address space), the range \<open>[area, area + bytes)\<close> that \<^verbatim>\<open>xtrace_setup_mach\<close> and
  \<^verbatim>\<open>xtrace_setup_bsd\<close> first pass to \<^verbatim>\<open>mprotect\<close> with read+write+execute covers every
  byte of both hook regions, also when a region straddles a page boundary. Its start is the
  entry address rounded down to a page boundary. Its end is the exit address plus the hook
  size, rounded down to a page boundary, plus one page: that is the end rounded up to a
  page boundary, except when the exit hook ends exactly at a page boundary, where it is one
  page beyond it. The same holds for the one hook of \<^verbatim>\<open>setup_hook_with_perms\<close>.
\<close>

theorem C8_writable_range_covers_hooks:
  "(darling_mach_syscall_entry sy \<le> darling_mach_syscall_exit sy \<and>
    unat (darling_mach_syscall_exit sy) + 13 + 4096 < 2 ^ 64 \<longrightarrow>
      (\<exists>area bytes rest.
         mprotect_calls (machine_of (xtrace_setup_mach sy m)) =
           mprotect_calls m @ (area, bytes, {PROT_READ, PROT_WRITE, PROT_EXEC}) # rest \<and>
         unat area = unat (darling_mach_syscall_entry sy) - unat (darling_mach_syscall_entry sy) mod 4096 \<and>
         unat area + unat bytes =
           (unat (darling_mach_syscall_exit sy) + 13) - (unat (darling_mach_syscall_exit sy) + 13) mod 4096 + 4096 \<and>
         unat area + unat bytes =
           (if (unat (darling_mach_syscall_exit sy) + 13) mod 4096 = 0
            then spec_page_round_up (unat (darling_mach_syscall_exit sy) + 13) + 4096
            else spec_page_round_up (unat (darling_mach_syscall_exit sy) + 13)) \<and>
         (\<forall>a. hook_byte (darling_mach_syscall_entry sy) a \<or> hook_byte (darling_mach_syscall_exit sy) a \<longrightarrow>
              in_range area bytes a))) \<and>
   (darling_bsd_syscall_entry sy \<le> darling_bsd_syscall_exit sy \<and>
    unat (darling_bsd_syscall_exit sy) + 13 + 4096 < 2 ^ 64 \<longrightarrow>
      (\<exists>area bytes rest.
         mprotect_calls (machine_of (xtrace_setup_bsd sy m)) =
           mprotect_calls m @ (area, bytes, {PROT_READ, PROT_WRITE, PROT_EXEC}) # rest \<and>
         unat area = unat (darling_bsd_syscall_entry sy) - unat (darling_bsd_syscall_entry sy) mod 4096 \<and>
         unat area + unat bytes =
           (unat (darling_bsd_syscall_exit sy) + 13) - (unat (darling_bsd_syscall_exit sy) + 13) mod 4096 + 4096 \<and>
         unat area + unat bytes =
           (if (unat (darling_bsd_syscall_exit sy) + 13) mod 4096 = 0
            then spec_page_round_up (unat (darling_bsd_syscall_exit sy) + 13) + 4096
            else spec_page_round_up (unat (darling_bsd_syscall_exit sy) + 13)) \<and>
         (\<forall>a. hook_byte (darling_bsd_syscall_entry sy) a \<or> hook_byte (darling_bsd_syscall_exit sy) a \<longrightarrow>
              in_range area bytes a))) \<and>
   (unat hook + 13 + 4096 < 2 ^ 64 \<longrightarrow>
      (\<exists>area bytes rest.
         mprotect_calls (machine_of (setup_hook_with_perms hook fnptr jump m)) =
           mprotect_calls m @ (area, bytes, {PROT_READ, PROT_WRITE, PROT_EXEC}) # rest \<and>
         unat area = unat hook - unat hook mod 4096 \<and>
         unat area + unat bytes = (unat hook + 13) - (unat hook + 13) mod 4096 + 4096 \<and>
         unat area + unat bytes =
           (if (unat hook + 13) mod 4096 = 0 then spec_page_round_up (unat hook + 13) + 4096
            else spec_page_round_up (unat hook + 13)) \<and>
         (\<forall>a. hook_byte hook a \<or> hook_byte hook a \<longrightarrow> in_range area bytes a)))"
proof (intro conjI impI)
  assume "darling_mach_syscall_entry sy \<le> darling_mach_syscall_exit sy \<and>
    unat (darling_mach_syscall_exit sy) + 13 + 4096 < 2 ^ 64"
  then have se: "darling_mach_syscall_entry sy \<le> darling_mach_syscall_exit sy"
    and room: "unat (darling_mach_syscall_exit sy) + 13 + 4096 < 2 ^ 64"
    by simp_all
  obtain rest where "mprotect_calls (machine_of (xtrace_setup_mach sy m)) =
     mprotect_calls m @
       (darling_mach_syscall_entry sy AND NOT (4096 - 1),
        4096 + (((darling_mach_syscall_exit sy + sizeof_hook) AND NOT (4096 - 1)) -
                (darling_mach_syscall_entry sy AND NOT (4096 - 1))),
        {PROT_READ, PROT_WRITE, PROT_EXEC}) # rest"
    using xtrace_setup_mach_first_call [of sy m] by (elim exE)
  with se room show "\<exists>area bytes rest.
         mprotect_calls (machine_of (xtrace_setup_mach sy m)) =
           mprotect_calls m @ (area, bytes, {PROT_READ, PROT_WRITE, PROT_EXEC}) # rest \<and>
         unat area = unat (darling_mach_syscall_entry sy) - unat (darling_mach_syscall_entry sy) mod 4096 \<and>
         unat area + unat bytes =
           (unat (darling_mach_syscall_exit sy) + 13) - (unat (darling_mach_syscall_exit sy) + 13) mod 4096 + 4096 \<and>
         unat area + unat bytes =
           (if (unat (darling_mach_syscall_exit sy) + 13) mod 4096 = 0
            then spec_page_round_up (unat (darling_mach_syscall_exit sy) + 13) + 4096
            else spec_page_round_up (unat (darling_mach_syscall_exit sy) + 13)) \<and>
         (\<forall>a. hook_byte (darling_mach_syscall_entry sy) a \<or> hook_byte (darling_mach_syscall_exit sy) a \<longrightarrow>
              in_range area bytes a)"
    by (rule range_facts)
next
  assume "darling_bsd_syscall_entry sy \<le> darling_bsd_syscall_exit sy \<and>
    unat (darling_bsd_syscall_exit sy) + 13 + 4096 < 2 ^ 64"
  then have se: "darling_bsd_syscall_entry sy \<le> darling_bsd_syscall_exit sy"
    and room: "unat (darling_bsd_syscall_exit sy) + 13 + 4096 < 2 ^ 64"
    by simp_all
  obtain rest where "mprotect_calls (machine_of (xtrace_setup_bsd sy m)) =
     mprotect_calls m @
       (darling_bsd_syscall_entry sy AND NOT (4096 - 1),
        4096 + (((darling_bsd_syscall_exit sy + sizeof_hook) AND NOT (4096 - 1)) -
                (darling_bsd_syscall_entry sy AND NOT (4096 - 1))),
        {PROT_READ, PROT_WRITE, PROT_EXEC}) # rest"
    using xtrace_setup_bsd_first_call [of sy m] by (elim exE)
  with se room show "\<exists>area bytes rest.
         mprotect_calls (machine_of (xtrace_setup_bsd sy m)) =
           mprotect_calls m @ (area, bytes, {PROT_READ, PROT_WRITE, PROT_EXEC}) # rest \<and>
         unat area = unat (darling_bsd_syscall_entry sy) - unat (darling_bsd_syscall_entry sy) mod 4096 \<and>
         unat area + unat bytes =
           (unat (darling_bsd_syscall_exit sy) + 13) - (unat (darling_bsd_syscall_exit sy) + 13) mod 4096 + 4096 \<and>
         unat area + unat bytes =
           (if (unat (darling_bsd_syscall_exit sy) + 13) mod 4096 = 0
            then spec_page_round_up (unat (darling_bsd_syscall_exit sy) + 13) + 4096
            else spec_page_round_up (unat (darling_bsd_syscall_exit sy) + 13)) \<and>
         (\<forall>a. hook_byte (darling_bsd_syscall_entry sy) a \<or> hook_byte (darling_bsd_syscall_exit sy) a \<longrightarrow>
              in_range area bytes a)"
    by (rule range_facts)
next
  assume room: "unat hook + 13 + 4096 < 2 ^ 64"
  have se: "hook \<le> hook" by simp
  obtain rest where "mprotect_calls (machine_of (setup_hook_with_perms hook fnptr jump m)) =
     mprotect_calls m @
       (hook AND NOT (4096 - 1),
        4096 + (((hook + sizeof_hook) AND NOT (4096 - 1)) - (hook AND NOT (4096 - 1))),
        {PROT_READ, PROT_WRITE, PROT_EXEC}) # rest"
    using setup_hook_with_perms_first_call [of hook fnptr jump m] by (elim exE)
  with se room show "\<exists>area bytes rest.
         mprotect_calls (machine_of (setup_hook_with_perms hook fnptr jump m)) =
           mprotect_calls m @ (area, bytes, {PROT_READ, PROT_WRITE, PROT_EXEC}) # rest \<and>
         unat area = unat hook - unat hook mod 4096 \<and>
         unat area + unat bytes = (unat hook + 13) - (unat hook + 13) mod 4096 + 4096 \<and>
         unat area + unat bytes =
           (if (unat hook + 13) mod 4096 = 0 then spec_page_round_up (unat hook + 13) + 4096
            else spec_page_round_up (unat hook + 13)) \<and>
         (\<forall>a. hook_byte hook a \<or> hook_byte hook a \<longrightarrow> in_range area bytes a)"
    by (rule range_facts)
qed

theorem C8_writable_range_covers_hooks_witness:
  "darling_mach_syscall_entry aligned_symbols \<le> darling_mach_syscall_exit aligned_symbols \<and>
   unat (darling_mach_syscall_exit aligned_symbols) + 13 + 4096 < 2 ^ 64 \<and>
   hook_byte (darling_mach_syscall_exit aligned_symbols) 0x2FFF \<and>
   (\<exists>area bytes rest.
      mprotect_calls (machine_of (xtrace_setup_mach aligned_symbols nop_machine)) =
        (area, bytes, {PROT_READ, PROT_WRITE, PROT_EXEC}) # rest \<and>
      unat area = 0x2000 \<and> unat area + unat bytes = 0x4000 \<and>
      unat area + unat bytes = spec_page_round_up 0x3000 + 4096 \<and> in_range area bytes 0x2FFF) \<and>
   darling_bsd_syscall_entry example_symbols \<le> darling_bsd_syscall_exit example_symbols \<and>
   unat (darling_bsd_syscall_exit example_symbols) + 13 + 4096 < 2 ^ 64 \<and>
   hook_byte (darling_bsd_syscall_entry example_symbols) 0x6004 \<and>
   (\<exists>area bytes rest.
      mprotect_calls (machine_of (xtrace_setup_bsd example_symbols nop_machine)) =
        (area, bytes, {PROT_READ, PROT_WRITE, PROT_EXEC}) # rest \<and>
      unat area = 0x5000 \<and> unat area + unat bytes = 0x7000 \<and>
      unat area + unat bytes = spec_page_round_up 0x610D \<and> in_range area bytes 0x6004) \<and>
   unat (0x8FFC :: 64 word) + 13 + 4096 < 2 ^ 64 \<and>
   hook_byte 0x8FFC 0x9003 \<and>
   (\<exists>area bytes rest.
      mprotect_calls (machine_of (setup_hook_with_perms 0x8FFC 0x9200 True nop_machine)) =
        (area, bytes, {PROT_READ, PROT_WRITE, PROT_EXEC}) # rest \<and>
      unat area = 0x8000 \<and> unat area + unat bytes = 0xA000 \<and>
      unat area + unat bytes = spec_page_round_up 0x9009 \<and> in_range area bytes 0x9003)"
proof -
  have hm: "darling_mach_syscall_entry aligned_symbols \<le> darling_mach_syscall_exit aligned_symbols \<and>
      unat (darling_mach_syscall_exit aligned_symbols) + 13 + 4096 < 2 ^ 64"
    by (simp add: aligned_symbols_def example_symbols_def)
  have hb: "darling_bsd_syscall_entry example_symbols \<le> darling_bsd_syscall_exit example_symbols \<and>
      unat (darling_bsd_syscall_exit example_symbols) + 13 + 4096 < 2 ^ 64"
    by (simp add: example_symbols_def)
  have hs: "unat (0x8FFC :: 64 word) + 13 + 4096 < 2 ^ 64" by simp
  have bm: "hook_byte (darling_mach_syscall_exit aligned_symbols) 0x2FFF"
    by (simp add: aligned_symbols_def example_symbols_def hook_byte_def sizeof_hook_def)
  have bb: "hook_byte (darling_bsd_syscall_entry example_symbols) 0x6004"
    by (simp add: example_symbols_def hook_byte_def sizeof_hook_def)
  have bs: "hook_byte 0x8FFC 0x9003"
    by (simp add: hook_byte_def sizeof_hook_def)
  from C8_writable_range_covers_hooks [of aligned_symbols nop_machine "0x8FFC" "0x9200" True] hm
  obtain area1 bytes1 rest1 where
    c1: "mprotect_calls (machine_of (xtrace_setup_mach aligned_symbols nop_machine)) =
        mprotect_calls nop_machine @ (area1, bytes1, {PROT_READ, PROT_WRITE, PROT_EXEC}) # rest1"
    and a1: "unat area1 = unat (darling_mach_syscall_entry aligned_symbols) - unat (darling_mach_syscall_entry aligned_symbols) mod 4096"
    and e1: "unat area1 + unat bytes1 = (unat (darling_mach_syscall_exit aligned_symbols) + 13) -
        (unat (darling_mach_syscall_exit aligned_symbols) + 13) mod 4096 + 4096"
    and r1: "\<forall>a. hook_byte (darling_mach_syscall_entry aligned_symbols) a \<or> hook_byte (darling_mach_syscall_exit aligned_symbols) a \<longrightarrow>
        in_range area1 bytes1 a"
    by blast
  have c1': "mprotect_calls (machine_of (xtrace_setup_mach aligned_symbols nop_machine)) =
        (area1, bytes1, {PROT_READ, PROT_WRITE, PROT_EXEC}) # rest1"
    using c1 by (simp add: nop_machine_def)
  have a1': "unat area1 = 0x2000" using a1 by (simp add: aligned_symbols_def example_symbols_def)
  have e1': "unat area1 + unat bytes1 = 0x4000" using e1 by (simp add: aligned_symbols_def example_symbols_def)
  have u1: "unat area1 + unat bytes1 = spec_page_round_up 0x3000 + 4096"
    using e1' by (simp add: spec_page_round_up_def)
  have i1: "in_range area1 bytes1 0x2FFF" using r1 bm by blast
  have w1: "(\<exists>area bytes rest.
      mprotect_calls (machine_of (xtrace_setup_mach aligned_symbols nop_machine)) =
        (area, bytes, {PROT_READ, PROT_WRITE, PROT_EXEC}) # rest \<and>
      unat area = 0x2000 \<and> unat area + unat bytes = 0x4000 \<and>
      unat area + unat bytes = spec_page_round_up 0x3000 + 4096 \<and> in_range area bytes 0x2FFF)"
    using c1' a1' e1' u1 i1 by blast
  from C8_writable_range_covers_hooks [of example_symbols nop_machine "0x8FFC" "0x9200" True] hb
  obtain area2 bytes2 rest2 where
    c2: "mprotect_calls (machine_of (xtrace_setup_bsd example_symbols nop_machine)) =
        mprotect_calls nop_machine @ (area2, bytes2, {PROT_READ, PROT_WRITE, PROT_EXEC}) # rest2"
    and a2: "unat area2 = unat (darling_bsd_syscall_entry example_symbols) - unat (darling_bsd_syscall_entry example_symbols) mod 4096"
    and e2: "unat area2 + unat bytes2 = (unat (darling_bsd_syscall_exit example_symbols) + 13) -
        (unat (darling_bsd_syscall_exit example_symbols) + 13) mod 4096 + 4096"
    and r2: "\<forall>a. hook_byte (darling_bsd_syscall_entry example_symbols) a \<or> hook_byte (darling_bsd_syscall_exit example_symbols) a \<longrightarrow>
        in_range area2 bytes2 a"
    by blast
  have c2': "mprotect_calls (machine_of (xtrace_setup_bsd example_symbols nop_machine)) =
        (area2, bytes2, {PROT_READ, PROT_WRITE, PROT_EXEC}) # rest2"
    using c2 by (simp add: nop_machine_def)
  have a2': "unat area2 = 0x5000" using a2 by (simp add: example_symbols_def)
  have e2': "unat area2 + unat bytes2 = 0x7000" using e2 by (simp add: example_symbols_def)
  have u2: "unat area2 + unat bytes2 = spec_page_round_up 0x610D"
    using e2' by (simp add: spec_page_round_up_def)
  have i2: "in_range area2 bytes2 0x6004" using r2 bb by blast
  have w2: "(\<exists>area bytes rest.
      mprotect_calls (machine_of (xtrace_setup_bsd example_symbols nop_machine)) =
        (area, bytes, {PROT_READ, PROT_WRITE, PROT_EXEC}) # rest \<and>
      unat area = 0x5000 \<and> unat area + unat bytes = 0x7000 \<and>
      unat area + unat bytes = spec_page_round_up 0x610D \<and> in_range area bytes 0x6004)"
    using c2' a2' e2' u2 i2 by blast
  from C8_writable_range_covers_hooks [of example_symbols nop_machine "0x8FFC" "0x9200" True] hs
  obtain area3 bytes3 rest3 where
    c3: "mprotect_calls (machine_of (setup_hook_with_perms 0x8FFC 0x9200 True nop_machine)) =
        mprotect_calls nop_machine @ (area3, bytes3, {PROT_READ, PROT_WRITE, PROT_EXEC}) # rest3"
    and a3: "unat area3 = unat (0x8FFC :: 64 word) - unat (0x8FFC :: 64 word) mod 4096"
    and e3: "unat area3 + unat bytes3 = (unat (0x8FFC :: 64 word) + 13) -
        (unat (0x8FFC :: 64 word) + 13) mod 4096 + 4096"
    and r3: "\<forall>a. hook_byte (0x8FFC :: 64 word) a \<or> hook_byte (0x8FFC :: 64 word) a \<longrightarrow>
        in_range area3 bytes3 a"
    by blast
  have c3': "mprotect_calls (machine_of (setup_hook_with_perms 0x8FFC 0x9200 True nop_machine)) =
        (area3, bytes3, {PROT_READ, PROT_WRITE, PROT_EXEC}) # rest3"
    using c3 by (simp add: nop_machine_def)
  have a3': "unat area3 = 0x8000" using a3 by (simp add: example_symbols_def)
  have e3': "unat area3 + unat bytes3 = 0xA000" using e3 by (simp add: example_symbols_def)
  have u3: "unat area3 + unat bytes3 = spec_page_round_up 0x9009"
    using e3' by (simp add: spec_page_round_up_def)
  have i3: "in_range area3 bytes3 0x9003" using r3 bs by blast
  have w3: "(\<exists>area bytes rest.
      mprotect_calls (machine_of (setup_hook_with_perms 0x8FFC 0x9200 True nop_machine)) =
        (area, bytes, {PROT_READ, PROT_WRITE, PROT_EXEC}) # rest \<and>
      unat area = 0x8000 \<and> unat area + unat bytes = 0xA000 \<and>
      unat area + unat bytes = spec_page_round_up 0x9009 \<and> in_range area bytes 0x9003)"
    using c3' a3' e3' u3 i3 by blast
  show ?thesis
    using hm bm w1 hb bb w2 hs bs w3 by (intro conjI) simp_all
qed

section \<open>Nested-call tracker\<close>

subsection \<open>Single transitions\<close>

lemma handle_generic_entry_Done:
  assumes "\<not> xtrace_ignore cfg"
    and "0 \<le> current_level (nested_call s)" and "current_level (nested_call s) < 64"
  shows "\<exists>s'. handle_generic_entry cfg rt defs type nr args s = Done s' \<and>
           current_level (nested_call s') = current_level (nested_call s) + 1 \<and>
           previous_level (nested_call s') = current_level (nested_call s)"
  using assms by (simp add: handle_generic_entry_def Let_def xtrace_log_def)

lemma handle_generic_exit_Done:
  assumes "\<not> xtrace_ignore cfg"
    and "0 < current_level (nested_call s)" and "current_level (nested_call s) \<le> 64"
  shows "\<exists>s'. handle_generic_exit cfg rt defs type retval force_split s = Done s' \<and>
           current_level (nested_call s') = current_level (nested_call s) - 1 \<and>
           previous_level (nested_call s') = current_level (nested_call s)"
  using assms by (simp add: handle_generic_exit_def Let_def xtrace_log_def)

lemma handle_generic_entry_levels:
  assumes "\<not> xtrace_ignore cfg"
    and "handle_generic_entry cfg rt defs type nr args s = Done s'"
  shows "previous_level (nested_call s') = current_level (nested_call s) \<and>
         current_level (nested_call s') = current_level (nested_call s) + 1"
  using assms
  by (auto simp add: handle_generic_entry_def Let_def xtrace_log_def split: if_splits)

lemma handle_generic_exit_levels:
  assumes "\<not> xtrace_ignore cfg"
  shows "previous_level (nested_call (state_of (handle_generic_exit cfg rt defs type retval force_split s)))
           = current_level (nested_call s) \<and>
         current_level (nested_call (state_of (handle_generic_exit cfg rt defs type retval force_split s)))
           = current_level (nested_call s) - 1"
  using assms by (simp add: handle_generic_exit_def Let_def xtrace_log_def)

subsection \<open>C4: the two levels after a transition\<close>

text \<open>
  C4: with the suppression flag cleared, after every Entry transition \<open>previous_level\<close>
  equals the pre-transition \<open>current_level\<close> and is strictly less than the new
  \<open>current_level\<close>; after every Exit transition \<open>previous_level\<close> equals the pre-transition
  \<open>current_level\<close> and is strictly greater than the new \<open>current_level\<close> (for Exit also in
  the state in which an out-of-range slot is read). An Entry at a level within
  \<open>0 .. 63\<close> and an Exit at a level within \<open>1 .. 64\<close> complete.
\<close>

theorem C4_previous_level_relation:
  assumes "\<not> xtrace_ignore cfg"
  shows "(handle_generic_entry cfg rt defs type nr args s = Done s' \<longrightarrow>
            previous_level (nested_call s') = current_level (nested_call s) \<and>
            previous_level (nested_call s') < current_level (nested_call s')) \<and>
         (handle_generic_exit cfg rt defs type retval force_split s = Done s'' \<or>
          handle_generic_exit cfg rt defs type retval force_split s = Undefined f s'' \<longrightarrow>
            previous_level (nested_call s'') = current_level (nested_call s) \<and>
            previous_level (nested_call s'') > current_level (nested_call s'')) \<and>
         (0 \<le> current_level (nested_call s) \<and> current_level (nested_call s) < 64 \<longrightarrow>
            is_Done (handle_generic_entry cfg rt defs type nr args s)) \<and>
         (0 < current_level (nested_call s) \<and> current_level (nested_call s) \<le> 64 \<longrightarrow>
            is_Done (handle_generic_exit cfg rt defs type retval force_split s))"
proof (intro conjI impI)
  assume "handle_generic_entry cfg rt defs type nr args s = Done s'"
  then have l: "previous_level (nested_call s') = current_level (nested_call s) \<and>
         current_level (nested_call s') = current_level (nested_call s) + 1"
    using assms by (intro handle_generic_entry_levels)
  from l show "previous_level (nested_call s') = current_level (nested_call s)" by simp
  from l show "previous_level (nested_call s') < current_level (nested_call s')" by simp
next
  assume x: "handle_generic_exit cfg rt defs type retval force_split s = Done s'' \<or>
      handle_generic_exit cfg rt defs type retval force_split s = Undefined f s''"
  then have "state_of (handle_generic_exit cfg rt defs type retval force_split s) = s''"
    by auto
  then have l: "previous_level (nested_call s'') = current_level (nested_call s) \<and>
         current_level (nested_call s'') = current_level (nested_call s) - 1"
    using handle_generic_exit_levels [OF assms, of rt defs type retval force_split s] by simp
  from l show "previous_level (nested_call s'') = current_level (nested_call s)" by simp
  from l show "current_level (nested_call s'') < previous_level (nested_call s'')" by simp
next
  assume "0 \<le> current_level (nested_call s) \<and> current_level (nested_call s) < 64"
  then show "is_Done (handle_generic_entry cfg rt defs type nr args s)"
    using handle_generic_entry_Done [OF assms, of s rt defs type nr args] by auto
next
  assume "0 < current_level (nested_call s) \<and> current_level (nested_call s) \<le> 64"
  then show "is_Done (handle_generic_exit cfg rt defs type retval force_split s)"
    using handle_generic_exit_Done [OF assms, of s rt defs type retval force_split] by auto
qed

theorem C4_previous_level_relation_witness:
  "\<not> xtrace_ignore tracing_config \<and>
   is_Done (handle_generic_entry tracing_config example_runtime example_defs ''bsd'' 4 []
      initial_thread_state) \<and>
   previous_level (nested_call (state_of (handle_generic_entry tracing_config example_runtime
      example_defs ''bsd'' 4 [] initial_thread_state))) = 0 \<and>
   current_level (nested_call (state_of (handle_generic_entry tracing_config example_runtime
      example_defs ''bsd'' 4 [] initial_thread_state))) = 1 \<and>
   is_Done (handle_generic_exit tracing_config example_runtime example_defs ''bsd'' 3 False
      (state_of (handle_generic_entry tracing_config example_runtime example_defs ''bsd'' 4 []
         initial_thread_state))) \<and>
   previous_level (nested_call (state_of (handle_generic_exit tracing_config example_runtime
      example_defs ''bsd'' 3 False
      (state_of (handle_generic_entry tracing_config example_runtime example_defs ''bsd'' 4 []
         initial_thread_state))))) = 1 \<and>
   current_level (nested_call (state_of (handle_generic_exit tracing_config example_runtime
      example_defs ''bsd'' 3 False
      (state_of (handle_generic_entry tracing_config example_runtime example_defs ''bsd'' 4 []
         initial_thread_state))))) = 0"
proof -
  let ?e = "handle_generic_entry tracing_config example_runtime example_defs ''bsd'' 4 []
      initial_thread_state"
  let ?x = "handle_generic_exit tracing_config example_runtime example_defs ''bsd'' 3 False
      (state_of ?e)"
  have c: "\<not> xtrace_ignore tracing_config" by (simp add: tracing_config_def)
  have l0: "current_level (nested_call initial_thread_state) = 0"
    by (simp add: initial_thread_state_def)
  have d1: "is_Done ?e"
    using C4_previous_level_relation [OF c, of example_runtime example_defs "''bsd''" 4 "[]"
        initial_thread_state undefined 3 False undefined undefined] l0
    by simp
  then have e: "?e = Done (state_of ?e)" by (cases ?e) simp_all
  have r1: "previous_level (nested_call (state_of ?e)) = 0 \<and>
      previous_level (nested_call (state_of ?e)) < current_level (nested_call (state_of ?e))"
    using C4_previous_level_relation [OF c, of example_runtime example_defs "''bsd''" 4 "[]"
        initial_thread_state "state_of ?e" 3 False undefined undefined] e l0
    by simp
  have l1: "current_level (nested_call (state_of ?e)) = 1"
    using handle_generic_entry_levels [OF c e] l0 by simp
  have d2: "is_Done ?x"
    using C4_previous_level_relation [OF c, of example_runtime example_defs "''bsd''" 4 "[]"
        "state_of ?e" undefined 3 False undefined undefined] l1
    by simp
  then have x: "?x = Done (state_of ?x)" by (cases ?x) simp_all
  have r2: "previous_level (nested_call (state_of ?x)) = current_level (nested_call (state_of ?e)) \<and>
      previous_level (nested_call (state_of ?x)) > current_level (nested_call (state_of ?x))"
    using C4_previous_level_relation [OF c, of example_runtime example_defs "''bsd''" 4 "[]"
        "state_of ?e" undefined 3 False "state_of ?x" undefined] x
    by simp
  have l2: "current_level (nested_call (state_of ?x)) = 0"
    using handle_generic_exit_levels [OF c, of example_runtime example_defs "''bsd''" 3 False
        "state_of ?e"] l1 by simp
  show ?thesis using c d1 r1 l1 d2 r2 l2 by simp
qed

subsection \<open>C3: the level along a sequence of transitions\<close>

lemma entries_Cons: "entries (e # es) = (if is_Entry e then 1 else 0) + entries es"
  by (simp add: entries_def)

lemma exits_Cons: "exits (e # es) = (if is_Entry e then 0 else 1) + exits es"
  by (simp add: exits_def)

lemma entries_Nil: "entries [] = 0"
  by (simp add: entries_def)

lemma exits_Nil: "exits [] = 0"
  by (simp add: exits_def)

lemma transition_Done:
  assumes "\<not> xtrace_ignore cfg"
    and "0 \<le> current_level (nested_call s)" and "current_level (nested_call s) \<le> 64"
    and "0 \<le> current_level (nested_call s) + (if is_Entry e then 1 else - 1)"
    and "current_level (nested_call s) + (if is_Entry e then 1 else - 1) \<le> 64"
  shows "\<exists>s'. transition cfg rt e s = Done s' \<and>
           current_level (nested_call s') =
             current_level (nested_call s) + (if is_Entry e then 1 else - 1)"
proof (cases e)
  case (Entry defs type nr args)
  then have "current_level (nested_call s) < 64" using assms(5) by simp
  then show ?thesis
    using Entry handle_generic_entry_Done [OF assms(1) assms(2), of rt defs type nr args]
    by auto
next
  case (Exit defs type retval force_split)
  then have "0 < current_level (nested_call s)" using assms(4) by simp
  then show ?thesis
    using Exit handle_generic_exit_Done [OF assms(1) _ assms(3), of rt defs type retval force_split]
    by auto
qed

lemma run_within_capacity:
  assumes "\<not> xtrace_ignore cfg"
    and "\<forall>k\<le>length es.
           0 \<le> current_level (nested_call s) + entries (take k es) - exits (take k es) \<and>
           current_level (nested_call s) + entries (take k es) - exits (take k es) \<le> 64"
  shows "\<exists>s'. run cfg rt es s = Done s' \<and>
           current_level (nested_call s') =
             current_level (nested_call s) + entries es - exits es"
  using assms(2)
proof (induction es arbitrary: s)
  case Nil
  then show ?case by (simp add: entries_Nil exits_Nil)
next
  case (Cons e es)
  let ?d = "if is_Entry e then 1 else - 1 :: int"
  have k0: "0 \<le> current_level (nested_call s) \<and> current_level (nested_call s) \<le> 64"
    using Cons.prems [rule_format, of 0] by (simp add: entries_Nil exits_Nil)
  have k1: "0 \<le> current_level (nested_call s) + ?d \<and> current_level (nested_call s) + ?d \<le> 64"
    using Cons.prems [rule_format, of 1]
    by (cases "is_Entry e") (simp_all add: entries_Cons exits_Cons entries_Nil exits_Nil)
  obtain s1 where s1: "transition cfg rt e s = Done s1"
    "current_level (nested_call s1) = current_level (nested_call s) + ?d"
    using transition_Done [OF assms(1), of s e rt] k0 k1 by blast
  have "\<forall>k\<le>length es.
           0 \<le> current_level (nested_call s1) + entries (take k es) - exits (take k es) \<and>
           current_level (nested_call s1) + entries (take k es) - exits (take k es) \<le> 64"
  proof (intro allI impI)
    fix k assume "k \<le> length es"
    then have "Suc k \<le> length (e # es)" by simp
    from Cons.prems [rule_format, OF this]
    show "0 \<le> current_level (nested_call s1) + entries (take k es) - exits (take k es) \<and>
           current_level (nested_call s1) + entries (take k es) - exits (take k es) \<le> 64"
      by (cases "is_Entry e") (simp_all add: s1(2) entries_Cons exits_Cons)
  qed
  from Cons.IH [OF this]
  obtain s' where "run cfg rt es s1 = Done s'"
    "current_level (nested_call s') = current_level (nested_call s1) + entries es - exits es"
    by blast
  then show ?case
    using s1 by (cases "is_Entry e") (simp_all add: entries_Cons exits_Cons)
qed

text \<open>
  C3, as stated, fails: an Exit at level 0 is a sequence of transitions, and it drives
  \<open>current_level\<close> to -1, after which the handler reads \<^verbatim>\<open>nrs[-1]\<close>.
\<close>

theorem C3_exit_at_level_zero_counterexample:
  "\<not> xtrace_ignore tracing_config \<and>
   \<not> is_Done (run tracing_config example_runtime [Exit example_defs ''bsd'' 3 False]
      initial_thread_state) \<and>
   current_level (nested_call (state_of (run tracing_config example_runtime
      [Exit example_defs ''bsd'' 3 False] initial_thread_state))) = - 1"
  by (simp add: tracing_config_def initial_thread_state_def handle_generic_exit_def Let_def)

text \<open>
  C3, amended: for any sequence of Entry and Exit transitions executed on one thread with
  the suppression flag cleared, starting at level 0, in which no prefix has more Exits than
  Entries and the nesting depth stays within the 64 slots of \<^verbatim>\<open>nrs\<close>, every prefix of the
  sequence runs to completion, \<open>current_level\<close> after it equals the number of Entries
  minus the number of Exits of that prefix, and that level is never negative.
\<close>

theorem C3_level_counts_open_calls:
  assumes "\<not> xtrace_ignore cfg"
    and "current_level (nested_call s) = 0"
    and "\<forall>k\<le>length es. exits (take k es) \<le> entries (take k es) \<and>
           entries (take k es) - exits (take k es) \<le> 64"
  shows "\<forall>k\<le>length es. \<exists>s'.
           run cfg rt (take k es) s = Done s' \<and>
           current_level (nested_call s') = entries (take k es) - exits (take k es) \<and>
           0 \<le> current_level (nested_call s')"
proof (intro allI impI)
  fix k assume k: "k \<le> length es"
  have "\<forall>j\<le>length (take k es).
           0 \<le> current_level (nested_call s) + entries (take j (take k es)) - exits (take j (take k es)) \<and>
           current_level (nested_call s) + entries (take j (take k es)) - exits (take j (take k es)) \<le> 64"
  proof (intro allI impI)
    fix j assume "j \<le> length (take k es)"
    then have j: "j \<le> k" "j \<le> length es" using k by simp_all
    then have "take j (take k es) = take j es" by (simp add: min_def)
    then show "0 \<le> current_level (nested_call s) + entries (take j (take k es)) - exits (take j (take k es)) \<and>
           current_level (nested_call s) + entries (take j (take k es)) - exits (take j (take k es)) \<le> 64"
      using assms(3) [rule_format, OF j(2)] assms(2) by simp
  qed
  from run_within_capacity [OF assms(1) this]
  obtain s' where s': "run cfg rt (take k es) s = Done s'"
    "current_level (nested_call s') =
       current_level (nested_call s) + entries (take k es) - exits (take k es)"
    by blast
  then show "\<exists>s'. run cfg rt (take k es) s = Done s' \<and>
           current_level (nested_call s') = entries (take k es) - exits (take k es) \<and>
           0 \<le> current_level (nested_call s')"
    using assms(2) assms(3) [rule_format, OF k] by simp
qed

theorem C3_level_counts_open_calls_witness:
  "\<not> xtrace_ignore tracing_config \<and>
   current_level (nested_call initial_thread_state) = 0 \<and>
   exits (take 2 nested_calls) \<le> entries (take 2 nested_calls) \<and>
   entries (take 2 nested_calls) - exits (take 2 nested_calls) \<le> 64 \<and>
   (\<exists>s'. run tracing_config example_runtime (take 2 nested_calls) initial_thread_state = Done s' \<and>
      current_level (nested_call s') = 2 \<and> 0 \<le> current_level (nested_call s')) \<and>
   (\<exists>s'. run tracing_config example_runtime (take 4 nested_calls) initial_thread_state = Done s' \<and>
      current_level (nested_call s') = 0 \<and> 0 \<le> current_level (nested_call s'))"
proof -
  have c: "\<not> xtrace_ignore tracing_config" by (simp add: tracing_config_def)
  have l: "current_level (nested_call initial_thread_state) = 0"
    by (simp add: initial_thread_state_def)
  have len: "length nested_calls = 4" by (simp add: nested_calls_def)
  have b: "\<forall>k\<le>length nested_calls. exits (take k nested_calls) \<le> entries (take k nested_calls) \<and>
      entries (take k nested_calls) - exits (take k nested_calls) \<le> 64"
  proof (intro allI impI)
    fix k assume "k \<le> length nested_calls"
    then have "k = 0 \<or> k = 1 \<or> k = 2 \<or> k = 3 \<or> k = 4" using len by arith
    then show "exits (take k nested_calls) \<le> entries (take k nested_calls) \<and>
      entries (take k nested_calls) - exits (take k nested_calls) \<le> 64"
      by (elim disjE) (simp_all add: nested_calls_def entries_def exits_def)
  qed
  have n2: "entries (take 2 nested_calls) = 2 \<and> exits (take 2 nested_calls) = 0"
    by (simp add: nested_calls_def entries_def exits_def)
  have n4: "entries (take 4 nested_calls) = 2 \<and> exits (take 4 nested_calls) = 2"
    by (simp add: nested_calls_def entries_def exits_def)
  note w = C3_level_counts_open_calls [OF c l b, of example_runtime, rule_format]
  have w2: "\<exists>s'. run tracing_config example_runtime (take 2 nested_calls) initial_thread_state = Done s' \<and>
      current_level (nested_call s') = 2 \<and> 0 \<le> current_level (nested_call s')"
    using w [of 2] n2 len by simp
  have w4: "\<exists>s'. run tracing_config example_runtime (take 4 nested_calls) initial_thread_state = Done s' \<and>
      current_level (nested_call s') = 0 \<and> 0 \<le> current_level (nested_call s')"
    using w [of 4] n4 len by simp
  show ?thesis using c l n2 w2 w4 by simp
qed

subsection \<open>C7: one call, one line\<close>












section \<open>Environment block\<close>

subsection \<open>Blocks\<close>

lemma poke_inside:
  "i < length (cells b) \<Longrightarrow> poke i c b = b\<lparr>cells := (cells b)[i := c]\<rparr>"
  by (simp add: poke_def)

lemma poke_outside:
  "length (cells b) \<le> i \<Longrightarrow> poke i c b = b\<lparr>overrun := overrun b @ [(i, c)]\<rparr>"
  by (simp add: poke_def)

lemma memcpy_from_inside:
  "off + length src \<le> length (cells b) \<Longrightarrow>
   memcpy_from b off src =
     b\<lparr>cells := take off (cells b) @ src @ drop (off + length src) (cells b)\<rparr>"
proof (induction src arbitrary: b off)
  case Nil
  then show ?case by simp
next
  case (Cons c cs)
  then have lt: "off < length (cells b)" by simp
  let ?b1 = "b\<lparr>cells := (cells b)[off := c]\<rparr>"
  have p: "poke off c b = ?b1" using lt by (rule poke_inside)
  have "Suc off + length cs \<le> length (cells ?b1)" using Cons.prems by simp
  then have "memcpy_from ?b1 (Suc off) cs =
      ?b1\<lparr>cells := take (Suc off) (cells ?b1) @ cs @ drop (Suc off + length cs) (cells ?b1)\<rparr>"
    by (rule Cons.IH)
  moreover have "take (Suc off) ((cells b)[off := c]) = take off (cells b) @ [c]"
    using lt by (simp add: take_Suc_conv_app_nth)
  moreover have "drop (Suc off + length cs) ((cells b)[off := c]) =
      drop (Suc off + length cs) (cells b)"
    by simp
  ultimately show ?case using p by simp
qed

lemma memcpy_from_fill:
  "memcpy_from \<lparr>cells = pre @ replicate (length src) None @ rest, overrun = ov\<rparr> (length pre) src =
     \<lparr>cells = pre @ src @ rest, overrun = ov\<rparr>"
proof -
  let ?b = "\<lparr>cells = pre @ replicate (length src) None @ rest, overrun = ov\<rparr>"
  have "length pre + length src \<le> length (cells ?b)" by simp
  then have "memcpy_from ?b (length pre) src =
      ?b\<lparr>cells := take (length pre) (cells ?b) @ src @ drop (length pre + length src) (cells ?b)\<rparr>"
    by (rule memcpy_from_inside)
  then show ?thesis by simp
qed

lemma replicate_entry:
  "replicate (k + v + 2) x = replicate k x @ x # replicate v x @ [x]"
proof -
  have "k + v + 2 = k + (Suc v + 1)" by simp
  then have "replicate (k + v + 2) x = replicate k x @ replicate (Suc v) x @ replicate 1 x"
    by (simp only: replicate_add)
  then show ?thesis by simp
qed

text \<open>
  What \<^verbatim>\<open>envp_make_entry\<close> builds, for every key and value: the block holds the
  characters of \<open>key=value\<close> followed by one byte that is never written, and the
  terminator is written at offset \<open>key_length + value_length + 2\<close>, one past the last
  byte of the block.
\<close>

lemma envp_make_entry_eq:
  "envp_make_entry key v =
     \<lparr>cells = map Some (key @ CHR ''='' # v) @ [None],
      overrun = [(length key + length v + 2, Some NUL)]\<rparr>"
proof -
  let ?k = "length key" and ?v = "length v"
  let ?K = "map Some key" and ?V = "map Some v"
  have b0: "xtrace_malloc (?k + ?v + 2) =
      \<lparr>cells = [] @ replicate (length ?K) None @ (None # replicate ?v None @ [None]), overrun = []\<rparr>"
    unfolding xtrace_malloc_def replicate_entry by simp
  have b1: "memcpy (xtrace_malloc (?k + ?v + 2)) 0 ?K ?k =
      \<lparr>cells = ?K @ None # replicate ?v None @ [None], overrun = []\<rparr>"
    unfolding b0 memcpy_def using memcpy_from_fill [of "[]" ?K "None # replicate ?v None @ [None]" "[]"]
    by simp
  have b2: "poke ?k (Some CHR ''='')
        \<lparr>cells = ?K @ None # replicate ?v None @ [None], overrun = []\<rparr> =
      \<lparr>cells = (?K @ [Some CHR ''='']) @ replicate (length ?V) None @ [None], overrun = []\<rparr>"
    by (simp add: poke_def list_update_append)
  have b3: "memcpy \<lparr>cells = (?K @ [Some CHR ''='']) @ replicate (length ?V) None @ [None], overrun = []\<rparr>
        (?k + 1) ?V ?v =
      \<lparr>cells = (?K @ [Some CHR ''='']) @ ?V @ [None], overrun = []\<rparr>"
    unfolding memcpy_def using memcpy_from_fill [of "?K @ [Some CHR ''='']" ?V "[None]" "[]"]
    by simp
  have b4: "poke (?k + ?v + 2) (Some NUL)
        \<lparr>cells = (?K @ [Some CHR ''='']) @ ?V @ [None], overrun = []\<rparr> =
      \<lparr>cells = (?K @ [Some CHR ''='']) @ ?V @ [None], overrun = [(?k + ?v + 2, Some NUL)]\<rparr>"
    by (simp add: poke_def)
  show ?thesis
    unfolding envp_make_entry_def Let_def b1 b2 b3 b4 by simp
qed

subsection \<open>Reading strings\<close>

lemma c_str_terminated:
  "NUL \<notin> set s \<Longrightarrow> c_str (map Some s @ Some NUL # rest) = Inr s"
  by (induction s) auto

lemma c_str_unterminated:
  "NUL \<notin> set s \<Longrightarrow> c_str (map Some s @ [None]) = Inl Uninitialised"
  by (induction s) auto

lemma strchr_found:
  "c \<notin> set s \<Longrightarrow> NUL \<notin> set s \<Longrightarrow> strchr (map Some s @ Some c # rest) c = Inr (Some (length s))"
  by (induction s) auto

lemma strchr_Suc_D:
  assumes "strchr e c = Inr (Some (Suc n))"
  shows "\<exists>x rest. e = Some x # rest \<and> x \<noteq> c \<and> x \<noteq> NUL \<and> strchr rest c = Inr (Some n)"
proof (cases e)
  case Nil
  then show ?thesis using assms by simp
next
  case (Cons p rest)
  show ?thesis
  proof (cases p)
    case None
    then show ?thesis using assms Cons by simp
  next
    case (Some x)
    then show ?thesis
      using assms Cons
      by (auto split: if_splits sum.splits option.splits)
  qed
qed

lemma strncmp_eq_prefix:
  "strchr e c = Inr (Some (length key)) \<Longrightarrow>
   strncmp_eq key e (length key) = Inr (take (length key) e = map Some key)"
proof (induction key arbitrary: e)
  case Nil
  then show ?case by simp
next
  case (Cons k ks)
  then have "strchr e c = Inr (Some (Suc (length ks)))" by simp
  then obtain x rest where e: "e = Some x # rest" "x \<noteq> c" "x \<noteq> NUL"
    "strchr rest c = Inr (Some (length ks))"
    using strchr_Suc_D by blast
  have "strncmp_eq ks rest (length ks) = Inr (take (length ks) rest = map Some ks)"
    using e(4) by (rule Cons.IH)
  then show ?case using e by auto
qed

lemma strchr_prefix_clean:
  "strchr e c = Inr (Some (length s)) \<Longrightarrow> take (length s) e = map Some s \<Longrightarrow>
   c \<notin> set s \<and> NUL \<notin> set s"
proof (induction s arbitrary: e)
  case Nil
  then show ?case by simp
next
  case (Cons k ks)
  then have "strchr e c = Inr (Some (Suc (length ks)))" by simp
  then obtain x rest where e: "e = Some x # rest" "x \<noteq> c" "x \<noteq> NUL"
    "strchr rest c = Inr (Some (length ks))"
    using strchr_Suc_D by blast
  have t: "x = k" "take (length ks) rest = map Some ks"
    using Cons.prems(2) e(1) by simp_all
  have "c \<notin> set ks \<and> NUL \<notin> set ks" using e(4) t(2) by (rule Cons.IH)
  then show ?case using e(2,3) t(1) by auto
qed

text \<open>The comparison \<^verbatim>\<open>envp_find\<close> makes on one entry decides whether it has the key.\<close>

lemma entry_match:
  assumes "strchr e CHR ''='' = Inr (Some k)"
  shows "(if k \<noteq> length key then Inr False else strncmp_eq key e (length key)) =
         Inr (entry_has_key key e)"
proof (cases "k = length key")
  case True
  then have "strncmp_eq key e (length key) = Inr (take (length key) e = map Some key)"
    using assms by (intro strncmp_eq_prefix) simp
  then show ?thesis using True assms by (simp add: entry_has_key_def)
next
  case False
  then show ?thesis using assms by (simp add: entry_has_key_def)
qed

lemma made_entry_has_key:
  assumes "CHR ''='' \<notin> set key" "NUL \<notin> set key"
  shows "entry_has_key key (cells (envp_make_entry key v))"
proof -
  have "cells (envp_make_entry key v) = map Some key @ Some CHR ''='' # (map Some v @ [None])"
    by (simp add: envp_make_entry_eq)
  then show ?thesis
    using strchr_found [OF assms, of "map Some v @ [None]"]
    by (simp add: entry_has_key_def)
qed

subsection \<open>Searching the array\<close>

lemma envp_slots_Nil: "envp_slots [] = []"
  by (simp add: envp_slots_def)

lemma envp_slots_None: "envp_slots (None # rest) = []"
  by (simp add: envp_slots_def)

lemma envp_slots_Some: "envp_slots (Some e # rest) = Some e # envp_slots rest"
  by (simp add: envp_slots_def)

lemma well_formed_envp_Some:
  "well_formed_envp (Some e # rest) =
     (slot_has_equals (Some e) \<and> well_formed_envp rest)"
  by (auto simp add: well_formed_envp_def envp_slots_Some)

lemma not_well_formed_Nil: "\<not> well_formed_envp []"
  by (simp add: well_formed_envp_def)

lemma slot_has_equals_D:
  "slot_has_equals (Some e) \<Longrightarrow> \<exists>k. strchr e CHR ''='' = Inr (Some k)"
  by (auto simp add: slot_has_equals_def split: sum.splits option.splits)

lemma envp_count_slots:
  "well_formed_envp arr \<Longrightarrow> envp_count arr = Inr (length (envp_slots arr))"
proof (induction arr)
  case Nil
  then show ?case by (simp add: not_well_formed_Nil)
next
  case (Cons p rest)
  show ?case
  proof (cases p)
    case None
    then show ?thesis by (simp add: envp_slots_None)
  next
    case (Some e)
    then have "well_formed_envp rest" using Cons.prems by (simp add: well_formed_envp_Some)
    then have "envp_count rest = Inr (length (envp_slots rest))" by (rule Cons.IH)
    then show ?thesis using Some by (simp add: envp_slots_Some)
  qed
qed

lemma envp_find_absent:
  "well_formed_envp arr \<Longrightarrow> \<not> key_present key arr \<Longrightarrow> envp_find arr key = Inr None"
proof (induction arr)
  case Nil
  then show ?case by (simp add: not_well_formed_Nil)
next
  case (Cons p rest)
  show ?case
  proof (cases p)
    case None
    then show ?thesis by simp
  next
    case (Some e)
    have wf: "slot_has_equals (Some e)" "well_formed_envp rest"
      using Cons.prems(1) Some by (simp_all add: well_formed_envp_Some)
    obtain k where k: "strchr e CHR ''='' = Inr (Some k)"
      using slot_has_equals_D [OF wf(1)] by blast
    have no: "\<not> entry_has_key key e" "\<not> key_present key rest"
      using Cons.prems(2) Some
      by (simp_all add: key_present_def envp_slots_Some slot_has_key_def)
    have "envp_find rest key = Inr None" using wf(2) no(2) by (rule Cons.IH)
    then show ?thesis
      using Some k no(1) entry_match [OF k, of key] by simp
  qed
qed

lemma envp_find_present:
  "well_formed_envp arr \<Longrightarrow> key_present key arr \<Longrightarrow>
   \<exists>i. envp_find arr key = Inr (Some i) \<and> i < length (envp_slots arr) \<and>
       slot_has_key key (arr ! i) \<and> (\<forall>j<i. \<not> slot_has_key key (arr ! j))"
proof (induction arr)
  case Nil
  then show ?case by (simp add: not_well_formed_Nil)
next
  case (Cons p rest)
  show ?case
  proof (cases p)
    case None
    then show ?thesis using Cons.prems(2) by (simp add: key_present_def envp_slots_None)
  next
    case (Some e)
    have wf: "slot_has_equals (Some e)" "well_formed_envp rest"
      using Cons.prems(1) Some by (simp_all add: well_formed_envp_Some)
    obtain k where k: "strchr e CHR ''='' = Inr (Some k)"
      using slot_has_equals_D [OF wf(1)] by blast
    show ?thesis
    proof (cases "entry_has_key key e")
      case True
      then have "envp_find (Some e # rest) key = Inr (Some 0)"
        using k entry_match [OF k, of key] by simp
      then show ?thesis
        using Some True by (simp add: envp_slots_Some slot_has_key_def)
    next
      case False
      then have "key_present key rest"
        using Cons.prems(2) Some by (simp add: key_present_def envp_slots_Some slot_has_key_def)
      with wf(2) obtain i where i: "envp_find rest key = Inr (Some i)"
        "i < length (envp_slots rest)" "slot_has_key key (rest ! i)"
        "\<forall>j<i. \<not> slot_has_key key (rest ! j)"
        using Cons.IH by blast
      have f: "envp_find (Some e # rest) key = Inr (Some (Suc i))"
        using k False entry_match [OF k, of key] i(1) by simp
      have "\<forall>j<Suc i. \<not> slot_has_key key ((Some e # rest) ! j)"
      proof (intro allI impI)
        fix j assume "j < Suc i"
        then show "\<not> slot_has_key key ((Some e # rest) ! j)"
          using False i(4) by (cases j) (simp_all add: slot_has_key_def)
      qed
      then show ?thesis
        using Some f i(2,3) by (simp add: envp_slots_Some)
    qed
  qed
qed

lemma envp_slots_take: "take (length (envp_slots arr)) arr = envp_slots arr"
  unfolding envp_slots_def by (rule takeWhile_eq_take [symmetric])

lemma envp_slots_all_Some: "p \<in> set (envp_slots arr) \<Longrightarrow> p \<noteq> None"
  unfolding envp_slots_def by (auto dest: set_takeWhileD)

lemma envp_slots_grown:
  "envp_slots (envp_slots arr @ [Some e, None]) = envp_slots arr @ [Some e]"
proof -
  have "\<And>p. p \<in> set (envp_slots arr) \<Longrightarrow> p \<noteq> None" by (rule envp_slots_all_Some)
  then have "takeWhile (\<lambda>p. p \<noteq> None) (envp_slots arr @ [Some e, None]) =
      envp_slots arr @ takeWhile (\<lambda>p. p \<noteq> None) [Some e, None]"
    by (intro takeWhile_append2) simp
  then show ?thesis by (simp add: envp_slots_def)
qed

lemma envp_slots_update:
  assumes "i < length (envp_slots arr)"
  shows "envp_slots (arr[i := Some e]) = (envp_slots arr)[i := Some e]"
  using assms
proof (induction arr arbitrary: i)
  case Nil
  then show ?case by (simp add: envp_slots_Nil)
next
  case (Cons p rest)
  show ?case
  proof (cases p)
    case None
    then show ?thesis using Cons.prems by (simp add: envp_slots_None)
  next
    case (Some x)
    show ?thesis
    proof (cases i)
      case 0
      then show ?thesis using Some by (simp add: envp_slots_Some)
    next
      case (Suc j)
      then have "j < length (envp_slots rest)"
        using Cons.prems Some by (simp add: envp_slots_Some)
      then have "envp_slots (rest[j := Some e]) = (envp_slots rest)[j := Some e]"
        by (rule Cons.IH)
      then show ?thesis using Some Suc by (simp add: envp_slots_Some)
    qed
  qed
qed

lemma envp_slots_nth:
  "i < length (envp_slots arr) \<Longrightarrow> envp_slots arr ! i = arr ! i"
  unfolding envp_slots_def by (rule takeWhile_nth)

lemma count_after_update:
  "i < length xs \<Longrightarrow> P (xs ! i) \<Longrightarrow> P y \<Longrightarrow>
   length (filter P (xs[i := y])) = length (filter P xs)"
proof (induction xs arbitrary: i)
  case Nil
  then show ?case by simp
next
  case (Cons x xs)
  show ?case
  proof (cases i)
    case 0
    then show ?thesis using Cons.prems by simp
  next
    case (Suc j)
    then have "length (filter P (xs[j := y])) = length (filter P xs)"
      using Cons.prems by (intro Cons.IH) simp_all
    then show ?thesis using Suc by simp
  qed
qed

subsection \<open>The three branches of \<^verbatim>\<open>envp_set\<close>\<close>

lemma envp_set_null:
  assumes "envp st = None"
  shows "envp_set key v st =
     Inr (st\<lparr>arrays := (arrays st)(next_array st \<mapsto> [Some (cells (envp_make_entry key v)), None]),
            next_array := Suc (next_array st),
            envp := Some (next_array st),
            allocated := True,
            overruns := overruns st @ overrun (envp_make_entry key v)\<rparr>)"
  using assms by (simp add: envp_set_def Let_def)

lemma envp_set_overwrites:
  assumes "envp st = Some a" "arrays st a = Some arr" "well_formed_envp arr"
    and "key_present key arr"
  shows "\<exists>i. i < length (envp_slots arr) \<and> slot_has_key key (arr ! i) \<and>
           (\<forall>j<i. \<not> slot_has_key key (arr ! j)) \<and>
           envp_set key v st =
             Inr (st\<lparr>arrays := (arrays st)(a \<mapsto> arr[i := Some (cells (envp_make_entry key v))]),
                    overruns := overruns st @ overrun (envp_make_entry key v)\<rparr>)"
proof -
  obtain i where i: "envp_find arr key = Inr (Some i)" "i < length (envp_slots arr)"
    "slot_has_key key (arr ! i)" "\<forall>j<i. \<not> slot_has_key key (arr ! j)"
    using envp_find_present [OF assms(3,4)] by blast
  have "envp_set key v st =
      Inr (st\<lparr>arrays := (arrays st)(a \<mapsto> arr[i := Some (cells (envp_make_entry key v))]),
             overruns := overruns st @ overrun (envp_make_entry key v)\<rparr>)"
    using assms(1,2) i(1) by (simp add: envp_set_def Let_def)
  then show ?thesis using i(2,3,4) by blast
qed

lemma envp_set_grows:
  assumes "envp st = Some a" "arrays st a = Some arr" "well_formed_envp arr"
    and "\<not> key_present key arr"
  shows "envp_set key v st =
     Inr (st\<lparr>arrays :=
              (if allocated st then ((arrays st)(next_array st \<mapsto> envp_slots arr))(a := None)
               else (arrays st)(next_array st \<mapsto> envp_slots arr))
                (next_array st \<mapsto> envp_slots arr @ [Some (cells (envp_make_entry key v)), None]),
            next_array := Suc (next_array st),
            envp := Some (next_array st),
            allocated := True,
            overruns := overruns st @ overrun (envp_make_entry key v)\<rparr>)"
proof -
  have f: "envp_find arr key = Inr None"
    using assms(3,4) by (rule envp_find_absent)
  have c: "envp_count arr = Inr (length (envp_slots arr))"
    using assms(3) by (rule envp_count_slots)
  show ?thesis
    using assms(1,2) f c by (simp add: envp_set_def Let_def envp_slots_take)
qed

lemma present_key_clean:
  assumes "i < length (envp_slots arr)" "slot_has_key key (arr ! i)"
  shows "CHR ''='' \<notin> set key \<and> NUL \<notin> set key"
proof -
  obtain e where e: "arr ! i = Some e" "entry_has_key key e"
    using assms(2) by (auto simp add: slot_has_key_def split: option.splits)
  then have "strchr e CHR ''='' = Inr (Some (length key))" "take (length key) e = map Some key"
    by (simp_all add: entry_has_key_def)
  then show ?thesis by (rule strchr_prefix_clean)
qed

subsection \<open>What \<^verbatim>\<open>envp_set\<close> does to the arrays\<close>

text \<open>
  On the arrays alone. When the block pointer is null, \<^verbatim>\<open>envp_set\<close> makes a new array
  of the entry and the null terminator. When the block is well formed and the key is
  present, the first entry with the key is overwritten in the caller's own array: the block
  pointer, the allocation state and every other array stay as they are, the array keeps its
  length and its number of entries, every other slot keeps its pointer, and the number of
  entries with that key does not change. When the key is absent, a new array holds the old
  pointers in their order, then the new entry, then the null terminator; the old array is
  freed if it had been allocated by an earlier call and left alone otherwise. Every one of
  these calls also writes one byte outside the new entry's block (\<open>overruns\<close>); what that
  byte hits is decided in memory.
\<close>

lemma envp_set_on_arrays:
  "(envp st = None \<longrightarrow>
      (\<exists>st'. envp_set key v st = Inr st' \<and> envp st' = Some (next_array st) \<and>
         arrays st' (next_array st) = Some [Some (cells (envp_make_entry key v)), None] \<and>
         (\<forall>b. b \<noteq> next_array st \<longrightarrow> arrays st' b = arrays st b))) \<and>
   (envp st = Some a \<and> arrays st a = Some arr \<and> well_formed_envp arr \<and> a < next_array st \<and>
    key_present key arr \<longrightarrow>
      (\<exists>st' i arr'.
         envp_set key v st = Inr st' \<and>
         envp st' = Some a \<and> next_array st' = next_array st \<and> allocated st' = allocated st \<and>
         arrays st' a = Some arr' \<and> (\<forall>b. b \<noteq> a \<longrightarrow> arrays st' b = arrays st b) \<and>
         i < length (envp_slots arr) \<and> slot_has_key key (arr ! i) \<and>
         (\<forall>j<i. \<not> slot_has_key key (arr ! j)) \<and>
         arr' = arr[i := Some (cells (envp_make_entry key v))] \<and>
         slot_has_key key (arr' ! i) \<and>
         length arr' = length arr \<and>
         length (envp_slots arr') = length (envp_slots arr) \<and>
         (\<forall>j. j \<noteq> i \<longrightarrow> arr' ! j = arr ! j) \<and>
         length (filter (slot_has_key key) (envp_slots arr')) =
           length (filter (slot_has_key key) (envp_slots arr)))) \<and>
   (envp st = Some a \<and> arrays st a = Some arr \<and> well_formed_envp arr \<and> a < next_array st \<and>
    \<not> key_present key arr \<longrightarrow>
      (\<exists>st' arr'.
         envp_set key v st = Inr st' \<and>
         envp st' = Some (next_array st) \<and> allocated st' \<and>
         arrays st' (next_array st) = Some arr' \<and>
         arrays st' a = (if allocated st then None else Some arr) \<and>
         (\<forall>b. b \<noteq> a \<and> b \<noteq> next_array st \<longrightarrow> arrays st' b = arrays st b) \<and>
         arr' = envp_slots arr @ [Some (cells (envp_make_entry key v)), None] \<and>
         length arr' = length (envp_slots arr) + 2 \<and>
         envp_slots arr' = envp_slots arr @ [Some (cells (envp_make_entry key v))] \<and>
         (\<forall>j<length (envp_slots arr). arr' ! j = arr ! j)))"
proof (intro conjI impI)
  assume "envp st = None"
  then show "\<exists>st'. envp_set key v st = Inr st' \<and> envp st' = Some (next_array st) \<and>
         arrays st' (next_array st) = Some [Some (cells (envp_make_entry key v)), None] \<and>
         (\<forall>b. b \<noteq> next_array st \<longrightarrow> arrays st' b = arrays st b)"
    by (simp add: envp_set_null)
next
  assume h: "envp st = Some a \<and> arrays st a = Some arr \<and> well_formed_envp arr \<and>
      a < next_array st \<and> key_present key arr"
  let ?new = "Some (cells (envp_make_entry key v))"
  from h obtain i where i: "i < length (envp_slots arr)" "slot_has_key key (arr ! i)"
    "\<forall>j<i. \<not> slot_has_key key (arr ! j)"
    and s: "envp_set key v st =
             Inr (st\<lparr>arrays := (arrays st)(a \<mapsto> arr[i := ?new]),
                    overruns := overruns st @ overrun (envp_make_entry key v)\<rparr>)"
    using envp_set_overwrites [of st a arr key v] by blast
  let ?arr' = "arr[i := ?new]"
  let ?st' = "st\<lparr>arrays := (arrays st)(a \<mapsto> ?arr'),
                    overruns := overruns st @ overrun (envp_make_entry key v)\<rparr>"
  have il: "i < length arr"
    using i(1) length_takeWhile_le [of "\<lambda>p. p \<noteq> None" arr]
    by (simp add: envp_slots_def)
  have clean: "CHR ''='' \<notin> set key \<and> NUL \<notin> set key"
    using i(1,2) by (rule present_key_clean)
  then have nk: "slot_has_key key ?new"
    using made_entry_has_key [of key v] by (simp add: slot_has_key_def)
  have sl: "envp_slots ?arr' = (envp_slots arr)[i := ?new]"
    using i(1) by (rule envp_slots_update)
  have ok: "slot_has_key key (envp_slots arr ! i)"
    using i(1,2) by (simp add: envp_slots_nth)
  have cnt: "length (filter (slot_has_key key) (envp_slots ?arr')) =
      length (filter (slot_has_key key) (envp_slots arr))"
    unfolding sl using i(1) ok nk by (rule count_after_update)
  have "envp_set key v st = Inr ?st' \<and>
         envp ?st' = Some a \<and> next_array ?st' = next_array st \<and> allocated ?st' = allocated st \<and>
         arrays ?st' a = Some ?arr' \<and> (\<forall>b. b \<noteq> a \<longrightarrow> arrays ?st' b = arrays st b) \<and>
         i < length (envp_slots arr) \<and> slot_has_key key (arr ! i) \<and>
         (\<forall>j<i. \<not> slot_has_key key (arr ! j)) \<and>
         ?arr' = arr[i := ?new] \<and>
         slot_has_key key (?arr' ! i) \<and>
         length ?arr' = length arr \<and>
         length (envp_slots ?arr') = length (envp_slots arr) \<and>
         (\<forall>j. j \<noteq> i \<longrightarrow> ?arr' ! j = arr ! j) \<and>
         length (filter (slot_has_key key) (envp_slots ?arr')) =
           length (filter (slot_has_key key) (envp_slots arr))"
    using h s i il nk sl cnt by simp
  then show "\<exists>st' i arr'.
         envp_set key v st = Inr st' \<and>
         envp st' = Some a \<and> next_array st' = next_array st \<and> allocated st' = allocated st \<and>
         arrays st' a = Some arr' \<and> (\<forall>b. b \<noteq> a \<longrightarrow> arrays st' b = arrays st b) \<and>
         i < length (envp_slots arr) \<and> slot_has_key key (arr ! i) \<and>
         (\<forall>j<i. \<not> slot_has_key key (arr ! j)) \<and>
         arr' = arr[i := Some (cells (envp_make_entry key v))] \<and>
         slot_has_key key (arr' ! i) \<and>
         length arr' = length arr \<and>
         length (envp_slots arr') = length (envp_slots arr) \<and>
         (\<forall>j. j \<noteq> i \<longrightarrow> arr' ! j = arr ! j) \<and>
         length (filter (slot_has_key key) (envp_slots arr')) =
           length (filter (slot_has_key key) (envp_slots arr))"
    by (intro exI)
next
  assume h: "envp st = Some a \<and> arrays st a = Some arr \<and> well_formed_envp arr \<and>
      a < next_array st \<and> \<not> key_present key arr"
  let ?new = "Some (cells (envp_make_entry key v))"
  let ?arr' = "envp_slots arr @ [?new, None]"
  let ?st' = "st\<lparr>arrays :=
              (if allocated st then ((arrays st)(next_array st \<mapsto> envp_slots arr))(a := None)
               else (arrays st)(next_array st \<mapsto> envp_slots arr))
                (next_array st \<mapsto> ?arr'),
            next_array := Suc (next_array st),
            envp := Some (next_array st),
            allocated := True,
            overruns := overruns st @ overrun (envp_make_entry key v)\<rparr>"
  have s: "envp_set key v st = Inr ?st'"
    using h envp_set_grows [of st a arr key v] by simp
  have ne: "a \<noteq> next_array st" using h by simp
  have old: "\<forall>j<length (envp_slots arr). ?arr' ! j = arr ! j"
    by (simp add: nth_append envp_slots_nth)
  have "envp_set key v st = Inr ?st' \<and>
         envp ?st' = Some (next_array st) \<and> allocated ?st' \<and>
         arrays ?st' (next_array st) = Some ?arr' \<and>
         arrays ?st' a = (if allocated st then None else Some arr) \<and>
         (\<forall>b. b \<noteq> a \<and> b \<noteq> next_array st \<longrightarrow> arrays ?st' b = arrays st b) \<and>
         ?arr' = envp_slots arr @ [?new, None] \<and>
         length ?arr' = length (envp_slots arr) + 2 \<and>
         envp_slots ?arr' = envp_slots arr @ [?new] \<and>
         (\<forall>j<length (envp_slots arr). ?arr' ! j = arr ! j)"
    using s h ne old by (simp add: envp_slots_grown)
  then show "\<exists>st' arr'.
         envp_set key v st = Inr st' \<and>
         envp st' = Some (next_array st) \<and> allocated st' \<and>
         arrays st' (next_array st) = Some arr' \<and>
         arrays st' a = (if allocated st then None else Some arr) \<and>
         (\<forall>b. b \<noteq> a \<and> b \<noteq> next_array st \<longrightarrow> arrays st' b = arrays st b) \<and>
         arr' = envp_slots arr @ [Some (cells (envp_make_entry key v)), None] \<and>
         length arr' = length (envp_slots arr) + 2 \<and>
         envp_slots arr' = envp_slots arr @ [Some (cells (envp_make_entry key v))] \<and>
         (\<forall>j<length (envp_slots arr). arr' ! j = arr ! j)"
    by (intro exI)
qed

lemma envp_set_on_arrays_example:
  "envp preload_block = Some 0 \<and> arrays preload_block 0 = Some preload_array \<and>
   well_formed_envp preload_array \<and> 0 < next_array preload_block \<and>
   key_present ''PATH'' preload_array \<and> \<not> key_present ''XTRACE_KPRINTF'' preload_array \<and>
   (\<exists>st' arr'. envp_set ''PATH'' ''/usr/bin'' preload_block = Inr st' \<and> envp st' = Some 0 \<and>
      arrays st' 0 = Some arr' \<and> length arr' = 3 \<and> arr' ! 0 = preload_array ! 0 \<and>
      arr' ! 1 = Some (cells (envp_make_entry ''PATH'' ''/usr/bin'')) \<and> arr' ! 2 = None) \<and>
   (\<exists>st' arr'. envp_set ''XTRACE_KPRINTF'' ''0'' preload_block = Inr st' \<and> envp st' = Some 1 \<and>
      arrays st' 1 = Some arr' \<and> length arr' = 4 \<and> arr' ! 0 = preload_array ! 0 \<and>
      arr' ! 1 = preload_array ! 1 \<and>
      arr' ! 2 = Some (cells (envp_make_entry ''XTRACE_KPRINTF'' ''0'')) \<and> arr' ! 3 = None \<and>
      arrays st' 0 = Some preload_array)"
proof -
  have e: "envp preload_block = Some 0" "arrays preload_block 0 = Some preload_array"
    "next_array preload_block = 1" "\<not> allocated preload_block"
    by (simp_all add: preload_block_def)
  have sl: "envp_slots preload_array =
      [Some (c_string ''DYLD_INSERT_LIBRARIES=/a.dylib''), Some (c_string ''PATH=/bin'')]"
    by (simp add: preload_array_def envp_slots_def)
  have wf: "well_formed_envp preload_array"
    unfolding well_formed_envp_def sl
    by (simp add: preload_array_def slot_has_equals_def c_string_def NUL_def)
  have k0: "\<not> slot_has_key ''PATH'' (preload_array ! 0)"
    by (simp add: preload_array_def slot_has_key_def entry_has_key_def c_string_def NUL_def)
  have k1: "slot_has_key ''PATH'' (preload_array ! 1)"
    by (simp add: preload_array_def slot_has_key_def entry_has_key_def c_string_def NUL_def)
  have p: "key_present ''PATH'' preload_array"
    unfolding key_present_def sl using k1
    by (simp add: preload_array_def)
  have a: "\<not> key_present ''XTRACE_KPRINTF'' preload_array"
    unfolding key_present_def sl
    by (simp add: slot_has_key_def entry_has_key_def c_string_def NUL_def)
  note inst = envp_set_on_arrays [of preload_block _ _ 0 preload_array]
  have "\<exists>st' i arr'.
         envp_set ''PATH'' ''/usr/bin'' preload_block = Inr st' \<and>
         envp st' = Some 0 \<and> next_array st' = next_array preload_block \<and>
         allocated st' = allocated preload_block \<and>
         arrays st' 0 = Some arr' \<and> (\<forall>b. b \<noteq> 0 \<longrightarrow> arrays st' b = arrays preload_block b) \<and>
         i < length (envp_slots preload_array) \<and> slot_has_key ''PATH'' (preload_array ! i) \<and>
         (\<forall>j<i. \<not> slot_has_key ''PATH'' (preload_array ! j)) \<and>
         arr' = preload_array[i := Some (cells (envp_make_entry ''PATH'' ''/usr/bin''))] \<and>
         slot_has_key ''PATH'' (arr' ! i) \<and>
         length arr' = length preload_array \<and>
         length (envp_slots arr') = length (envp_slots preload_array) \<and>
         (\<forall>j. j \<noteq> i \<longrightarrow> arr' ! j = preload_array ! j) \<and>
         length (filter (slot_has_key ''PATH'') (envp_slots arr')) =
           length (filter (slot_has_key ''PATH'') (envp_slots preload_array))"
    using inst [of "''PATH''" "''/usr/bin''"] e wf p by simp
  then obtain st' i arr' where o:
    "envp_set ''PATH'' ''/usr/bin'' preload_block = Inr st'" "envp st' = Some 0"
    "arrays st' 0 = Some arr'" "i < length (envp_slots preload_array)"
    "slot_has_key ''PATH'' (preload_array ! i)"
    "arr' = preload_array[i := Some (cells (envp_make_entry ''PATH'' ''/usr/bin''))]"
    by blast
  have "i \<noteq> 0"
  proof
    assume "i = 0"
    then show False using o(5) k0 by simp
  qed
  then have i1: "i = 1" using o(4) sl by simp
  have w1: "\<exists>st' arr'. envp_set ''PATH'' ''/usr/bin'' preload_block = Inr st' \<and> envp st' = Some 0 \<and>
      arrays st' 0 = Some arr' \<and> length arr' = 3 \<and> arr' ! 0 = preload_array ! 0 \<and>
      arr' ! 1 = Some (cells (envp_make_entry ''PATH'' ''/usr/bin'')) \<and> arr' ! 2 = None"
    using o(1,2,3) unfolding o(6) i1 by (simp add: preload_array_def)
  have "\<exists>st' arr'.
         envp_set ''XTRACE_KPRINTF'' ''0'' preload_block = Inr st' \<and>
         envp st' = Some (next_array preload_block) \<and> allocated st' \<and>
         arrays st' (next_array preload_block) = Some arr' \<and>
         arrays st' 0 = (if allocated preload_block then None else Some preload_array) \<and>
         (\<forall>b. b \<noteq> 0 \<and> b \<noteq> next_array preload_block \<longrightarrow> arrays st' b = arrays preload_block b) \<and>
         arr' = envp_slots preload_array @ [Some (cells (envp_make_entry ''XTRACE_KPRINTF'' ''0'')), None] \<and>
         length arr' = length (envp_slots preload_array) + 2 \<and>
         envp_slots arr' = envp_slots preload_array @ [Some (cells (envp_make_entry ''XTRACE_KPRINTF'' ''0''))] \<and>
         (\<forall>j<length (envp_slots preload_array). arr' ! j = preload_array ! j)"
    using inst [of "''XTRACE_KPRINTF''" "''0''"] e wf a by simp
  then obtain st2 arr2 where g:
    "envp_set ''XTRACE_KPRINTF'' ''0'' preload_block = Inr st2"
    "envp st2 = Some (next_array preload_block)"
    "arrays st2 (next_array preload_block) = Some arr2"
    "arrays st2 0 = (if allocated preload_block then None else Some preload_array)"
    "arr2 = envp_slots preload_array @ [Some (cells (envp_make_entry ''XTRACE_KPRINTF'' ''0'')), None]"
    by blast
  have w2: "\<exists>st' arr'. envp_set ''XTRACE_KPRINTF'' ''0'' preload_block = Inr st' \<and> envp st' = Some 1 \<and>
      arrays st' 1 = Some arr' \<and> length arr' = 4 \<and> arr' ! 0 = preload_array ! 0 \<and>
      arr' ! 1 = preload_array ! 1 \<and>
      arr' ! 2 = Some (cells (envp_make_entry ''XTRACE_KPRINTF'' ''0'')) \<and> arr' ! 3 = None \<and>
      arrays st' 0 = Some preload_array"
    using g(1,2,3,4) e(3,4) unfolding g(5) sl by (simp add: preload_array_def)
  show ?thesis using e wf p a w1 w2 by simp
qed

subsection \<open>C9: where the terminator goes\<close>

text \<open>
  C9 does not hold of the code. For every key of length \<open>k\<close> and value of length \<open>v\<close> the
  block has \<open>k + v + 2\<close> bytes; its first \<open>k + v + 1\<close> bytes are the characters of
  \<open>key=value\<close>; the byte at offset \<open>k + v + 1\<close>, where the terminator belongs, is never
  written; and the one NUL the function writes goes to offset \<open>k + v + 2\<close>, outside the
  block. For the key \<open>A\<close> and the value \<open>B\<close> the block is \<open>A = B ?\<close> and the NUL is
  written at offset 4 of a 4-byte block.
\<close>

theorem C9_terminator_written_past_block:
  "length (cells (envp_make_entry key v)) = length key + length v + 2 \<and>
   take (length key + length v + 1) (cells (envp_make_entry key v)) =
     map Some (key @ CHR ''='' # v) \<and>
   cells (envp_make_entry key v) ! (length key + length v + 1) = None \<and>
   overrun (envp_make_entry key v) = [(length key + length v + 2, Some NUL)] \<and>
   envp_make_entry ''A'' ''B'' =
     \<lparr>cells = [Some CHR ''A'', Some CHR ''='', Some CHR ''B'', None], overrun = [(4, Some NUL)]\<rparr>"
proof (intro conjI)
  let ?s = "map Some (key @ CHR ''='' # v)"
  have c: "cells (envp_make_entry key v) = ?s @ [None]"
    by (simp add: envp_make_entry_eq)
  have l: "length ?s = length key + length v + 1" by simp
  show "length (cells (envp_make_entry key v)) = length key + length v + 2"
    unfolding c by simp
  show "take (length key + length v + 1) (cells (envp_make_entry key v)) = ?s"
    unfolding c using l by simp
  show "cells (envp_make_entry key v) ! (length key + length v + 1) = None"
    unfolding c using nth_append_length [of "?s" None "[]"] l by simp
  show "overrun (envp_make_entry key v) = [(length key + length v + 2, Some NUL)]"
    by (simp add: envp_make_entry_eq)
  show "envp_make_entry ''A'' ''B'' =
     \<lparr>cells = [Some CHR ''A'', Some CHR ''='', Some CHR ''B'', None], overrun = [(4, Some NUL)]\<rparr>"
    by (simp add: envp_make_entry_eq)
qed

subsection \<open>The value the hook builds\<close>

lemma LIBRARY_PATH_LENGTH_eq: "LIBRARY_PATH_LENGTH = length LIBRARY_PATH"
  by (simp add: LIBRARY_PATH_LENGTH_def c_string_def)

lemma LIBRARY_PATH_clean: "NUL \<notin> set LIBRARY_PATH"
  by (simp add: LIBRARY_PATH_def NUL_def)

lemma c_str_prefix:
  "c_str p = Inr X \<Longrightarrow> take (length X) p = map Some X \<and> NUL \<notin> set X"
proof (induction p arbitrary: X)
  case Nil
  then show ?case by simp
next
  case (Cons c rest)
  show ?case
  proof (cases c)
    case None
    then show ?thesis using Cons.prems by simp
  next
    case (Some x)
    show ?thesis
    proof (cases "x = NUL")
      case True
      then show ?thesis using Cons.prems Some by simp
    next
      case False
      then obtain Y where y: "c_str rest = Inr Y" "X = x # Y"
        using Cons.prems Some by (auto split: sum.splits)
      have "take (length Y) rest = map Some Y \<and> NUL \<notin> set Y"
        using y(1) by (rule Cons.IH)
      then show ?thesis using y(2) Some False by auto
    qed
  qed
qed

lemma replicate_two_more:
  "replicate (Suc (Suc (n + m))) x = replicate n x @ x # replicate m x @ [x]"
  using replicate_entry [of n m x] by simp

text \<open>
  The block the hook builds when the variable is absent, and when it has the value \<open>X\<close>:
  a properly terminated C string, the library path alone or \<open>X:\<close> and the library path.
\<close>

lemma new_value_absent:
  "c_str (cells (poke LIBRARY_PATH_LENGTH (Some NUL)
      (memcpy (xtrace_malloc (Suc LIBRARY_PATH_LENGTH)) 0
         (map Some LIBRARY_PATH) LIBRARY_PATH_LENGTH))) = Inr LIBRARY_PATH"
proof -
  let ?P = "map Some LIBRARY_PATH"
  have n: "LIBRARY_PATH_LENGTH = length ?P" by (simp add: LIBRARY_PATH_LENGTH_eq)
  have m: "xtrace_malloc (Suc (length ?P)) =
      \<lparr>cells = [] @ replicate (length ?P) None @ [None], overrun = []\<rparr>"
    unfolding xtrace_malloc_def by (simp add: replicate_append_same)
  have c: "memcpy \<lparr>cells = [] @ replicate (length ?P) None @ [None], overrun = []\<rparr>
        0 ?P (length ?P) = \<lparr>cells = ?P @ [None], overrun = []\<rparr>"
    unfolding memcpy_def using memcpy_from_fill [of "[]" ?P "[None]" "[]"] by simp
  have p: "poke (length ?P) (Some NUL) \<lparr>cells = ?P @ [None], overrun = []\<rparr> =
      \<lparr>cells = ?P @ [Some NUL], overrun = []\<rparr>"
    by (simp add: poke_def list_update_append)
  have "c_str (?P @ Some NUL # []) = Inr LIBRARY_PATH"
    using LIBRARY_PATH_clean by (rule c_str_terminated)
  then show ?thesis unfolding n m c p by simp
qed

lemma new_value_present:
  assumes "c_str p = Inr X"
  shows "c_str (cells (poke (Suc (length X + LIBRARY_PATH_LENGTH)) (Some NUL)
      (memcpy
         (poke (length X) (Some CHR '':'')
            (memcpy (xtrace_malloc (Suc (Suc (length X + LIBRARY_PATH_LENGTH)))) 0 p (length X)))
         (Suc (length X)) (map Some LIBRARY_PATH) LIBRARY_PATH_LENGTH))) =
     Inr (X @ CHR '':'' # LIBRARY_PATH)"
proof -
  let ?P = "map Some LIBRARY_PATH" and ?X = "map Some X"
  have x: "take (length X) p = ?X" "NUL \<notin> set X"
    using c_str_prefix [OF assms] by simp_all
  have n: "LIBRARY_PATH_LENGTH = length ?P" by (simp add: LIBRARY_PATH_LENGTH_eq)
  have lx: "length X = length ?X" by simp
  have m: "xtrace_malloc (Suc (Suc (length X + length ?P))) =
      \<lparr>cells = [] @ replicate (length ?X) None @ (None # replicate (length ?P) None @ [None]),
       overrun = []\<rparr>"
    unfolding xtrace_malloc_def replicate_two_more by simp
  have c1: "memcpy \<lparr>cells = [] @ replicate (length ?X) None @ (None # replicate (length ?P) None @ [None]),
       overrun = []\<rparr> 0 p (length X) =
      \<lparr>cells = ?X @ None # replicate (length ?P) None @ [None], overrun = []\<rparr>"
    unfolding memcpy_def x(1)
    using memcpy_from_fill [of "[]" ?X "None # replicate (length ?P) None @ [None]" "[]"] by simp
  have p1: "poke (length X) (Some CHR '':'')
        \<lparr>cells = ?X @ None # replicate (length ?P) None @ [None], overrun = []\<rparr> =
      \<lparr>cells = (?X @ [Some CHR '':'']) @ replicate (length ?P) None @ [None], overrun = []\<rparr>"
    by (simp add: poke_def list_update_append)
  have c2: "memcpy \<lparr>cells = (?X @ [Some CHR '':'']) @ replicate (length ?P) None @ [None], overrun = []\<rparr>
        (Suc (length X)) ?P (length ?P) =
      \<lparr>cells = (?X @ [Some CHR '':'']) @ ?P @ [None], overrun = []\<rparr>"
    unfolding memcpy_def using memcpy_from_fill [of "?X @ [Some CHR '':'']" ?P "[None]" "[]"] by simp
  have p2: "poke (Suc (length X + length ?P)) (Some NUL)
        \<lparr>cells = (?X @ [Some CHR '':'']) @ ?P @ [None], overrun = []\<rparr> =
      \<lparr>cells = map Some (X @ CHR '':'' # LIBRARY_PATH) @ [Some NUL], overrun = []\<rparr>"
    by (simp add: poke_def list_update_append)
  have "NUL \<notin> set (X @ CHR '':'' # LIBRARY_PATH)"
    using x(2) LIBRARY_PATH_clean by (simp add: NUL_def)
  then have "c_str (map Some (X @ CHR '':'' # LIBRARY_PATH) @ Some NUL # []) =
      Inr (X @ CHR '':'' # LIBRARY_PATH)"
    by (rule c_str_terminated)
  then show ?thesis unfolding n m c1 p1 c2 p2 by simp
qed

text \<open>
  What the hook does after it has exported the five configuration variables: it hands
  \<^verbatim>\<open>envp_set\<close> the library path when \<^verbatim>\<open>DYLD_INSERT_LIBRARIES\<close> is absent, and \<open>X:\<close>
  followed by the library path when the variable has the non-empty value \<open>X\<close>.
\<close>

lemma hook_when_absent:
  assumes "envp_set ''XTRACE_SPLIT_ENTRY_AND_EXIT''
             (if xtrace_split_entry_and_exit cfg then ''1'' else ''0'') (st\<lparr>allocated := False\<rparr>) = Inr st1"
    and "envp_set ''XTRACE_NO_COLOR'' (if xtrace_no_color cfg then ''1'' else ''0'') st1 = Inr st2"
    and "envp_set ''XTRACE_KPRINTF'' (if xtrace_kprintf cfg then ''1'' else ''0'') st2 = Inr st3"
    and "envp_set ''XTRACE_LOG_FILE_PER_THREAD''
             (if xtrace_use_per_thread_logfile cfg then ''1'' else ''0'') st3 = Inr st4"
    and "envp_set ''XTRACE_LOG_FILE''
             (if xtrace_use_logfile cfg then xtrace_logfile_base cfg else []) st4 = Inr st5"
    and "envp st5 = Some a" and "arrays st5 a = Some arr"
    and "envp_get arr ''DYLD_INSERT_LIBRARIES'' = Inr None"
  shows "xtrace_execve_inject_hook cfg st = envp_set ''DYLD_INSERT_LIBRARIES'' LIBRARY_PATH st5"
  unfolding xtrace_execve_inject_hook_def
  using assms
  by (simp add: and_then_def Let_def strlen_def new_value_absent)

lemma hook_when_present:
  assumes "envp_set ''XTRACE_SPLIT_ENTRY_AND_EXIT''
             (if xtrace_split_entry_and_exit cfg then ''1'' else ''0'') (st\<lparr>allocated := False\<rparr>) = Inr st1"
    and "envp_set ''XTRACE_NO_COLOR'' (if xtrace_no_color cfg then ''1'' else ''0'') st1 = Inr st2"
    and "envp_set ''XTRACE_KPRINTF'' (if xtrace_kprintf cfg then ''1'' else ''0'') st2 = Inr st3"
    and "envp_set ''XTRACE_LOG_FILE_PER_THREAD''
             (if xtrace_use_per_thread_logfile cfg then ''1'' else ''0'') st3 = Inr st4"
    and "envp_set ''XTRACE_LOG_FILE''
             (if xtrace_use_logfile cfg then xtrace_logfile_base cfg else []) st4 = Inr st5"
    and "envp st5 = Some a" and "arrays st5 a = Some arr"
    and "envp_get arr ''DYLD_INSERT_LIBRARIES'' = Inr (Some p)"
    and "c_str p = Inr X" and "X \<noteq> []"
  shows "xtrace_execve_inject_hook cfg st =
           envp_set ''DYLD_INSERT_LIBRARIES'' (X @ CHR '':'' # LIBRARY_PATH) st5"
  unfolding xtrace_execve_inject_hook_def
  using assms
  by (simp add: and_then_def Let_def strlen_def new_value_present)

lemma envp_set_grows_facts:
  assumes "envp st = Some a" "arrays st a = Some arr" "well_formed_envp arr"
    and "\<not> key_present key arr"
  shows "\<exists>st'. envp_set key v st = Inr st' \<and> envp st' = Some (next_array st) \<and>
           arrays st' (next_array st) =
             Some (envp_slots arr @ [Some (map Some (key @ CHR ''='' # v) @ [None]), None]) \<and>
           next_array st' = Suc (next_array st) \<and> allocated st'"
  using envp_set_grows [OF assms, of v] by (simp add: envp_make_entry_eq)

subsection \<open>The hook on two concrete blocks\<close>

text \<open>
  The hook on the block that holds only \<^verbatim>\<open>PATH\<close>: five growing steps for the
  configuration variables, then one for \<^verbatim>\<open>DYLD_INSERT_LIBRARIES\<close>. Every entry the hook
  made ends in an unwritten byte.
\<close>

lemma hook_on_path_only_block:
  "\<exists>st'. xtrace_execve_inject_hook tracing_config path_only_block = Inr st' \<and>
     envp st' = Some 6 \<and>
     arrays st' 6 = Some [Some (c_string ''PATH=/bin''),
                      Some (map Some ''XTRACE_SPLIT_ENTRY_AND_EXIT=0'' @ [None]),
                      Some (map Some ''XTRACE_NO_COLOR=1'' @ [None]),
                      Some (map Some ''XTRACE_KPRINTF=0'' @ [None]),
                      Some (map Some ''XTRACE_LOG_FILE_PER_THREAD=0'' @ [None]),
                      Some (map Some ''XTRACE_LOG_FILE='' @ [None]),
                      Some (map Some ''DYLD_INSERT_LIBRARIES=/usr/lib/darling/libxtrace.dylib'' @ [None]),
                      None]"
proof -
  define P1 :: envp_array where
    "P1 = [Some (c_string ''PATH=/bin''),
       Some (map Some ''XTRACE_SPLIT_ENTRY_AND_EXIT=0'' @ [None]),
       None]"
  define P2 :: envp_array where
    "P2 = [Some (c_string ''PATH=/bin''),
       Some (map Some ''XTRACE_SPLIT_ENTRY_AND_EXIT=0'' @ [None]),
       Some (map Some ''XTRACE_NO_COLOR=1'' @ [None]),
       None]"
  define P3 :: envp_array where
    "P3 = [Some (c_string ''PATH=/bin''),
       Some (map Some ''XTRACE_SPLIT_ENTRY_AND_EXIT=0'' @ [None]),
       Some (map Some ''XTRACE_NO_COLOR=1'' @ [None]),
       Some (map Some ''XTRACE_KPRINTF=0'' @ [None]),
       None]"
  define P4 :: envp_array where
    "P4 = [Some (c_string ''PATH=/bin''),
       Some (map Some ''XTRACE_SPLIT_ENTRY_AND_EXIT=0'' @ [None]),
       Some (map Some ''XTRACE_NO_COLOR=1'' @ [None]),
       Some (map Some ''XTRACE_KPRINTF=0'' @ [None]),
       Some (map Some ''XTRACE_LOG_FILE_PER_THREAD=0'' @ [None]),
       None]"
  define P5 :: envp_array where
    "P5 = [Some (c_string ''PATH=/bin''),
       Some (map Some ''XTRACE_SPLIT_ENTRY_AND_EXIT=0'' @ [None]),
       Some (map Some ''XTRACE_NO_COLOR=1'' @ [None]),
       Some (map Some ''XTRACE_KPRINTF=0'' @ [None]),
       Some (map Some ''XTRACE_LOG_FILE_PER_THREAD=0'' @ [None]),
       Some (map Some ''XTRACE_LOG_FILE='' @ [None]),
       None]"
  have f0: "envp (path_only_block\<lparr>allocated := False\<rparr>) = Some 0"
    "arrays (path_only_block\<lparr>allocated := False\<rparr>) 0 = Some path_only_array"
    "next_array (path_only_block\<lparr>allocated := False\<rparr>) = 1"
    by (simp_all add: path_only_block_def)
  have w0: "well_formed_envp path_only_array"
    by (simp add: path_only_array_def well_formed_envp_def envp_slots_def slot_has_equals_def c_string_def NUL_def)
  have a0: "\<not> key_present ''XTRACE_SPLIT_ENTRY_AND_EXIT'' path_only_array"
    by (simp add: path_only_array_def key_present_def envp_slots_def slot_has_key_def entry_has_key_def
        c_string_def NUL_def)
  have g0: "envp_slots path_only_array @ [Some (map Some (''XTRACE_SPLIT_ENTRY_AND_EXIT'' @ CHR ''='' # ''0'') @ [None]), None] = P1"
    by (simp add: path_only_array_def P1_def envp_slots_def c_string_def NUL_def)
  from envp_set_grows_facts [OF f0(1,2) w0 a0, of "''0''"]
  obtain st1 where s1: "envp_set ''XTRACE_SPLIT_ENTRY_AND_EXIT'' ''0'' (path_only_block\<lparr>allocated := False\<rparr>) = Inr st1"
    and r1: "envp st1 = Some (next_array (path_only_block\<lparr>allocated := False\<rparr>))"
      "arrays st1 (next_array (path_only_block\<lparr>allocated := False\<rparr>)) =
         Some (envp_slots path_only_array @ [Some (map Some (''XTRACE_SPLIT_ENTRY_AND_EXIT'' @ CHR ''='' # ''0'') @ [None]), None])"
      "next_array st1 = Suc (next_array (path_only_block\<lparr>allocated := False\<rparr>))"
    by blast
  have f1: "envp st1 = Some 1" "arrays st1 1 = Some P1" "next_array st1 = 2"
    using r1 g0 f0(3) by simp_all
  have c1: "envp_set ''XTRACE_SPLIT_ENTRY_AND_EXIT'' (if xtrace_split_entry_and_exit tracing_config then ''1'' else ''0'') (path_only_block\<lparr>allocated := False\<rparr>) = Inr st1"
    using s1 by (simp add: tracing_config_def)
  have w1: "well_formed_envp P1"
    by (simp add: P1_def well_formed_envp_def envp_slots_def slot_has_equals_def c_string_def NUL_def)
  have a1: "\<not> key_present ''XTRACE_NO_COLOR'' P1"
    by (simp add: P1_def key_present_def envp_slots_def slot_has_key_def entry_has_key_def
        c_string_def NUL_def)
  have g1: "envp_slots P1 @ [Some (map Some (''XTRACE_NO_COLOR'' @ CHR ''='' # ''1'') @ [None]), None] = P2"
    by (simp add: P1_def P2_def envp_slots_def c_string_def NUL_def)
  from envp_set_grows_facts [OF f1(1,2) w1 a1, of "''1''"]
  obtain st2 where s2: "envp_set ''XTRACE_NO_COLOR'' ''1'' st1 = Inr st2"
    and r2: "envp st2 = Some (next_array st1)"
      "arrays st2 (next_array st1) =
         Some (envp_slots P1 @ [Some (map Some (''XTRACE_NO_COLOR'' @ CHR ''='' # ''1'') @ [None]), None])"
      "next_array st2 = Suc (next_array st1)"
    by blast
  have f2: "envp st2 = Some 2" "arrays st2 2 = Some P2" "next_array st2 = 3"
    using r2 g1 f1(3) by simp_all
  have c2: "envp_set ''XTRACE_NO_COLOR'' (if xtrace_no_color tracing_config then ''1'' else ''0'') st1 = Inr st2"
    using s2 by (simp add: tracing_config_def)
  have w2: "well_formed_envp P2"
    by (simp add: P2_def well_formed_envp_def envp_slots_def slot_has_equals_def c_string_def NUL_def)
  have a2: "\<not> key_present ''XTRACE_KPRINTF'' P2"
    by (simp add: P2_def key_present_def envp_slots_def slot_has_key_def entry_has_key_def
        c_string_def NUL_def)
  have g2: "envp_slots P2 @ [Some (map Some (''XTRACE_KPRINTF'' @ CHR ''='' # ''0'') @ [None]), None] = P3"
    by (simp add: P2_def P3_def envp_slots_def c_string_def NUL_def)
  from envp_set_grows_facts [OF f2(1,2) w2 a2, of "''0''"]
  obtain st3 where s3: "envp_set ''XTRACE_KPRINTF'' ''0'' st2 = Inr st3"
    and r3: "envp st3 = Some (next_array st2)"
      "arrays st3 (next_array st2) =
         Some (envp_slots P2 @ [Some (map Some (''XTRACE_KPRINTF'' @ CHR ''='' # ''0'') @ [None]), None])"
      "next_array st3 = Suc (next_array st2)"
    by blast
  have f3: "envp st3 = Some 3" "arrays st3 3 = Some P3" "next_array st3 = 4"
    using r3 g2 f2(3) by simp_all
  have c3: "envp_set ''XTRACE_KPRINTF'' (if xtrace_kprintf tracing_config then ''1'' else ''0'') st2 = Inr st3"
    using s3 by (simp add: tracing_config_def)
  have w3: "well_formed_envp P3"
    by (simp add: P3_def well_formed_envp_def envp_slots_def slot_has_equals_def c_string_def NUL_def)
  have a3: "\<not> key_present ''XTRACE_LOG_FILE_PER_THREAD'' P3"
    by (simp add: P3_def key_present_def envp_slots_def slot_has_key_def entry_has_key_def
        c_string_def NUL_def)
  have g3: "envp_slots P3 @ [Some (map Some (''XTRACE_LOG_FILE_PER_THREAD'' @ CHR ''='' # ''0'') @ [None]), None] = P4"
    by (simp add: P3_def P4_def envp_slots_def c_string_def NUL_def)
  from envp_set_grows_facts [OF f3(1,2) w3 a3, of "''0''"]
  obtain st4 where s4: "envp_set ''XTRACE_LOG_FILE_PER_THREAD'' ''0'' st3 = Inr st4"
    and r4: "envp st4 = Some (next_array st3)"
      "arrays st4 (next_array st3) =
         Some (envp_slots P3 @ [Some (map Some (''XTRACE_LOG_FILE_PER_THREAD'' @ CHR ''='' # ''0'') @ [None]), None])"
      "next_array st4 = Suc (next_array st3)"
    by blast
  have f4: "envp st4 = Some 4" "arrays st4 4 = Some P4" "next_array st4 = 5"
    using r4 g3 f3(3) by simp_all
  have c4: "envp_set ''XTRACE_LOG_FILE_PER_THREAD'' (if xtrace_use_per_thread_logfile tracing_config then ''1'' else ''0'') st3 = Inr st4"
    using s4 by (simp add: tracing_config_def)
  have w4: "well_formed_envp P4"
    by (simp add: P4_def well_formed_envp_def envp_slots_def slot_has_equals_def c_string_def NUL_def)
  have a4: "\<not> key_present ''XTRACE_LOG_FILE'' P4"
    by (simp add: P4_def key_present_def envp_slots_def slot_has_key_def entry_has_key_def
        c_string_def NUL_def)
  have g4: "envp_slots P4 @ [Some (map Some (''XTRACE_LOG_FILE'' @ CHR ''='' # []) @ [None]), None] = P5"
    by (simp add: P4_def P5_def envp_slots_def c_string_def NUL_def)
  from envp_set_grows_facts [OF f4(1,2) w4 a4, of "[]"]
  obtain st5 where s5: "envp_set ''XTRACE_LOG_FILE'' [] st4 = Inr st5"
    and r5: "envp st5 = Some (next_array st4)"
      "arrays st5 (next_array st4) =
         Some (envp_slots P4 @ [Some (map Some (''XTRACE_LOG_FILE'' @ CHR ''='' # []) @ [None]), None])"
      "next_array st5 = Suc (next_array st4)"
    by blast
  have f5: "envp st5 = Some 5" "arrays st5 5 = Some P5" "next_array st5 = 6"
    using r5 g4 f4(3) by simp_all
  have c5: "envp_set ''XTRACE_LOG_FILE'' (if xtrace_use_logfile tracing_config then xtrace_logfile_base tracing_config else []) st4 = Inr st5"
    using s5 by (simp add: tracing_config_def)
  define P6 :: envp_array where
    "P6 = [Some (c_string ''PATH=/bin''),
       Some (map Some ''XTRACE_SPLIT_ENTRY_AND_EXIT=0'' @ [None]),
       Some (map Some ''XTRACE_NO_COLOR=1'' @ [None]),
       Some (map Some ''XTRACE_KPRINTF=0'' @ [None]),
       Some (map Some ''XTRACE_LOG_FILE_PER_THREAD=0'' @ [None]),
       Some (map Some ''XTRACE_LOG_FILE='' @ [None]),
       Some (map Some ''DYLD_INSERT_LIBRARIES=/usr/lib/darling/libxtrace.dylib'' @ [None]),
       None]"
  have w5: "well_formed_envp P5"
    by (simp add: P5_def well_formed_envp_def envp_slots_def slot_has_equals_def c_string_def NUL_def)
  have a5: "\<not> key_present ''DYLD_INSERT_LIBRARIES'' P5"
    by (simp add: P5_def key_present_def envp_slots_def slot_has_key_def entry_has_key_def
        c_string_def NUL_def)
  have g5: "envp_slots P5 @ [Some (map Some (''DYLD_INSERT_LIBRARIES'' @ CHR ''='' # LIBRARY_PATH) @ [None]), None] = P6"
    by (simp add: P5_def P6_def envp_slots_def LIBRARY_PATH_def c_string_def NUL_def)
  from envp_set_grows_facts [OF f5(1,2) w5 a5, of LIBRARY_PATH]
  obtain st6 where s6: "envp_set ''DYLD_INSERT_LIBRARIES'' LIBRARY_PATH st5 = Inr st6"
    and r6: "envp st6 = Some (next_array st5)"
      "arrays st6 (next_array st5) =
         Some (envp_slots P5 @ [Some (map Some (''DYLD_INSERT_LIBRARIES'' @ CHR ''='' # LIBRARY_PATH) @ [None]), None])"
    by blast
  have f6: "envp st6 = Some 6" "arrays st6 6 = Some P6"
    using r6 g5 f5(3) by simp_all
  have get: "envp_get P5 ''DYLD_INSERT_LIBRARIES'' = Inr None"
    using envp_find_absent [OF w5 a5] by (simp add: envp_get_def)
  have "xtrace_execve_inject_hook tracing_config path_only_block = envp_set ''DYLD_INSERT_LIBRARIES'' LIBRARY_PATH st5"
    using c1 c2 c3 c4 c5 f5(1,2) get by (rule hook_when_absent)
  then have "xtrace_execve_inject_hook tracing_config path_only_block = Inr st6"
    using s6 by simp
  then show ?thesis using f6 by (simp add: P6_def)
qed

text \<open>
  The hook on the block that already names \<^verbatim>\<open>/a.dylib\<close>: the five growing steps, then
  the first slot is overwritten with the longer list.
\<close>

lemma hook_on_preload_block:
  "\<exists>st'. xtrace_execve_inject_hook tracing_config preload_block = Inr st' \<and>
     envp st' = Some 5 \<and>
     arrays st' 5 = Some [Some (map Some ''DYLD_INSERT_LIBRARIES=/a.dylib:/usr/lib/darling/libxtrace.dylib'' @ [None]),
                      Some (c_string ''PATH=/bin''),
                      Some (map Some ''XTRACE_SPLIT_ENTRY_AND_EXIT=0'' @ [None]),
                      Some (map Some ''XTRACE_NO_COLOR=1'' @ [None]),
                      Some (map Some ''XTRACE_KPRINTF=0'' @ [None]),
                      Some (map Some ''XTRACE_LOG_FILE_PER_THREAD=0'' @ [None]),
                      Some (map Some ''XTRACE_LOG_FILE='' @ [None]),
                      None]"
proof -
  define Q1 :: envp_array where
    "Q1 = [Some (c_string ''DYLD_INSERT_LIBRARIES=/a.dylib''),
       Some (c_string ''PATH=/bin''),
       Some (map Some ''XTRACE_SPLIT_ENTRY_AND_EXIT=0'' @ [None]),
       None]"
  define Q2 :: envp_array where
    "Q2 = [Some (c_string ''DYLD_INSERT_LIBRARIES=/a.dylib''),
       Some (c_string ''PATH=/bin''),
       Some (map Some ''XTRACE_SPLIT_ENTRY_AND_EXIT=0'' @ [None]),
       Some (map Some ''XTRACE_NO_COLOR=1'' @ [None]),
       None]"
  define Q3 :: envp_array where
    "Q3 = [Some (c_string ''DYLD_INSERT_LIBRARIES=/a.dylib''),
       Some (c_string ''PATH=/bin''),
       Some (map Some ''XTRACE_SPLIT_ENTRY_AND_EXIT=0'' @ [None]),
       Some (map Some ''XTRACE_NO_COLOR=1'' @ [None]),
       Some (map Some ''XTRACE_KPRINTF=0'' @ [None]),
       None]"
  define Q4 :: envp_array where
    "Q4 = [Some (c_string ''DYLD_INSERT_LIBRARIES=/a.dylib''),
       Some (c_string ''PATH=/bin''),
       Some (map Some ''XTRACE_SPLIT_ENTRY_AND_EXIT=0'' @ [None]),
       Some (map Some ''XTRACE_NO_COLOR=1'' @ [None]),
       Some (map Some ''XTRACE_KPRINTF=0'' @ [None]),
       Some (map Some ''XTRACE_LOG_FILE_PER_THREAD=0'' @ [None]),
       None]"
  define Q5 :: envp_array where
    "Q5 = [Some (c_string ''DYLD_INSERT_LIBRARIES=/a.dylib''),
       Some (c_string ''PATH=/bin''),
       Some (map Some ''XTRACE_SPLIT_ENTRY_AND_EXIT=0'' @ [None]),
       Some (map Some ''XTRACE_NO_COLOR=1'' @ [None]),
       Some (map Some ''XTRACE_KPRINTF=0'' @ [None]),
       Some (map Some ''XTRACE_LOG_FILE_PER_THREAD=0'' @ [None]),
       Some (map Some ''XTRACE_LOG_FILE='' @ [None]),
       None]"
  have f0: "envp (preload_block\<lparr>allocated := False\<rparr>) = Some 0"
    "arrays (preload_block\<lparr>allocated := False\<rparr>) 0 = Some preload_array"
    "next_array (preload_block\<lparr>allocated := False\<rparr>) = 1"
    by (simp_all add: preload_block_def)
  have w0: "well_formed_envp preload_array"
    by (simp add: preload_array_def well_formed_envp_def envp_slots_def slot_has_equals_def c_string_def NUL_def)
  have a0: "\<not> key_present ''XTRACE_SPLIT_ENTRY_AND_EXIT'' preload_array"
    by (simp add: preload_array_def key_present_def envp_slots_def slot_has_key_def entry_has_key_def
        c_string_def NUL_def)
  have g0: "envp_slots preload_array @ [Some (map Some (''XTRACE_SPLIT_ENTRY_AND_EXIT'' @ CHR ''='' # ''0'') @ [None]), None] = Q1"
    by (simp add: preload_array_def Q1_def envp_slots_def c_string_def NUL_def)
  from envp_set_grows_facts [OF f0(1,2) w0 a0, of "''0''"]
  obtain st1 where s1: "envp_set ''XTRACE_SPLIT_ENTRY_AND_EXIT'' ''0'' (preload_block\<lparr>allocated := False\<rparr>) = Inr st1"
    and r1: "envp st1 = Some (next_array (preload_block\<lparr>allocated := False\<rparr>))"
      "arrays st1 (next_array (preload_block\<lparr>allocated := False\<rparr>)) =
         Some (envp_slots preload_array @ [Some (map Some (''XTRACE_SPLIT_ENTRY_AND_EXIT'' @ CHR ''='' # ''0'') @ [None]), None])"
      "next_array st1 = Suc (next_array (preload_block\<lparr>allocated := False\<rparr>))"
    by blast
  have f1: "envp st1 = Some 1" "arrays st1 1 = Some Q1" "next_array st1 = 2"
    using r1 g0 f0(3) by simp_all
  have c1: "envp_set ''XTRACE_SPLIT_ENTRY_AND_EXIT'' (if xtrace_split_entry_and_exit tracing_config then ''1'' else ''0'') (preload_block\<lparr>allocated := False\<rparr>) = Inr st1"
    using s1 by (simp add: tracing_config_def)
  have w1: "well_formed_envp Q1"
    by (simp add: Q1_def well_formed_envp_def envp_slots_def slot_has_equals_def c_string_def NUL_def)
  have a1: "\<not> key_present ''XTRACE_NO_COLOR'' Q1"
    by (simp add: Q1_def key_present_def envp_slots_def slot_has_key_def entry_has_key_def
        c_string_def NUL_def)
  have g1: "envp_slots Q1 @ [Some (map Some (''XTRACE_NO_COLOR'' @ CHR ''='' # ''1'') @ [None]), None] = Q2"
    by (simp add: Q1_def Q2_def envp_slots_def c_string_def NUL_def)
  from envp_set_grows_facts [OF f1(1,2) w1 a1, of "''1''"]
  obtain st2 where s2: "envp_set ''XTRACE_NO_COLOR'' ''1'' st1 = Inr st2"
    and r2: "envp st2 = Some (next_array st1)"
      "arrays st2 (next_array st1) =
         Some (envp_slots Q1 @ [Some (map Some (''XTRACE_NO_COLOR'' @ CHR ''='' # ''1'') @ [None]), None])"
      "next_array st2 = Suc (next_array st1)"
    by blast
  have f2: "envp st2 = Some 2" "arrays st2 2 = Some Q2" "next_array st2 = 3"
    using r2 g1 f1(3) by simp_all
  have c2: "envp_set ''XTRACE_NO_COLOR'' (if xtrace_no_color tracing_config then ''1'' else ''0'') st1 = Inr st2"
    using s2 by (simp add: tracing_config_def)
  have w2: "well_formed_envp Q2"
    by (simp add: Q2_def well_formed_envp_def envp_slots_def slot_has_equals_def c_string_def NUL_def)
  have a2: "\<not> key_present ''XTRACE_KPRINTF'' Q2"
    by (simp add: Q2_def key_present_def envp_slots_def slot_has_key_def entry_has_key_def
        c_string_def NUL_def)
  have g2: "envp_slots Q2 @ [Some (map Some (''XTRACE_KPRINTF'' @ CHR ''='' # ''0'') @ [None]), None] = Q3"
    by (simp add: Q2_def Q3_def envp_slots_def c_string_def NUL_def)
  from envp_set_grows_facts [OF f2(1,2) w2 a2, of "''0''"]
  obtain st3 where s3: "envp_set ''XTRACE_KPRINTF'' ''0'' st2 = Inr st3"
    and r3: "envp st3 = Some (next_array st2)"
      "arrays st3 (next_array st2) =
         Some (envp_slots Q2 @ [Some (map Some (''XTRACE_KPRINTF'' @ CHR ''='' # ''0'') @ [None]), None])"
      "next_array st3 = Suc (next_array st2)"
    by blast
  have f3: "envp st3 = Some 3" "arrays st3 3 = Some Q3" "next_array st3 = 4"
    using r3 g2 f2(3) by simp_all
  have c3: "envp_set ''XTRACE_KPRINTF'' (if xtrace_kprintf tracing_config then ''1'' else ''0'') st2 = Inr st3"
    using s3 by (simp add: tracing_config_def)
  have w3: "well_formed_envp Q3"
    by (simp add: Q3_def well_formed_envp_def envp_slots_def slot_has_equals_def c_string_def NUL_def)
  have a3: "\<not> key_present ''XTRACE_LOG_FILE_PER_THREAD'' Q3"
    by (simp add: Q3_def key_present_def envp_slots_def slot_has_key_def entry_has_key_def
        c_string_def NUL_def)
  have g3: "envp_slots Q3 @ [Some (map Some (''XTRACE_LOG_FILE_PER_THREAD'' @ CHR ''='' # ''0'') @ [None]), None] = Q4"
    by (simp add: Q3_def Q4_def envp_slots_def c_string_def NUL_def)
  from envp_set_grows_facts [OF f3(1,2) w3 a3, of "''0''"]
  obtain st4 where s4: "envp_set ''XTRACE_LOG_FILE_PER_THREAD'' ''0'' st3 = Inr st4"
    and r4: "envp st4 = Some (next_array st3)"
      "arrays st4 (next_array st3) =
         Some (envp_slots Q3 @ [Some (map Some (''XTRACE_LOG_FILE_PER_THREAD'' @ CHR ''='' # ''0'') @ [None]), None])"
      "next_array st4 = Suc (next_array st3)"
    by blast
  have f4: "envp st4 = Some 4" "arrays st4 4 = Some Q4" "next_array st4 = 5"
    using r4 g3 f3(3) by simp_all
  have c4: "envp_set ''XTRACE_LOG_FILE_PER_THREAD'' (if xtrace_use_per_thread_logfile tracing_config then ''1'' else ''0'') st3 = Inr st4"
    using s4 by (simp add: tracing_config_def)
  have w4: "well_formed_envp Q4"
    by (simp add: Q4_def well_formed_envp_def envp_slots_def slot_has_equals_def c_string_def NUL_def)
  have a4: "\<not> key_present ''XTRACE_LOG_FILE'' Q4"
    by (simp add: Q4_def key_present_def envp_slots_def slot_has_key_def entry_has_key_def
        c_string_def NUL_def)
  have g4: "envp_slots Q4 @ [Some (map Some (''XTRACE_LOG_FILE'' @ CHR ''='' # []) @ [None]), None] = Q5"
    by (simp add: Q4_def Q5_def envp_slots_def c_string_def NUL_def)
  from envp_set_grows_facts [OF f4(1,2) w4 a4, of "[]"]
  obtain st5 where s5: "envp_set ''XTRACE_LOG_FILE'' [] st4 = Inr st5"
    and r5: "envp st5 = Some (next_array st4)"
      "arrays st5 (next_array st4) =
         Some (envp_slots Q4 @ [Some (map Some (''XTRACE_LOG_FILE'' @ CHR ''='' # []) @ [None]), None])"
      "next_array st5 = Suc (next_array st4)"
    by blast
  have f5: "envp st5 = Some 5" "arrays st5 5 = Some Q5" "next_array st5 = 6"
    using r5 g4 f4(3) by simp_all
  have c5: "envp_set ''XTRACE_LOG_FILE'' (if xtrace_use_logfile tracing_config then xtrace_logfile_base tracing_config else []) st4 = Inr st5"
    using s5 by (simp add: tracing_config_def)
  define Q6 :: envp_array where
    "Q6 = [Some (map Some ''DYLD_INSERT_LIBRARIES=/a.dylib:/usr/lib/darling/libxtrace.dylib'' @ [None]),
       Some (c_string ''PATH=/bin''),
       Some (map Some ''XTRACE_SPLIT_ENTRY_AND_EXIT=0'' @ [None]),
       Some (map Some ''XTRACE_NO_COLOR=1'' @ [None]),
       Some (map Some ''XTRACE_KPRINTF=0'' @ [None]),
       Some (map Some ''XTRACE_LOG_FILE_PER_THREAD=0'' @ [None]),
       Some (map Some ''XTRACE_LOG_FILE='' @ [None]),
       None]"
  have find: "envp_find Q5 ''DYLD_INSERT_LIBRARIES'' = Inr (Some 0)"
    by (simp add: Q5_def c_string_def NUL_def)
  have get: "envp_get Q5 ''DYLD_INSERT_LIBRARIES'' = Inr (Some (c_string ''/a.dylib''))"
    unfolding envp_get_def find by (simp add: Q5_def c_string_def NUL_def)
  have str: "c_str (c_string ''/a.dylib'') = Inr ''/a.dylib''"
    by (simp add: c_string_def NUL_def)
  have ne: "''/a.dylib'' \<noteq> []" by simp
  have upd: "Q5[0 := Some (cells (envp_make_entry ''DYLD_INSERT_LIBRARIES'' (''/a.dylib'' @ CHR '':'' # LIBRARY_PATH)))] = Q6"
    by (simp add: Q5_def Q6_def envp_make_entry_eq LIBRARY_PATH_def)
  have s6: "envp_set ''DYLD_INSERT_LIBRARIES'' (''/a.dylib'' @ CHR '':'' # LIBRARY_PATH) st5 =
      Inr (st5\<lparr>arrays := (arrays st5)(5 \<mapsto> Q6),
             overruns := overruns st5 @
               overrun (envp_make_entry ''DYLD_INSERT_LIBRARIES'' (''/a.dylib'' @ CHR '':'' # LIBRARY_PATH))\<rparr>)"
    using f5(1,2) find upd by (simp add: envp_set_def Let_def)
  have "xtrace_execve_inject_hook tracing_config preload_block =
      envp_set ''DYLD_INSERT_LIBRARIES'' (''/a.dylib'' @ CHR '':'' # LIBRARY_PATH) st5"
    using c1 c2 c3 c4 c5 f5(1,2) get str ne by (rule hook_when_present)
  then have "xtrace_execve_inject_hook tracing_config preload_block =
      Inr (st5\<lparr>arrays := (arrays st5)(5 \<mapsto> Q6),
             overruns := overruns st5 @
               overrun (envp_make_entry ''DYLD_INSERT_LIBRARIES'' (''/a.dylib'' @ CHR '':'' # LIBRARY_PATH))\<rparr>)"
    using s6 by simp
  then show ?thesis using f5 by (simp add: Q6_def)
qed
subsection \<open>C5: the value of \<^verbatim>\<open>DYLD_INSERT_LIBRARIES\<close> after the hook\<close>

text \<open>
  C5 does not hold of the code. The hook builds the right value (the library path, or
  \<open>X:\<close> and the library path) and hands it to \<^verbatim>\<open>envp_set\<close>, but the entry that
  \<^verbatim>\<open>envp_make_entry\<close> stores has no terminator inside its block. On the block that holds
  only \<^verbatim>\<open>PATH=/bin\<close> the entry in slot 6 is the text
  \<^verbatim>\<open>DYLD_INSERT_LIBRARIES=/usr/lib/darling/libxtrace.dylib\<close> followed by an unwritten
  byte, and reading the variable runs into that byte; on the block that already has
  \<^verbatim>\<open>DYLD_INSERT_LIBRARIES=/a.dylib\<close> slot 0 becomes
  \<^verbatim>\<open>DYLD_INSERT_LIBRARIES=/a.dylib:/usr/lib/darling/libxtrace.dylib\<close> followed by an
  unwritten byte. The caller's own \<^verbatim>\<open>PATH\<close> entry still reads \<^verbatim>\<open>/bin\<close>.
\<close>

theorem C5_library_value_unterminated:
  "(\<exists>st' arr. xtrace_execve_inject_hook tracing_config path_only_block = Inr st' \<and>
      envp st' = Some 6 \<and> arrays st' 6 = Some arr \<and>
      arr ! 6 = Some (map Some ''DYLD_INSERT_LIBRARIES=/usr/lib/darling/libxtrace.dylib'' @ [None]) \<and>
      envp_value st' ''DYLD_INSERT_LIBRARIES'' = Inl Uninitialised \<and>
      envp_value st' ''DYLD_INSERT_LIBRARIES'' \<noteq> Inr (Some LIBRARY_PATH) \<and>
      envp_value st' ''PATH'' = Inr (Some ''/bin'')) \<and>
   (\<exists>st' arr. xtrace_execve_inject_hook tracing_config preload_block = Inr st' \<and>
      envp st' = Some 5 \<and> arrays st' 5 = Some arr \<and>
      arr ! 0 = Some (map Some ''DYLD_INSERT_LIBRARIES=/a.dylib:/usr/lib/darling/libxtrace.dylib''
                        @ [None]) \<and>
      envp_value st' ''DYLD_INSERT_LIBRARIES'' = Inl Uninitialised \<and>
      envp_value st' ''DYLD_INSERT_LIBRARIES'' \<noteq> Inr (Some (''/a.dylib:'' @ LIBRARY_PATH)) \<and>
      envp_value st' ''PATH'' = Inr (Some ''/bin''))"
proof (intro conjI)
  obtain st' where h: "xtrace_execve_inject_hook tracing_config path_only_block = Inr st'"
    "envp st' = Some 6"
    "arrays st' 6 = Some [Some (c_string ''PATH=/bin''),
                      Some (map Some ''XTRACE_SPLIT_ENTRY_AND_EXIT=0'' @ [None]),
                      Some (map Some ''XTRACE_NO_COLOR=1'' @ [None]),
                      Some (map Some ''XTRACE_KPRINTF=0'' @ [None]),
                      Some (map Some ''XTRACE_LOG_FILE_PER_THREAD=0'' @ [None]),
                      Some (map Some ''XTRACE_LOG_FILE='' @ [None]),
                      Some (map Some ''DYLD_INSERT_LIBRARIES=/usr/lib/darling/libxtrace.dylib'' @ [None]),
                      None]"
    using hook_on_path_only_block by blast
  have v: "envp_value st' ''DYLD_INSERT_LIBRARIES'' = Inl Uninitialised"
    by (simp add: envp_value_def h(2) h(3) envp_get_def c_string_def NUL_def)
  have p: "envp_value st' ''PATH'' = Inr (Some ''/bin'')"
    by (simp add: envp_value_def h(2) h(3) envp_get_def c_string_def NUL_def)
  show "\<exists>st' arr. xtrace_execve_inject_hook tracing_config path_only_block = Inr st' \<and>
      envp st' = Some 6 \<and> arrays st' 6 = Some arr \<and>
      arr ! 6 = Some (map Some ''DYLD_INSERT_LIBRARIES=/usr/lib/darling/libxtrace.dylib'' @ [None]) \<and>
      envp_value st' ''DYLD_INSERT_LIBRARIES'' = Inl Uninitialised \<and>
      envp_value st' ''DYLD_INSERT_LIBRARIES'' \<noteq> Inr (Some LIBRARY_PATH) \<and>
      envp_value st' ''PATH'' = Inr (Some ''/bin'')"
    using h v p by simp
next
  obtain st' where h: "xtrace_execve_inject_hook tracing_config preload_block = Inr st'"
    "envp st' = Some 5"
    "arrays st' 5 = Some [Some (map Some ''DYLD_INSERT_LIBRARIES=/a.dylib:/usr/lib/darling/libxtrace.dylib'' @ [None]),
                      Some (c_string ''PATH=/bin''),
                      Some (map Some ''XTRACE_SPLIT_ENTRY_AND_EXIT=0'' @ [None]),
                      Some (map Some ''XTRACE_NO_COLOR=1'' @ [None]),
                      Some (map Some ''XTRACE_KPRINTF=0'' @ [None]),
                      Some (map Some ''XTRACE_LOG_FILE_PER_THREAD=0'' @ [None]),
                      Some (map Some ''XTRACE_LOG_FILE='' @ [None]),
                      None]"
    using hook_on_preload_block by blast
  have v: "envp_value st' ''DYLD_INSERT_LIBRARIES'' = Inl Uninitialised"
    by (simp add: envp_value_def h(2) h(3) envp_get_def c_string_def NUL_def)
  have p: "envp_value st' ''PATH'' = Inr (Some ''/bin'')"
    by (simp add: envp_value_def h(2) h(3) envp_get_def c_string_def NUL_def)
  show "\<exists>st' arr. xtrace_execve_inject_hook tracing_config preload_block = Inr st' \<and>
      envp st' = Some 5 \<and> arrays st' 5 = Some arr \<and>
      arr ! 0 = Some (map Some ''DYLD_INSERT_LIBRARIES=/a.dylib:/usr/lib/darling/libxtrace.dylib''
                        @ [None]) \<and>
      envp_value st' ''DYLD_INSERT_LIBRARIES'' = Inl Uninitialised \<and>
      envp_value st' ''DYLD_INSERT_LIBRARIES'' \<noteq> Inr (Some (''/a.dylib:'' @ LIBRARY_PATH)) \<and>
      envp_value st' ''PATH'' = Inr (Some ''/bin'')"
    using h v p by simp
qed

section \<open>The environment block in memory\<close>

lemmas ev = char_of_def bit_iff_odd_drop_bit drop_bit_eq_div encode_ptr_def decode_ptr_def
  NUL_def c_string_def

lemma grow_bytes:
  "heap_bytes grow_input = replicate 8 None @
     [Some CHR 0x28, Some CHR 0x00, Some CHR 0x00, Some CHR 0x00, Some CHR 0x00, Some CHR 0x00, Some CHR 0x00, Some CHR 0x00,
      Some CHR 0x00, Some CHR 0x00, Some CHR 0x00, Some CHR 0x00, Some CHR 0x00, Some CHR 0x00, Some CHR 0x00, Some CHR 0x00] @
     replicate 16 None @ [Some CHR ''P'', Some CHR ''='', Some CHR ''1'', Some CHR 0x00] @ replicate 36 None"
  by (simp add: grow_input_def ev)

lemma len: "length (heap_bytes grow_input) = 80"
  by (simp add: grow_input_def ev)


lemma array_view_step:
  "0 < n \<Longrightarrow> array_view m a n =
     (case load_ptr m a of
        Inl f \<Rightarrow> []
      | Inr p \<Rightarrow> if p = 0 then [None] else Some (drop p m) # array_view m (a + 8) (n - 1))"
  by (cases n) (simp_all split: sum.splits)

lemma load8: "load_ptr (heap_bytes grow_input) 8 = Inr 40"
  by (simp add: grow_bytes load_ptr_def decode_ptr_def)

lemma load16: "load_ptr (heap_bytes grow_input) 16 = Inr 0"
  by (simp add: grow_bytes load_ptr_def decode_ptr_def)

lemma drop40: "drop 40 (heap_bytes grow_input) =
    [Some CHR ''P'', Some CHR ''='', Some CHR ''1'', Some CHR 0x00] @ replicate 36 None"
  by (simp add: grow_bytes)

lemma view_grow: "array_at (heap_bytes grow_input) 8 =
    [Some ([Some CHR ''P'', Some CHR ''='', Some CHR ''1'', Some CHR 0x00] @ replicate 36 None), None]"
  unfolding array_at_def len
  by (simp add: array_view_step load8 load16 drop40)


lemma find_grow: "envp_find (array_at (heap_bytes grow_input) 8) ''K'' = Inr None"
  unfolding view_grow by (simp add: NUL_def)

lemma count_grow: "envp_count (array_at (heap_bytes grow_input) 8) = Inr 1"
  unfolding view_grow by simp

lemma entry_K2: "envp_make_entry ''K'' ''2'' =
    \<lparr>cells = [Some CHR ''K'', Some CHR ''='', Some CHR ''2'', None], overrun = [(4, Some NUL)]\<rparr>"
  by (simp add: envp_make_entry_eq)

lemma set_grow: "envp_set_at ''K'' ''2'' grow_input = Inr grow_output"
  unfolding envp_set_at_def Let_def
  apply (simp add: grow_input_def [THEN arg_cong, of envp_pointer])
  apply (simp add: find_grow count_grow and_then_def)
  apply (simp add: xtrace_malloc_at_def envp_make_entry_at_def and_then_def write_at_def entry_K2
     place_def store_ptr_def grow_input_def grow_output_def ev)
  done


lemma len_out: "length (heap_bytes grow_output) = 80"
  by (simp add: grow_output_def ev)

lemma view_out: "array_at (heap_bytes grow_output) 48 =
    [Some ([Some NUL, Some CHR ''='', Some CHR ''1'', Some NUL] @ replicate 4 None @
        map Some (encode_ptr 40) @ map Some (encode_ptr 36) @ map Some (encode_ptr 0) @
        replicate 8 None),
     Some ([Some CHR ''K'', Some CHR ''='', Some CHR ''2'', None] @
        [Some NUL, Some CHR ''='', Some CHR ''1'', Some NUL] @ replicate 4 None @
        map Some (encode_ptr 40) @ map Some (encode_ptr 36) @ map Some (encode_ptr 0) @
        replicate 8 None),
     None]"
  unfolding array_at_def len_out
  by (simp add: array_view_step load_ptr_def grow_output_def ev)

lemma value_P_before: "envp_value_at grow_input ''P'' = Inr (Some ''1'')"
  unfolding envp_value_at_def
  apply (simp add: grow_input_def [THEN arg_cong, of envp_pointer])
  apply (simp add: view_grow envp_get_def NUL_def)
  done

lemma value_P_after: "envp_value_at grow_output ''P'' = Inl NullPointer"
  unfolding envp_value_at_def
  apply (simp add: grow_output_def [THEN arg_cong, of envp_pointer])
  apply (simp add: view_out envp_get_def NUL_def)
  done


lemma len_ow: "length (heap_bytes overwrite_input) = 80"
  by (simp add: overwrite_input_def ev)

lemma view_ow: "array_at (heap_bytes overwrite_input) 8 =
    [Some (c_string ''K=0'' @ replicate 8 None @ c_string ''P=1'' @ replicate 24 None),
     Some (c_string ''P=1'' @ replicate 24 None), None]"
  unfolding array_at_def len_ow
  by (simp add: array_view_step load_ptr_def overwrite_input_def ev)

lemma find_ow: "envp_find (array_at (heap_bytes overwrite_input) 8) ''K'' = Inr (Some 0)"
  unfolding view_ow by (simp add: NUL_def c_string_def)

lemma set_overwrite: "envp_set_at ''K'' ''2'' overwrite_input = Inr overwrite_output"
  unfolding envp_set_at_def Let_def
  apply (simp add: overwrite_input_def [THEN arg_cong, of envp_pointer])
  apply (simp add: find_ow and_then_def)
  apply (simp add: xtrace_malloc_at_def envp_make_entry_at_def and_then_def write_at_def entry_K2
     place_def store_ptr_def overwrite_input_def overwrite_output_def ev)
  done

lemma len_owo: "length (heap_bytes overwrite_output) = 80"
  by (simp add: overwrite_output_def ev)

lemma view_owo: "array_at (heap_bytes overwrite_output) 8 =
    [Some ([Some CHR ''K'', Some CHR ''='', Some CHR ''2'', None] @
        [Some NUL, Some CHR ''='', Some CHR ''1'', Some NUL] @ replicate 24 None),
     Some ([Some NUL, Some CHR ''='', Some CHR ''1'', Some NUL] @ replicate 24 None), None]"
  unfolding array_at_def len_owo
  by (simp add: array_view_step load_ptr_def overwrite_output_def ev)

lemma value_P_before_ow: "envp_value_at overwrite_input ''P'' = Inr (Some ''1'')"
  unfolding envp_value_at_def
  apply (simp add: overwrite_input_def [THEN arg_cong, of envp_pointer])
  apply (simp add: view_ow envp_get_def NUL_def c_string_def)
  done

lemma value_P_after_ow: "envp_value_at overwrite_output ''P'' = Inl NullPointer"
  unfolding envp_value_at_def
  apply (simp add: overwrite_output_def [THEN arg_cong, of envp_pointer])
  apply (simp add: view_owo envp_get_def NUL_def)
  done

text \<open>
  Every call of \<^verbatim>\<open>envp_make_entry\<close> that returns has stored a NUL at the address one
  past the end of the block the allocator gave it.
\<close>

lemma write_at_length: "write_at a cs m = Inr m' \<Longrightarrow> length m' = length m"
  by (auto simp add: write_at_def split: if_splits)

lemma write_at_nth:
  "write_at a [c] m = Inr m' \<Longrightarrow> m' ! a = c"
  by (auto simp add: write_at_def nth_append split: if_splits)

lemma envp_make_entry_at_stray_store:
  assumes "envp_make_entry_at key v st = Inr (entry, st')"
  shows "malloc_results st = entry # malloc_results st' \<and>
         live st' = (entry, length key + length v + 2) # live st \<and>
         heap_bytes st' ! (entry + (length key + length v + 2)) = Some NUL"
proof -
  let ?n = "length key + length v + 2"
  from assms obtain rest m1 where
    a: "malloc_results st = entry # rest"
    and w1: "write_at entry (replicate ?n None) (heap_bytes st) = Inr m1"
    and p: "place entry (envp_make_entry key v) m1 = Inr (heap_bytes st')"
    and r: "malloc_results st' = rest" and l: "live st' = (entry, ?n) # live st"
    by (auto simp add: envp_make_entry_at_def xtrace_malloc_at_def and_then_def
        split: list.splits sum.splits)
  from p obtain m2 where
    w3: "write_at (entry + ?n) [Some NUL] m2 = Inr (heap_bytes st')"
    by (auto simp add: place_def envp_make_entry_eq and_then_def split: sum.splits)
  from w3 have "heap_bytes st' ! (entry + ?n) = Some NUL" by (rule write_at_nth)
  then show ?thesis using a r l by simp
qed

lemma len_dw: "length (heap_bytes downward_input) = 80"
  by (simp add: downward_input_def grow_input_def ev)

lemma view_dw: "array_at (heap_bytes downward_input) 8 =
    [Some ([Some CHR ''P'', Some CHR ''='', Some CHR ''1'', Some CHR 0x00] @ replicate 36 None), None]"
  unfolding array_at_def len_dw
  by (simp add: array_view_step load_ptr_def downward_input_def grow_input_def ev)

lemma find_dw: "envp_find (array_at (heap_bytes downward_input) 8) ''K'' = Inr None"
  unfolding view_dw by (simp add: NUL_def)

lemma count_dw: "envp_count (array_at (heap_bytes downward_input) 8) = Inr 1"
  unfolding view_dw by simp

lemma set_downward: "envp_set_at ''K'' ''2'' downward_input = Inr downward_output"
  unfolding envp_set_at_def Let_def
  apply (simp add: downward_input_def [THEN arg_cong, of envp_pointer] grow_input_def)
  apply (simp add: find_dw count_dw and_then_def)
  apply (simp add: xtrace_malloc_at_def envp_make_entry_at_def and_then_def write_at_def entry_K2
     place_def store_ptr_def downward_input_def grow_input_def downward_output_def ev)
  done

lemma len_dwo: "length (heap_bytes downward_output) = 80"
  by (simp add: downward_output_def ev)

lemma view_dwo: "array_at (heap_bytes downward_output) 48 = [None]"
  unfolding array_at_def len_dwo
  by (simp add: array_view_step load_ptr_def downward_output_def ev)

subsection \<open>C6: entries for other keys\<close>

text \<open>
  C6 does not hold of the code. In both branches \<^verbatim>\<open>envp_set\<close> calls
  \<^verbatim>\<open>envp_make_entry\<close>, which stores a NUL one byte past the block it was given. In the
  first process the key \<^verbatim>\<open>K\<close> is absent and the allocator hands out the four free bytes
  in front of the caller's entry \<^verbatim>\<open>P=1\<close>; in the second the key is present and the
  allocator does the same. All blocks in use are disjoint, before and after. Each call
  returns, and afterwards the first byte of \<^verbatim>\<open>P=1\<close> is a NUL: the entry for the
  unrelated key \<^verbatim>\<open>P\<close> is an empty string, and looking \<^verbatim>\<open>P\<close> up, which gave
  \<^verbatim>\<open>1\<close> before the call, now subtracts from a null pointer. In the third process the
  allocator hands out the new array and then, directly below it, the new entry: the NUL
  lands in slot 0 of the new array, the copied pointer to \<^verbatim>\<open>P=1\<close> becomes a null
  pointer, and the block that is returned has no entries at all.
\<close>

theorem C6_stray_terminator_disturbs_entry:
  "envp_value_at grow_input ''K'' = Inr None \<and>
   envp_value_at grow_input ''P'' = Inr (Some ''1'') \<and>
   disjoint_blocks (length (heap_bytes grow_output)) (live grow_output) \<and>
   envp_set_at ''K'' ''2'' grow_input = Inr grow_output \<and>
   heap_bytes grow_input ! 40 = Some CHR ''P'' \<and>
   heap_bytes grow_output ! 40 = Some NUL \<and>
   envp_value_at grow_output ''P'' = Inl NullPointer \<and>
   envp_value_at overwrite_input ''K'' = Inr (Some ''0'') \<and>
   envp_value_at overwrite_input ''P'' = Inr (Some ''1'') \<and>
   disjoint_blocks (length (heap_bytes overwrite_output)) (live overwrite_output) \<and>
   envp_set_at ''K'' ''2'' overwrite_input = Inr overwrite_output \<and>
   heap_bytes overwrite_input ! 52 = Some CHR ''P'' \<and>
   heap_bytes overwrite_output ! 52 = Some NUL \<and>
   envp_value_at overwrite_output ''P'' = Inl NullPointer \<and>
   envp_value_at downward_input ''P'' = Inr (Some ''1'') \<and>
   disjoint_blocks (length (heap_bytes downward_output)) (live downward_output) \<and>
   envp_set_at ''K'' ''2'' downward_input = Inr downward_output \<and>
   load_ptr (heap_bytes downward_input) 8 = Inr 40 \<and>
   load_ptr (heap_bytes downward_output) 48 = Inr 0 \<and>
   envp_value_at downward_output ''P'' = Inr None \<and>
   envp_value_at downward_output ''K'' = Inr None"
proof (intro conjI)
  show "envp_value_at grow_input ''K'' = Inr None"
    unfolding envp_value_at_def
    apply (simp add: grow_input_def [THEN arg_cong, of envp_pointer])
    apply (simp add: view_grow envp_get_def NUL_def)
    done
  show "envp_value_at grow_input ''P'' = Inr (Some ''1'')" by (rule value_P_before)
  show "disjoint_blocks (length (heap_bytes grow_output)) (live grow_output)"
    unfolding len_out by (simp add: grow_output_def)
  show "envp_set_at ''K'' ''2'' grow_input = Inr grow_output" by (rule set_grow)
  show "heap_bytes grow_input ! 40 = Some CHR ''P''" by (simp add: grow_input_def ev nth_append)
  show "heap_bytes grow_output ! 40 = Some NUL" by (simp add: grow_output_def ev nth_append)
  show "envp_value_at grow_output ''P'' = Inl NullPointer" by (rule value_P_after)
  show "envp_value_at overwrite_input ''K'' = Inr (Some ''0'')"
    unfolding envp_value_at_def
    apply (simp add: overwrite_input_def [THEN arg_cong, of envp_pointer])
    apply (simp add: view_ow envp_get_def NUL_def c_string_def)
    done
  show "envp_value_at overwrite_input ''P'' = Inr (Some ''1'')" by (rule value_P_before_ow)
  show "disjoint_blocks (length (heap_bytes overwrite_output)) (live overwrite_output)"
    unfolding len_owo by (simp add: overwrite_output_def)
  show "envp_set_at ''K'' ''2'' overwrite_input = Inr overwrite_output" by (rule set_overwrite)
  show "heap_bytes overwrite_input ! 52 = Some CHR ''P''" by (simp add: overwrite_input_def ev nth_append)
  show "heap_bytes overwrite_output ! 52 = Some NUL" by (simp add: overwrite_output_def ev nth_append)
  show "envp_value_at overwrite_output ''P'' = Inl NullPointer" by (rule value_P_after_ow)
  show "envp_value_at downward_input ''P'' = Inr (Some ''1'')"
    unfolding envp_value_at_def
    apply (simp add: downward_input_def [THEN arg_cong, of envp_pointer] grow_input_def)
    apply (simp add: view_dw envp_get_def NUL_def)
    done
  show "envp_set_at ''K'' ''2'' downward_input = Inr downward_output" by (rule set_downward)
  show "disjoint_blocks (length (heap_bytes downward_output)) (live downward_output)"
    unfolding len_dwo by (simp add: downward_output_def)
  show "load_ptr (heap_bytes downward_input) 8 = Inr 40"
    by (simp add: load_ptr_def downward_input_def grow_input_def ev)
  show "load_ptr (heap_bytes downward_output) 48 = Inr 0"
    by (simp add: load_ptr_def downward_output_def ev)
  show "envp_value_at downward_output ''P'' = Inr None"
    unfolding envp_value_at_def
    apply (simp add: downward_output_def [THEN arg_cong, of envp_pointer])
    apply (simp add: view_dwo envp_get_def)
    done
  show "envp_value_at downward_output ''K'' = Inr None"
    unfolding envp_value_at_def
    apply (simp add: downward_output_def [THEN arg_cong, of envp_pointer])
    apply (simp add: view_dwo envp_get_def)
    done
qed

end
